(* ===== verification/Prelude.thy ===== *)
theory Prelude
  imports Complex_Main "HOL-Library.Multiset" "HOL-Library.Monad_Syntax"
begin

text \<open>
  Shared vocabulary of the development: the collections of evaluation rules the
  component theories register their equations in, the generic list and map
  helpers the JavaScript model needs (string joining, decimal digit strings and
  their values), and the lemmas about them that the component proofs share.
\<close>

named_theorems js_eval "evaluation rules of the JavaScript value model"
named_theorems sql_eval "evaluation rules of the SQL sink model"

subsection \<open>Joining strings\<close>

text \<open>\<open>Array.prototype.join\<close>: the pieces separated by one character.\<close>

fun join_with :: "char \<Rightarrow> string list \<Rightarrow> string" where
  "join_with c [] = []"
| "join_with c [s] = s"
| "join_with c (s # t # ts) = s @ c # join_with c (t # ts)"

subsection \<open>Decimal and radix digits\<close>

text \<open>
  The value of a digit character in radices up to 36, as \<open>parseInt\<close> reads it:
  \<open>0-9\<close>, then \<open>a-z\<close> and \<open>A-Z\<close> for 10 to 35. Any other character gets 36,
  which is a digit in no radix.
\<close>

definition char_digit :: "char \<Rightarrow> nat" where
  "char_digit c =
     (let k = of_char c :: nat in
      if 48 \<le> k \<and> k \<le> 57 then k - 48
      else if 97 \<le> k \<and> k \<le> 122 then k - 87
      else if 65 \<le> k \<and> k \<le> 90 then k - 55
      else 36)"

definition is_radix_digit :: "nat \<Rightarrow> char \<Rightarrow> bool" where
  "is_radix_digit r c \<longleftrightarrow> char_digit c < r"

abbreviation is_dec_digit :: "char \<Rightarrow> bool" where
  "is_dec_digit \<equiv> is_radix_digit 10"

text \<open>The number a digit string denotes in radix \<open>r\<close>, most significant digit first.\<close>

definition digits_value :: "nat \<Rightarrow> string \<Rightarrow> nat" where
  "digits_value r ds = foldl (\<lambda>acc c. acc * r + char_digit c) 0 ds"

definition digit_char :: "nat \<Rightarrow> char" where
  "digit_char d = char_of (48 + d)"

text \<open>The shortest decimal digit string of a natural number (\<open>''0''\<close> for zero).\<close>

fun nat_digits :: "nat \<Rightarrow> string" where
  "nat_digits n = (if n < 10 then [digit_char n] else nat_digits (n div 10) @ [digit_char (n mod 10)])"

declare nat_digits.simps [simp del]

text \<open>A natural number written with \<open>n\<close> digits, padded with leading zeros.\<close>

definition pad_digits :: "nat \<Rightarrow> nat \<Rightarrow> string" where
  "pad_digits n v = replicate (n - length (nat_digits v)) (CHR ''0'') @ nat_digits v"

subsection \<open>Lemmas on digits\<close>

lemma char_digit_digit_char [simp]: "d < 10 \<Longrightarrow> char_digit (digit_char d) = d"
  by (simp add: char_digit_def digit_char_def)

lemma digits_value_append [simp]:
  "digits_value r (xs @ ys) = foldl (\<lambda>acc c. acc * r + char_digit c) (digits_value r xs) ys"
  by (simp add: digits_value_def)

lemma digits_value_snoc:
  "digits_value r (xs @ [c]) = digits_value r xs * r + char_digit c"
  by simp

lemma digits_value_nat_digits [simp]: "digits_value 10 (nat_digits n) = n"
proof (induction n rule: nat_digits.induct)
  case (1 n)
  show ?case
  proof (cases "n < 10")
    case True
    then show ?thesis by (simp add: nat_digits.simps [of n] digits_value_def)
  next
    case False
    with "1.IH" have "digits_value 10 (nat_digits (n div 10)) = n div 10" by simp
    with False show ?thesis
      by (simp add: nat_digits.simps [of n] del: digits_value_append add: digits_value_snoc)
  qed
qed

lemma nat_digits_dec [simp]: "c \<in> set (nat_digits n) \<Longrightarrow> is_dec_digit c"
proof (induction n rule: nat_digits.induct)
  case (1 n)
  then show ?case
    by (cases "n < 10") (auto simp: nat_digits.simps [of n] is_radix_digit_def)
qed

lemma nat_digits_ne [simp]: "nat_digits n \<noteq> []"
  by (simp add: nat_digits.simps [of n])

lemma digit_char_0 [simp]: "digit_char 0 = CHR ''0''"
  unfolding digit_char_def by code_simp

lemma nat_digits_mult10: "0 < n \<Longrightarrow> nat_digits (n * 10) = nat_digits n @ [CHR ''0'']"
  by (simp add: nat_digits.simps [of "n * 10"])

lemma nat_digits_pow10: "0 < n \<Longrightarrow> nat_digits (n * 10 ^ e) = nat_digits n @ replicate e (CHR ''0'')"
proof (induction e)
  case 0
  then show ?case by simp
next
  case (Suc e)
  have pos: "0 < n * 10 ^ e" using Suc.prems by simp
  have "n * 10 ^ Suc e = (n * 10 ^ e) * 10" by simp
  then have "nat_digits (n * 10 ^ Suc e) = nat_digits (n * 10 ^ e) @ [CHR ''0'']"
    by (simp only: nat_digits_mult10 [OF pos])
  also have "\<dots> = nat_digits n @ replicate e (CHR ''0'') @ [CHR ''0'']"
    using Suc by simp
  finally show ?case by (simp add: replicate_append_same)
qed

lemma length_nat_digits_le: "n < 10 ^ k \<Longrightarrow> 0 < k \<Longrightarrow> length (nat_digits n) \<le> k"
proof (induction n arbitrary: k rule: nat_digits.induct)
  case (1 n)
  show ?case
  proof (cases "n < 10")
    case True
    with "1.prems" show ?thesis by (simp add: nat_digits.simps [of n])
  next
    case False
    then obtain k' where k: "k = Suc k'" using "1.prems" by (cases k) auto
    have "0 < k'"
    proof (rule ccontr)
      assume "\<not> 0 < k'"
      with k "1.prems"(1) have "n < 10" by simp
      with False show False by simp
    qed
    moreover have "n div 10 < 10 ^ k'" using "1.prems"(1) k by (simp add: less_mult_imp_div_less)
    ultimately have "length (nat_digits (n div 10)) \<le> k'" using "1.IH" False by blast
    with False k show ?thesis by (simp add: nat_digits.simps [of n])
  qed
qed

lemma char_digit_0 [simp]: "char_digit (CHR ''0'') = 0"
  by (simp add: char_digit_def)

lemma digits_value_zeros [simp]: "digits_value r (replicate k (CHR ''0'') @ ds) = digits_value r ds"
proof -
  have "foldl (\<lambda>acc c. acc * r + char_digit c) 0 (replicate k (CHR ''0'')) = 0"
    by (induction k) auto
  then show ?thesis by (simp add: digits_value_def del: digits_value_append)
qed

lemma pad_digits_dec: "c \<in> set (pad_digits n v) \<Longrightarrow> is_dec_digit c"
proof -
  have "is_dec_digit (CHR ''0'')" by (simp add: is_radix_digit_def)
  then show "c \<in> set (pad_digits n v) \<Longrightarrow> is_dec_digit c" by (auto simp: pad_digits_def)
qed

lemma pad_digits_length: "v < 10 ^ n \<Longrightarrow> 0 < n \<Longrightarrow> length (pad_digits n v) = n"
  using length_nat_digits_le [of v n] by (simp add: pad_digits_def)

lemma digits_value_pad [simp]: "digits_value 10 (pad_digits n v) = v"
  by (simp only: pad_digits_def digits_value_zeros digits_value_nat_digits)

lemma takeWhile_all [simp]: "(\<And>c. c \<in> set xs \<Longrightarrow> P c) \<Longrightarrow> takeWhile P (xs @ ys) = xs @ takeWhile P ys"
  by (induction xs) auto

lemma dropWhile_all [simp]: "(\<And>c. c \<in> set xs \<Longrightarrow> P c) \<Longrightarrow> dropWhile P (xs @ ys) = dropWhile P ys"
  by (induction xs) auto

subsection \<open>Maps\<close>

lemma map_add_idem_left [simp]: "m ++ m' ++ m' = m ++ m'"
proof -
  have "m' ++ m' = m'" by (rule ext) (simp add: map_add_def split: option.splits)
  then show ?thesis by (simp flip: map_add_assoc)
qed

end
