(* ===== verification/JsValue.thy ===== *)
theory JsValue
  imports Prelude
begin

text \<open>
  The JavaScript values the medal sync job handles (\<open>src/models/Server.js\<close>,
  \<open>getMedals\<close>): the values \<open>result.json()\<close> produces (null, booleans, numbers,
  strings, arrays, objects), \<open>undefined\<close> for a missing property, and the
  abstract operations of ECMAScript the job applies to them: property access
  \<open>m.Field\<close>, \<open>ToString\<close> (applied by \<open>parseInt\<close>/\<open>parseFloat\<close>),
  \<open>Number::toString\<close> and \<open>ToBoolean\<close> (\<open>Boolean(...)\<close>).

  Numbers are kept exact: a finite number is a decimal \<open>m * 10 ^ e\<close> in canonical
  form (\<open>m\<close> not divisible by 10, zero as \<open>0 * 10 ^ 0\<close>). A JSON number literal with
  at most 15 significant digits denotes a double whose shortest decimal form is
  that literal, so on such numbers the decimal is the double and \<open>number_to_string\<close>
  is \<open>Number::toString\<close>; rounding of longer literals and the sign of zero are not
  modelled.
\<close>

section \<open>Numbers\<close>

datatype jsnum = NaN | PosInf | NegInf | Fin int int

text \<open>Canonical form of \<open>m * 10 ^ e\<close>: trailing zeros of the mantissa moved to the exponent.\<close>

function dec_norm :: "int \<Rightarrow> int \<Rightarrow> int \<times> int" where
  "dec_norm m e =
     (if m = 0 then (0, 0)
      else if m mod 10 = 0 then dec_norm (m div 10) (e + 1)
      else (m, e))"
  by pat_completeness auto
termination
  by (relation "measure (\<lambda>(m, e). nat \<bar>m\<bar>)") auto

declare dec_norm.simps [simp del]

definition mk_num :: "int \<Rightarrow> int \<Rightarrow> jsnum" where
  "mk_num m e = (case dec_norm m e of (m', e') \<Rightarrow> Fin m' e')"

abbreviation int_num :: "int \<Rightarrow> jsnum" where
  "int_num i \<equiv> mk_num i 0"

text \<open>The exact value of a finite number.\<close>

fun num_val :: "jsnum \<Rightarrow> rat option" where
  "num_val (Fin m e) = Some (if 0 \<le> e then of_int (m * 10 ^ nat e) else of_int m / 10 ^ nat (- e))"
| "num_val _ = None"

definition canonical :: "jsnum \<Rightarrow> bool" where
  "canonical n = (case n of Fin m e \<Rightarrow> (m = 0 \<longrightarrow> e = 0) \<and> (m \<noteq> 0 \<longrightarrow> m mod 10 \<noteq> 0) | _ \<Rightarrow> True)"

text \<open>
  \<open>Number::toString(x)\<close> in radix 10 (ECMAScript 6.1.6.1.20): for the \<open>k\<close>
  significant digits \<open>s\<close> and the decimal point position \<open>n\<close>, plain integer
  notation when \<open>k \<le> n \<le> 21\<close>, a decimal point inside the digits when
  \<open>0 < n \<le> 21\<close>, leading zeros when \<open>-6 < n \<le> 0\<close>, exponent notation otherwise.
\<close>

definition exp_suffix :: "int \<Rightarrow> string" where
  "exp_suffix x = CHR ''e'' # (if x < 0 then CHR ''-'' else CHR ''+'') # nat_digits (nat \<bar>x\<bar>)"

definition pos_to_string :: "nat \<Rightarrow> int \<Rightarrow> string" where
  "pos_to_string s e =
     (let ds = nat_digits s; k = int (length ds); n = k + e in
      if k \<le> n \<and> n \<le> 21 then ds @ replicate (nat (n - k)) (CHR ''0'')
      else if 0 < n \<and> n \<le> 21 then take (nat n) ds @ CHR ''.'' # drop (nat n) ds
      else if -6 < n \<and> n \<le> 0 then CHR ''0'' # CHR ''.'' # replicate (nat (- n)) (CHR ''0'') @ ds
      else if k = 1 then ds @ exp_suffix (n - 1)
      else hd ds # CHR ''.'' # tl ds @ exp_suffix (n - 1))"

fun number_to_string :: "jsnum \<Rightarrow> string" where
  "number_to_string NaN = ''NaN''"
| "number_to_string PosInf = ''Infinity''"
| "number_to_string NegInf = ''-Infinity''"
| "number_to_string (Fin m e) =
     (case dec_norm m e of (m', e') \<Rightarrow>
        if m' = 0 then ''0''
        else if m' < 0 then CHR ''-'' # pos_to_string (nat (- m')) e'
        else pos_to_string (nat m') e')"

text \<open>The decimal notation of an integer, with a minus sign when it is negative.\<close>

definition int_string :: "int \<Rightarrow> string" where
  "int_string i = (if i < 0 then CHR ''-'' # nat_digits (nat (- i)) else nat_digits (nat i))"

section \<open>Values\<close>

text \<open>
  A value as the job sees it. \<open>VObj\<close> keeps the members in source order, as
  \<open>JSON.parse\<close> creates them; with a duplicated key the last member wins.
\<close>

datatype jsv =
    VUndefined
  | VNull
  | VBool bool
  | VNum jsnum
  | VStr string
  | VArr "jsv list"
  | VObj "(string \<times> jsv) list"

datatype js_error =
    TypeError string
  | SyntaxError string
  | FetchFailed

text \<open>
  Property access \<open>v.name\<close>. Reading a property of \<open>null\<close> or \<open>undefined\<close> throws
  a \<open>TypeError\<close>; an object yields its own member; a property a primitive, an array
  or an object does not have is \<open>undefined\<close>. Prototype properties (\<open>length\<close>,
  \<open>toString\<close>, ...) are not modelled: the names \<open>getMedals\<close> reads are none of them.
\<close>

fun get_prop :: "jsv \<Rightarrow> string \<Rightarrow> js_error + jsv" where
  "get_prop VUndefined p = Inl (TypeError (''Cannot read properties of undefined (reading '' @ p @ '')''))"
| "get_prop VNull p = Inl (TypeError (''Cannot read properties of null (reading '' @ p @ '')''))"
| "get_prop (VObj kvs) p = Inr (case map_of (rev kvs) p of Some v \<Rightarrow> v | None \<Rightarrow> VUndefined)"
| "get_prop _ p = Inr VUndefined"

text \<open>
  \<open>ToString\<close> (ECMAScript 7.1.17) of a value; an array is converted by
  \<open>Array.prototype.join\<close> with \<open>,\<close>, where \<open>null\<close> and \<open>undefined\<close> elements
  become empty strings; a plain object is \<open>[object Object]\<close>.
\<close>

fun to_string :: "jsv \<Rightarrow> string" where
  "to_string VUndefined = ''undefined''"
| "to_string VNull = ''null''"
| "to_string (VBool b) = (if b then ''true'' else ''false'')"
| "to_string (VNum n) = number_to_string n"
| "to_string (VStr s) = s"
| "to_string (VArr xs) =
     join_with (CHR '','') (map (\<lambda>x. if x = VNull \<or> x = VUndefined then [] else to_string x) xs)"
| "to_string (VObj kvs) = ''[object Object]''"

text \<open>\<open>ToBoolean\<close> (ECMAScript 7.1.2), which \<open>Boolean(v)\<close> returns.\<close>

fun to_boolean :: "jsv \<Rightarrow> bool" where
  "to_boolean VUndefined = False"
| "to_boolean VNull = False"
| "to_boolean (VBool b) = b"
| "to_boolean (VNum NaN) = False"
| "to_boolean (VNum (Fin m e)) = (m \<noteq> 0)"
| "to_boolean (VNum _) = True"
| "to_boolean (VStr s) = (s \<noteq> [])"
| "to_boolean (VArr xs) = True"
| "to_boolean (VObj kvs) = True"

text \<open>\<open>a || b\<close> (ECMAScript 13.13): the first operand when it is truthy, else the second.\<close>

definition js_or :: "jsv \<Rightarrow> jsv \<Rightarrow> jsv" where
  "js_or a b = (if to_boolean a then a else b)"

text \<open>
  The values \<open>JSON.parse\<close> can return: no \<open>undefined\<close> and only finite numbers, in
  canonical form.
\<close>

fun json_value :: "jsv \<Rightarrow> bool" where
  "json_value VUndefined = False"
| "json_value (VNum n) = (n \<noteq> NaN \<and> n \<noteq> PosInf \<and> n \<noteq> NegInf \<and> canonical n)"
| "json_value (VArr xs) = (\<forall>x \<in> set xs. json_value x)"
| "json_value (VObj kvs) = (\<forall>kv \<in> set kvs. json_value (snd kv))"
| "json_value _ = True"

section \<open>Lemmas\<close>

lemma dec_norm_canonical: "dec_norm m e = (m', e') \<Longrightarrow> canonical (Fin m' e')"
proof (induction m e arbitrary: m' e' rule: dec_norm.induct)
  case (1 m e)
  show ?case
  proof (cases "m = 0")
    case True
    with "1.prems" show ?thesis by (simp add: dec_norm.simps [of 0 e] canonical_def)
  next
    case False
    show ?thesis
    proof (cases "m mod 10 = 0")
      case True
      with False "1.prems" have "dec_norm (m div 10) (e + 1) = (m', e')"
        by (simp add: dec_norm.simps [of m e])
      with False True show ?thesis by (rule "1.IH")
    next
      case nz: False
      with False "1.prems" have "m' = m" "e' = e"
        by (simp_all add: dec_norm.simps [of m e])
      with False nz show ?thesis by (simp add: canonical_def)
    qed
  qed
qed

lemma mk_num_canonical [simp]: "canonical (mk_num m e)"
  by (auto simp: mk_num_def dec_norm_canonical split: prod.splits)

lemma dec_norm_canonical_id: "canonical (Fin m e) \<Longrightarrow> dec_norm m e = (m, e)"
  by (auto simp: dec_norm.simps [of m e] canonical_def)

lemma mk_num_Fin: "canonical (Fin m e) \<Longrightarrow> mk_num m e = Fin m e"
  by (simp add: mk_num_def dec_norm_canonical_id)

lemma dec_norm_zero [simp]: "dec_norm 0 e = (0, 0)"
  by (simp add: dec_norm.simps [of 0 e])

lemma mk_num_zero [simp]: "mk_num 0 e = Fin 0 0"
  by (simp add: mk_num_def)

lemma mk_num_not_special [simp]:
  "mk_num m e \<noteq> NaN" "mk_num m e \<noteq> PosInf" "mk_num m e \<noteq> NegInf"
  by (auto simp: mk_num_def split: prod.splits)

lemma dec_norm_zero_iff: "fst (dec_norm m e) = 0 \<longleftrightarrow> m = 0"
proof (induction m e rule: dec_norm.induct)
  case (1 m e)
  then show ?case
    by (cases "m = 0") (auto simp: dec_norm.simps [of m e])
qed

lemma mk_num_zero_iff: "(\<exists>e'. mk_num m e = Fin 0 e') \<longleftrightarrow> m = 0"
  using dec_norm_zero_iff [of m e] by (auto simp: mk_num_def split: prod.splits)

lemma dec_norm_value:
  "dec_norm m e = (m', e') \<Longrightarrow> m \<noteq> 0 \<Longrightarrow> e \<le> e' \<and> m = m' * 10 ^ nat (e' - e)"
proof (induction m e arbitrary: m' e' rule: dec_norm.induct)
  case (1 m e)
  show ?case
  proof (cases "m mod 10 = 0")
    case True
    with "1.prems" have eq: "dec_norm (m div 10) (e + 1) = (m', e')"
      by (simp add: dec_norm.simps [of m e])
    from True "1.prems"(2) have "m div 10 \<noteq> 0" by auto
    with "1.IH" [OF _ True eq] "1.prems"(2)
    have ih: "e + 1 \<le> e' \<and> m div 10 = m' * 10 ^ nat (e' - (e + 1))" by simp
    then have "nat (e' - e) = Suc (nat (e' - (e + 1)))" by (simp add: Suc_nat_eq_nat_zadd1 algebra_simps)
    with ih True show ?thesis by (auto simp: mult.commute [of 10] mult.assoc elim!: dvdE)
  next
    case False
    with "1.prems" show ?thesis by (simp add: dec_norm.simps [of m e])
  qed
qed

lemma int_num_Fin: "int_num k = Fin a b \<Longrightarrow> 0 \<le> b \<and> a * 10 ^ nat b = k"
  using dec_norm_value [of k 0 a b] by (cases "k = 0") (auto simp: mk_num_def split: prod.splits)

lemma to_boolean_num_iff [simp]: "to_boolean (VNum (mk_num m e)) \<longleftrightarrow> m \<noteq> 0"
  using mk_num_zero_iff [of m e]
  by (auto simp: mk_num_def split: prod.splits)

lemma pos_to_string_int:
  assumes "0 < s" and "0 \<le> e" and "s * 10 ^ nat e < 10 ^ 21"
  shows "pos_to_string s e = nat_digits (s * 10 ^ nat e)"
proof -
  have len: "length (nat_digits (s * 10 ^ nat e)) = length (nat_digits s) + nat e"
    using assms(1) by (simp add: nat_digits_pow10)
  have "length (nat_digits (s * 10 ^ nat e)) \<le> 21"
    using assms(3) by (rule length_nat_digits_le) simp
  with len assms(2) have "int (length (nat_digits s)) + e \<le> 21" by simp
  with assms show ?thesis
    by (simp add: pos_to_string_def Let_def nat_digits_pow10)
qed

text \<open>The five notations of \<open>Number::toString\<close>, with what each one needs.\<close>

lemma pos_to_string_cases:
  obtains (plain) "0 \<le> e" "pos_to_string s e = nat_digits s @ replicate (nat e) (CHR ''0'')"
  | (point) "0 < int (length (nat_digits s)) + e" "e < 0"
      "pos_to_string s e = take (nat (int (length (nat_digits s)) + e)) (nat_digits s) @ CHR ''.'' #
                           drop (nat (int (length (nat_digits s)) + e)) (nat_digits s)"
  | (zeros) "int (length (nat_digits s)) + e \<le> 0"
      "pos_to_string s e = CHR ''0'' # CHR ''.'' # replicate (nat (- (int (length (nat_digits s)) + e))) (CHR ''0'') @ nat_digits s"
  | (exp1) "length (nat_digits s) = 1"
      "pos_to_string s e = nat_digits s @ exp_suffix (int (length (nat_digits s)) + e - 1)"
  | (expn) "length (nat_digits s) \<noteq> 1"
      "pos_to_string s e = hd (nat_digits s) # CHR ''.'' # tl (nat_digits s) @ exp_suffix (int (length (nat_digits s)) + e - 1)"
proof -
  let ?ds = "nat_digits s"
  let ?k = "int (length ?ds)"
  let ?n = "?k + e"
  note unf = pos_to_string_def Let_def
  show ?thesis
  proof (cases "?k \<le> ?n \<and> ?n \<le> 21")
    case True
    then have "pos_to_string s e = ?ds @ replicate (nat (?n - ?k)) (CHR ''0'')"
      unfolding unf by (simp only: True [THEN eqTrueI] if_True)
    with True show ?thesis by (intro plain) simp_all
  next
    case A: False
    show ?thesis
    proof (cases "0 < ?n \<and> ?n \<le> 21")
      case True
      then have "pos_to_string s e = take (nat ?n) ?ds @ CHR ''.'' # drop (nat ?n) ?ds"
        unfolding unf by (simp only: A True [THEN eqTrueI] if_True if_False)
      with A True show ?thesis by (intro point) auto
    next
      case B: False
      show ?thesis
      proof (cases "-6 < ?n \<and> ?n \<le> 0")
        case True
        then have "pos_to_string s e = CHR ''0'' # CHR ''.'' # replicate (nat (- ?n)) (CHR ''0'') @ ?ds"
          unfolding unf by (simp only: A B True [THEN eqTrueI] if_True if_False)
        with True show ?thesis by (intro zeros) simp_all
      next
        case C: False
        show ?thesis
        proof (cases "?k = 1")
          case True
          then have "pos_to_string s e = ?ds @ exp_suffix (?n - 1)"
            unfolding unf by (simp only: A B C True [THEN eqTrueI] if_True if_False)
          with True show ?thesis by (intro exp1) simp_all
        next
          case False
          then have "pos_to_string s e = hd ?ds # CHR ''.'' # tl ?ds @ exp_suffix (?n - 1)"
            unfolding unf by (simp only: A B C False if_True if_False append_Cons append_Nil simp_thms)
          with False show ?thesis by (intro expn) simp_all
        qed
      qed
    qed
  qed
qed

lemma nat_neg_mult_pow: "(m::int) < 0 \<Longrightarrow> i = m * 10 ^ nat e \<Longrightarrow> nat (- m) * 10 ^ nat e = nat (- i)"
proof -
  assume a: "m < 0" "i = m * 10 ^ nat e"
  have "- i = (- m) * 10 ^ nat e" by (simp only: a(2) minus_mult_left)
  then have "nat (- i) = nat (- m) * nat (10 ^ nat e)"
    using a(1) by (simp only:) (rule nat_mult_distrib, simp)
  then show ?thesis by (simp add: nat_power_eq)
qed

lemma nat_pos_mult_pow: "(0::int) < m \<Longrightarrow> i = m * 10 ^ nat e \<Longrightarrow> nat m * 10 ^ nat e = nat i"
  by (simp add: nat_mult_distrib nat_power_eq)

lemma number_to_string_int_num:
  assumes "\<bar>i\<bar> < 10 ^ 21"
  shows "number_to_string (int_num i) = int_string i"
proof (cases "i = 0")
  case True
  then show ?thesis by (simp add: int_string_def nat_digits.simps [of 0])
next
  case False
  obtain m e where me: "dec_norm i 0 = (m, e)" by (cases "dec_norm i 0")
  with False have e: "0 \<le> e" and i: "i = m * 10 ^ nat e"
    using dec_norm_value [OF me False] by simp_all
  have num: "int_num i = Fin m e" by (simp add: mk_num_def me)
  have canon: "dec_norm m e = (m, e)"
    by (rule dec_norm_canonical_id) (rule dec_norm_canonical [OF me])
  have m0: "m \<noteq> 0" using False i by auto
  show ?thesis
  proof (cases "m < 0")
    case True
    have eq: "nat (- m) * 10 ^ nat e = nat (- i)" using nat_neg_mult_pow [OF True i] .
    have "nat (- i) < 10 ^ 21" using assms False by (simp add: nat_less_iff)
    then have "pos_to_string (nat (- m)) e = nat_digits (nat (- i))"
      using True e eq pos_to_string_int [of "nat (- m)" e] by simp
    moreover have "i < 0" using True i by (simp add: mult_neg_pos)
    ultimately show ?thesis
      using True by (simp add: num canon int_string_def)
  next
    case False
    with m0 have mpos: "0 < m" by simp
    have eq: "nat m * 10 ^ nat e = nat i" using nat_pos_mult_pow [OF mpos i] .
    have "nat i < 10 ^ 21" using assms \<open>i \<noteq> 0\<close> by (simp add: nat_less_iff)
    then have "pos_to_string (nat m) e = nat_digits (nat i)"
      using mpos e eq pos_to_string_int [of "nat m" e] by simp
    moreover have "\<not> i < 0" using mpos i by (simp add: not_less)
    ultimately show ?thesis
      using False m0 by (simp add: num canon int_string_def)
  qed
qed

lemma dec_norm_pow10: "dec_norm (10 ^ k) e = (1, e + int k)"
proof (induction k arbitrary: e)
  case 0
  then show ?case by (simp add: dec_norm.simps [of 1 e])
next
  case (Suc k)
  have "dec_norm (10 ^ Suc k) e = dec_norm (10 ^ k) (e + 1)"
    by (subst dec_norm.simps) simp
  then show ?case using Suc.IH [of "e + 1"] by simp
qed

lemma number_to_string_pow10:
  assumes "21 \<le> k"
  shows "number_to_string (int_num (10 ^ k)) = CHR ''1'' # CHR ''e'' # CHR ''+'' # nat_digits k"
proof -
  have "nat_digits 1 = [CHR ''1'']" by code_simp
  with assms show ?thesis
    by (simp add: mk_num_def dec_norm_pow10 dec_norm.simps [of 1 "int k"] pos_to_string_def exp_suffix_def)
qed

end
