(* ===== verification/JsNumber.thy ===== *)
theory JsNumber
  imports JsValue
begin

text \<open>
  The global functions \<open>parseInt\<close> and \<open>parseFloat\<close> of ECMAScript (19.2.5 and
  19.2.4), which \<open>getMedals\<close> applies to \<open>MedalID\<close>, \<open>ModeOrder\<close>, \<open>Ordering\<close>
  (\<open>parseInt\<close>) and \<open>Rarity\<close> (\<open>parseFloat\<close>). Both convert their argument with
  \<open>ToString\<close>, skip leading white space and read the longest prefix of the
  string that has the form of a number; when there is none the result is \<open>NaN\<close>.
  \<open>parseInt\<close> without a radix reads decimal digits, or hexadecimal ones after a
  \<open>0x\<close>/\<open>0X\<close> prefix. Strings are 8-bit character lists, so white space is the
  ASCII white space and line terminators; the non-ASCII ones are not modelled.
\<close>

definition js_ws :: "char \<Rightarrow> bool" where
  "js_ws c \<longleftrightarrow> of_char c \<in> {9, 10, 11, 12, 13, 32 :: nat}"

definition trim_start :: "string \<Rightarrow> string" where
  "trim_start s = dropWhile js_ws s"

text \<open>An optional sign: \<open>-\<close> gives \<open>-1\<close>, \<open>+\<close> or nothing gives 1.\<close>

definition sign_prefix :: "string \<Rightarrow> int \<times> string" where
  "sign_prefix s =
     (case s of
        c # r \<Rightarrow> if c = CHR ''-'' then (-1, r) else if c = CHR ''+'' then (1, r) else (1, s)
      | [] \<Rightarrow> (1, []))"

text \<open>\<open>parseInt(string)\<close> with the radix argument absent (steps 1 to 16 of 19.2.5).\<close>

definition parse_int :: "string \<Rightarrow> jsnum" where
  "parse_int input =
     (let (sign, s1) = sign_prefix (trim_start input);
          (radix, s2) = (if take 2 s1 = ''0x'' \<or> take 2 s1 = ''0X'' then (16, drop 2 s1) else (10, s1));
          z = takeWhile (is_radix_digit radix) s2
      in if z = [] then NaN else int_num (sign * int (digits_value radix z)))"

definition js_parseInt :: "jsv \<Rightarrow> jsnum" where
  "js_parseInt v = parse_int (to_string v)"

text \<open>
  The exponent part of a \<open>StrDecimalLiteral\<close>: \<open>e\<close> or \<open>E\<close>, an optional sign,
  decimal digits. When no digit follows, the exponent is not part of the longest
  numeric prefix, which is then the one without it: exponent 0.
\<close>

definition parse_exponent :: "string \<Rightarrow> int" where
  "parse_exponent s =
     (case s of
        c # r \<Rightarrow>
          if c = CHR ''e'' \<or> c = CHR ''E'' then
            (case sign_prefix r of (sg, r') \<Rightarrow>
               let ds = takeWhile is_dec_digit r' in
               if ds = [] then 0 else sg * int (digits_value 10 ds))
          else 0
      | [] \<Rightarrow> 0)"

text \<open>
  The longest prefix that is a \<open>StrUnsignedDecimalLiteral\<close>: \<open>Infinity\<close>, or
  digits with an optional fraction and exponent, at least one digit before or
  after the point.
\<close>

definition parse_unsigned_decimal :: "string \<Rightarrow> jsnum option" where
  "parse_unsigned_decimal s =
     (if take 8 s = ''Infinity'' then Some PosInf
      else
        let ip = takeWhile is_dec_digit s; r1 = dropWhile is_dec_digit s;
            (fp, r2) = (case r1 of
                          c # r \<Rightarrow> if c = CHR ''.'' then (takeWhile is_dec_digit r, dropWhile is_dec_digit r)
                                   else ([], r1)
                        | [] \<Rightarrow> ([], []))
        in if ip = [] \<and> fp = [] then None
           else Some (mk_num (int (digits_value 10 (ip @ fp))) (parse_exponent r2 - int (length fp))))"

fun neg_num :: "jsnum \<Rightarrow> jsnum" where
  "neg_num NaN = NaN"
| "neg_num PosInf = NegInf"
| "neg_num NegInf = PosInf"
| "neg_num (Fin m e) = Fin (- m) e"

text \<open>\<open>parseFloat(string)\<close> (19.2.4).\<close>

definition parse_float :: "string \<Rightarrow> jsnum" where
  "parse_float input =
     (case sign_prefix (trim_start input) of (sg, s) \<Rightarrow>
        (case parse_unsigned_decimal s of
           None \<Rightarrow> NaN
         | Some n \<Rightarrow> if sg < 0 then neg_num n else n))"

definition js_parseFloat :: "jsv \<Rightarrow> jsnum" where
  "js_parseFloat v = parse_float (to_string v)"

section \<open>Lemmas\<close>

lemma parse_int_cases: "parse_int s = NaN \<or> (\<exists>k. parse_int s = int_num k)"
  by (auto simp: parse_int_def Let_def split: prod.splits)

lemma dec_digit_not_ws: "is_dec_digit c \<Longrightarrow> \<not> js_ws c"
  by (auto simp: is_radix_digit_def char_digit_def js_ws_def Let_def split: if_splits)

lemma dec_digit_not_sign: "is_dec_digit c \<Longrightarrow> c \<noteq> CHR ''-'' \<and> c \<noteq> CHR ''+''"
  by (auto simp: is_radix_digit_def char_digit_def)

lemma digits_no_hex_prefix:
  "\<forall>c \<in> set s. is_dec_digit c \<Longrightarrow> take 2 s \<noteq> ''0x'' \<and> take 2 s \<noteq> ''0X''"
proof -
  assume ds: "\<forall>c \<in> set s. is_dec_digit c"
  have x: "\<not> is_dec_digit (CHR ''x'')" "\<not> is_dec_digit (CHR ''X'')"
    by (simp_all add: is_radix_digit_def char_digit_def)
  show ?thesis
  proof (intro conjI notI)
    assume "take 2 s = ''0x''"
    then have "CHR ''x'' \<in> set s" by (metis in_set_takeD list.set_intros)
    with ds x show False by blast
  next
    assume "take 2 s = ''0X''"
    then have "CHR ''X'' \<in> set s" by (metis in_set_takeD list.set_intros)
    with ds x show False by blast
  qed
qed

text \<open>\<open>parseInt\<close> reads back the decimal notation of every integer.\<close>

lemma parse_int_int_string: "parse_int (int_string i) = int_num i"
proof -
  let ?ds = "nat_digits (nat \<bar>i\<bar>)"
  have dig: "\<forall>c \<in> set ?ds. is_dec_digit c" by simp
  obtain c r where cr: "?ds = c # r" by (cases ?ds) auto
  have c: "is_dec_digit c" using dig cr by simp
  have tw: "takeWhile is_dec_digit ?ds = ?ds" using dig by (simp add: takeWhile_eq_all_conv)
  have val: "digits_value 10 ?ds = nat \<bar>i\<bar>" by simp
  have ne: "?ds \<noteq> []" by simp
  have hex: "take 2 ?ds \<noteq> ''0x'' \<and> take 2 ?ds \<noteq> ''0X''" using digits_no_hex_prefix [OF dig] .
  show ?thesis
  proof (cases "i < 0")
    case True
    have "int_string i = CHR ''-'' # ?ds" using True by (simp add: int_string_def)
    moreover have "\<not> js_ws (CHR ''-'')" by (simp add: js_ws_def)
    ultimately have "sign_prefix (trim_start (int_string i)) = (-1, ?ds)"
      by (simp add: trim_start_def sign_prefix_def)
    moreover have "takeWhile is_dec_digit (nat_digits (nat (- i))) = nat_digits (nat (- i))"
      using tw True by simp
    ultimately show ?thesis
      using True hex by (simp add: parse_int_def Let_def del: takeWhile_eq_all_conv)
  next
    case False
    have "int_string i = c # r" using False cr by (simp add: int_string_def)
    moreover have "\<not> js_ws c" using c by (rule dec_digit_not_ws)
    moreover have "c \<noteq> CHR ''-'' \<and> c \<noteq> CHR ''+''" using c by (rule dec_digit_not_sign)
    ultimately have "sign_prefix (trim_start (int_string i)) = (1, ?ds)"
      using cr by (simp add: trim_start_def sign_prefix_def)
    moreover have "takeWhile is_dec_digit (nat_digits (nat i)) = nat_digits (nat i)"
      using tw False by simp
    ultimately show ?thesis
      using False hex by (simp add: parse_int_def Let_def del: takeWhile_eq_all_conv)
  qed
qed

lemma dec_norm_times10: "b \<noteq> 0 \<Longrightarrow> dec_norm (b * 10) e = dec_norm b (e + 1)"
  by (simp add: dec_norm.simps [of "b * 10" e])

lemma dec_norm_shift: "a \<noteq> 0 \<Longrightarrow> dec_norm (a * 10 ^ j) e = dec_norm a (e + int j)"
proof (induction j arbitrary: e)
  case 0
  then show ?case by simp
next
  case (Suc j)
  have "dec_norm (a * 10 ^ Suc j) e = dec_norm (a * 10 ^ j * 10) e" by (simp only: power_Suc2 mult.assoc)
  also have "\<dots> = dec_norm (a * 10 ^ j) (e + 1)" using Suc.prems by (simp add: dec_norm_times10)
  also have "\<dots> = dec_norm a (e + int (Suc j))" using Suc by (simp add: add.assoc)
  finally show ?case .
qed

lemma takeWhile_nat_digits: "takeWhile is_dec_digit (nat_digits n) = nat_digits n"
  by (simp add: takeWhile_eq_all_conv)

lemma mk_num_shift: "a \<noteq> 0 \<Longrightarrow> mk_num (a * 10 ^ j) e = mk_num a (e + int j)"
  by (simp add: mk_num_def dec_norm_shift)

lemma digit_not_special [simp]:
  "is_dec_digit c \<Longrightarrow> c \<noteq> CHR ''.'' \<and> c \<noteq> CHR ''e'' \<and> c \<noteq> CHR ''E'' \<and> c \<noteq> CHR ''I''"
  by (auto simp: is_radix_digit_def char_digit_def)

lemma exp_suffix_start: "exp_suffix x \<noteq> [] \<and> \<not> is_dec_digit (hd (exp_suffix x)) \<and> hd (exp_suffix x) \<noteq> CHR ''.''"
  by (simp add: exp_suffix_def is_radix_digit_def char_digit_def)

lemma parse_exponent_suffix [simp]: "parse_exponent (exp_suffix x) = x"
  by (simp add: parse_exponent_def exp_suffix_def sign_prefix_def takeWhile_nat_digits del: takeWhile_eq_all_conv)

lemma no_digit_start:
  "ex = [] \<or> \<not> is_dec_digit (hd ex) \<Longrightarrow> takeWhile is_dec_digit ex = [] \<and> dropWhile is_dec_digit ex = ex"
  by (cases ex) auto

lemma pud_int:
  assumes "ip \<noteq> []" "\<forall>c \<in> set ip. is_dec_digit c" "ex = [] \<or> \<not> is_dec_digit (hd ex) \<and> hd ex \<noteq> CHR ''.''"
  shows "parse_unsigned_decimal (ip @ ex) = Some (mk_num (int (digits_value 10 ip)) (parse_exponent ex))"
proof -
  obtain c r where cr: "ip = c # r" using assms(1) by (cases ip) auto
  have c: "is_dec_digit c" using assms(2) cr by simp
  have ex: "takeWhile is_dec_digit ex = []" "dropWhile is_dec_digit ex = ex"
    using no_digit_start [of ex] assms(3) by auto
  have tw: "takeWhile is_dec_digit (ip @ ex) = ip" and dw: "dropWhile is_dec_digit (ip @ ex) = ex"
    using assms(2) ex by simp_all
  have inf: "take 8 (ip @ ex) \<noteq> ''Infinity''" using c cr by simp
  show ?thesis
  proof (cases ex)
    case Nil
    have t1: "takeWhile is_dec_digit ip = ip" and d1: "dropWhile is_dec_digit ip = []" using tw dw Nil by simp_all
    show ?thesis using inf Nil assms(1) by (simp add: parse_unsigned_decimal_def parse_exponent_def t1 d1)
  next
    case (Cons x xs)
    then have "x \<noteq> CHR ''.''" using assms(3) by simp
    then show ?thesis using tw dw inf Cons assms(1) by (simp add: parse_unsigned_decimal_def)
  qed
qed

lemma pud_point:
  assumes "ip \<noteq> []" "\<forall>c \<in> set ip. is_dec_digit c" "\<forall>c \<in> set fp. is_dec_digit c"
      and "ex = [] \<or> \<not> is_dec_digit (hd ex)"
  shows "parse_unsigned_decimal (ip @ CHR ''.'' # fp @ ex)
         = Some (mk_num (int (digits_value 10 (ip @ fp))) (parse_exponent ex - int (length fp)))"
proof -
  obtain c r where cr: "ip = c # r" using assms(1) by (cases ip) auto
  have c: "is_dec_digit c" using assms(2) cr by simp
  have ex: "takeWhile is_dec_digit ex = []" "dropWhile is_dec_digit ex = ex"
    using no_digit_start [of ex] assms(4) by auto
  have dot: "\<not> is_dec_digit (CHR ''.'')" by (simp add: is_radix_digit_def char_digit_def)
  have tw: "takeWhile is_dec_digit (ip @ CHR ''.'' # fp @ ex) = ip"
   and dw: "dropWhile is_dec_digit (ip @ CHR ''.'' # fp @ ex) = CHR ''.'' # fp @ ex"
    using assms(2) dot by simp_all
  have tw2: "takeWhile is_dec_digit (fp @ ex) = fp" and dw2: "dropWhile is_dec_digit (fp @ ex) = ex"
    using assms(3) ex by simp_all
  have inf: "take 8 (ip @ CHR ''.'' # fp @ ex) \<noteq> ''Infinity''" using c cr by simp
  show ?thesis using tw dw tw2 dw2 inf assms(1)
    by (simp add: parse_unsigned_decimal_def del: takeWhile_append dropWhile_append)
qed

lemma digits_value_trailing_zeros:
  "digits_value 10 (xs @ replicate j (CHR ''0'')) = digits_value 10 xs * 10 ^ j"
proof -
  have "foldl (\<lambda>acc c. acc * 10 + char_digit c) a (replicate j (CHR ''0'')) = a * 10 ^ j" for a
    by (induction j arbitrary: a) (simp_all add: mult.commute mult.left_commute)
  then show ?thesis by simp
qed

lemma pud_pos_to_string:
  assumes "0 < s"
  shows "parse_unsigned_decimal (pos_to_string s e) = Some (mk_num (int s) e)"
proof -
  let ?ds = "nat_digits s"
  let ?n = "int (length ?ds) + e"
  have d: "\<forall>c \<in> set ?ds. is_dec_digit c" by simp
  have z: "is_dec_digit (CHR ''0'')" by (simp add: is_radix_digit_def)
  have ne: "?ds \<noteq> []" by simp
  have s0: "int s \<noteq> 0" using assms by simp
  show ?thesis
  proof (cases s e rule: pos_to_string_cases)
    case plain
    have "parse_unsigned_decimal ((?ds @ replicate (nat e) (CHR ''0'')) @ [])
          = Some (mk_num (int (digits_value 10 (?ds @ replicate (nat e) (CHR ''0'')))) (parse_exponent []))"
      using d z ne by (intro pud_int) auto
    moreover have "mk_num (int (digits_value 10 (?ds @ replicate (nat e) (CHR ''0'')))) (parse_exponent []) = mk_num (int s) e"
      using plain s0 by (simp add: digits_value_trailing_zeros mk_num_shift parse_exponent_def del: digits_value_append)
    ultimately show ?thesis using plain by simp
  next
    case point
    have "parse_unsigned_decimal (take (nat ?n) ?ds @ CHR ''.'' # drop (nat ?n) ?ds @ [])
          = Some (mk_num (int (digits_value 10 (take (nat ?n) ?ds @ drop (nat ?n) ?ds)))
                   (parse_exponent [] - int (length (drop (nat ?n) ?ds))))"
      using d point by (intro pud_point) (auto dest: in_set_takeD in_set_dropD)
    moreover have "parse_exponent [] - int (length (drop (nat ?n) ?ds)) = e"
      using point by (simp add: parse_exponent_def)
    moreover have "digits_value 10 (take (nat ?n) ?ds @ drop (nat ?n) ?ds) = s"
      by (simp only: append_take_drop_id digits_value_nat_digits)
    ultimately show ?thesis using point by (simp only: append_Nil2)
  next
    case zeros
    have "parse_unsigned_decimal ([CHR ''0''] @ CHR ''.'' # (replicate (nat (- ?n)) (CHR ''0'') @ ?ds) @ [])
          = Some (mk_num (int (digits_value 10 ([CHR ''0''] @ replicate (nat (- ?n)) (CHR ''0'') @ ?ds)))
                   (parse_exponent [] - int (length (replicate (nat (- ?n)) (CHR ''0'') @ ?ds))))"
      using d z by (intro pud_point) auto
    moreover have "digits_value 10 (CHR ''0'' # replicate (nat (- ?n)) (CHR ''0'') @ ?ds) = s"
      using digits_value_zeros [of 10 "Suc (nat (- ?n))" ?ds] by (simp del: digits_value_append)
    ultimately show ?thesis using zeros by (simp add: parse_exponent_def del: digits_value_append)
  next
    case exp1
    have "parse_unsigned_decimal (?ds @ exp_suffix (?n - 1))
          = Some (mk_num (int (digits_value 10 ?ds)) (parse_exponent (exp_suffix (?n - 1))))"
      using d ne exp_suffix_start [of "?n - 1"] by (intro pud_int) auto
    then show ?thesis using exp1 by simp
  next
    case expn
    have "parse_unsigned_decimal ([hd ?ds] @ CHR ''.'' # tl ?ds @ exp_suffix (?n - 1))
          = Some (mk_num (int (digits_value 10 ([hd ?ds] @ tl ?ds)))
                   (parse_exponent (exp_suffix (?n - 1)) - int (length (tl ?ds))))"
    proof (intro pud_point)
      show "\<forall>c \<in> set [hd ?ds]. is_dec_digit c" using nat_digits_dec [OF hd_in_set [OF ne]] by simp
      show "\<forall>c \<in> set (tl ?ds). is_dec_digit c" using ne by (metis list.set_sel(2) nat_digits_dec)
    qed (use exp_suffix_start [of "?n - 1"] in simp_all)
    moreover have "[hd ?ds] @ tl ?ds = ?ds" using ne by simp
    moreover have "1 \<le> length ?ds" using ne by (cases ?ds) auto
    then have "int (length (tl ?ds)) = int (length ?ds) - 1" by (simp add: of_nat_diff)
    ultimately show ?thesis using expn by simp
  qed
qed

lemma pos_to_string_hd: "pos_to_string s e \<noteq> [] \<and> is_dec_digit (hd (pos_to_string s e))"
proof -
  have h: "is_dec_digit (hd (nat_digits s))" by (rule nat_digits_dec [OF hd_in_set [OF nat_digits_ne]])
  have z: "is_dec_digit (CHR ''0'')" by (simp add: is_radix_digit_def)
  show ?thesis using h z by (auto simp: pos_to_string_def Let_def hd_append hd_take)
qed

lemma parse_float_digit_start:
  "is_dec_digit (hd x) \<Longrightarrow> x \<noteq> [] \<Longrightarrow>
   parse_float x = (case parse_unsigned_decimal x of None \<Rightarrow> NaN | Some n \<Rightarrow> n)"
  by (cases x) (auto simp: parse_float_def trim_start_def sign_prefix_def dest: dec_digit_not_ws dec_digit_not_sign split: option.splits)

lemma parse_float_pos_to_string: "0 < s \<Longrightarrow> parse_float (pos_to_string s e) = mk_num (int s) e"
  using pos_to_string_hd [of s e] by (simp add: parse_float_digit_start pud_pos_to_string)

lemma parse_float_neg_pos_to_string:
  "0 < s \<Longrightarrow> parse_float (CHR ''-'' # pos_to_string s e) = neg_num (mk_num (int s) e)"
proof -
  assume s: "0 < s"
  obtain c r where cr: "pos_to_string s e = c # r" and c: "is_dec_digit c"
    using pos_to_string_hd [of s e] by (cases "pos_to_string s e") auto
  have "\<not> js_ws (CHR ''-'')" by (simp add: js_ws_def)
  then have "sign_prefix (trim_start (CHR ''-'' # pos_to_string s e)) = (-1, pos_to_string s e)"
    by (simp add: trim_start_def sign_prefix_def)
  then show ?thesis using s by (simp add: parse_float_def pud_pos_to_string)
qed

lemma canonical_uminus: "canonical (Fin m e) \<Longrightarrow> canonical (Fin (- m) e)"
  by (auto simp: canonical_def simp flip: dvd_eq_mod_eq_0)

lemma parse_float_number_to_string:
  "parse_float (number_to_string n) = (case n of Fin m e \<Rightarrow> mk_num m e | _ \<Rightarrow> n)"
proof (cases n)
  case NaN
  have "parse_float ''NaN'' = NaN" by code_simp
  then show ?thesis using NaN by simp
next
  case PosInf
  have "parse_float ''Infinity'' = PosInf" by code_simp
  then show ?thesis using PosInf by simp
next
  case NegInf
  have "parse_float ''-Infinity'' = NegInf" by code_simp
  then show ?thesis using NegInf by simp
next
  case (Fin m e)
  obtain m' e' where dn: "dec_norm m e = (m', e')" by fastforce
  have mk: "mk_num m e = Fin m' e'" using dn by (simp add: mk_num_def)
  have can: "canonical (Fin m' e')" using dn by (rule dec_norm_canonical)
  consider "m' = 0" | "0 < m'" | "m' < 0" by linarith
  then show ?thesis
  proof cases
    case 1
    then have "m = 0" using dn dec_norm_zero_iff [of m e] by simp
    moreover have "parse_float ''0'' = Fin 0 0" by code_simp
    ultimately show ?thesis using Fin dn 1 by simp
  next
    case 2
    then have "parse_float (pos_to_string (nat m') e') = Fin m' e'"
      using can by (simp add: parse_float_pos_to_string mk_num_Fin)
    then show ?thesis using Fin dn mk 2 by simp
  next
    case 3
    then have "parse_float (CHR ''-'' # pos_to_string (nat (- m')) e') = Fin m' e'"
      using canonical_uminus [OF can] by (simp add: parse_float_neg_pos_to_string mk_num_Fin)
    then show ?thesis using Fin dn mk 3 by simp
  qed
qed

section \<open>Properties of parseInt\<close>

text \<open>
  C6. Round trip: \<open>parseInt\<close> of a numeric \<open>MedalID\<close>, \<open>ModeOrder\<close> or
  \<open>Ordering\<close> returns the integer itself whenever its magnitude is below
  \<open>10^21\<close>, where \<open>Number::toString\<close> writes it in plain decimal notation.
\<close>

theorem parse_int_roundtrip:
  assumes "\<bar>i\<bar> < 10 ^ 21"
  shows "js_parseInt (VNum (int_num i)) = int_num i"
  using assms by (simp add: js_parseInt_def number_to_string_int_num parse_int_int_string)

theorem parse_int_roundtrip_witness: "js_parseInt (VNum (int_num (-4096))) = int_num (-4096)"
  using parse_int_roundtrip [of "-4096"] by simp

text \<open>
  C7. Bound: from \<open>10^21\<close> on, \<open>Number::toString\<close> switches to exponent notation
  and \<open>parseInt\<close> stops at the \<open>e\<close>: a numeric field \<open>10^k\<close> with \<open>k \<ge> 21\<close>
  is read as 1, so the bound of the round trip is exact.
\<close>

theorem parse_int_exponent_bound:
  assumes "21 \<le> k"
  shows "js_parseInt (VNum (int_num (10 ^ k))) = int_num 1"
proof -
  have ws: "\<not> js_ws (CHR ''1'')" by (simp add: js_ws_def)
  have d: "is_dec_digit (CHR ''1'')" "\<not> is_dec_digit (CHR ''e'')"
    by (simp_all add: is_radix_digit_def char_digit_def)
  show ?thesis
    using assms ws d
    by (simp add: js_parseInt_def number_to_string_pow10 parse_int_def trim_start_def sign_prefix_def
                  char_digit_def digits_value_def Let_def)
qed

theorem parse_int_exponent_bound_witness: "js_parseInt (VNum (int_num (10 ^ 21))) = int_num 1"
  using parse_int_exponent_bound [of 21] by simp

section \<open>Properties of parseFloat\<close>

text \<open>
  C16. Round trip: \<open>parseFloat\<close> of a numeric \<open>Rarity\<close> returns the number
  itself, whatever notation \<open>Number::toString\<close> chose for it (plain digits,
  a decimal point, leading zeros or an exponent), and \<open>NaN\<close>, \<open>Infinity\<close> and
  \<open>-Infinity\<close> come back as themselves.
\<close>

theorem parse_float_roundtrip:
  "js_parseFloat (VNum n) = (case n of Fin m e \<Rightarrow> mk_num m e | _ \<Rightarrow> n)"
  by (simp add: js_parseFloat_def parse_float_number_to_string)

end
