(* ===== verification/JsDate.thy ===== *)
theory JsDate
  imports JsValue
begin

text \<open>
  Time values and the date-time string format of ECMAScript (21.4.1), which
  \<open>new Date(v)\<close> in \<open>getMedals\<close> (lines 107 and 109) relies on: the calendar
  arithmetic (\<open>MakeDay\<close>, \<open>MakeTime\<close>, \<open>TimeClip\<close>) and the Date Time String
  Format (21.4.1.32) as a reference grammar,
  \<open>(YYYY|+YYYYYY|-YYYYYY)[-MM[-DD]][THH:mm[:ss[.sss]][Z|+HH:mm|-HH:mm]]\<close>,
  where a date-only form is UTC, a date-time form without offset is local time,
  and the year \<open>-000000\<close> is refused. The day may be 01 to 31 in every month and
  overflows into the next month (\<open>MakeDay\<close>). What V8 does with a string, this
  format and every other shape, is the theory \<open>DateParser\<close>.

  Local time is a fixed offset \<open>tz\<close> in milliseconds east of UTC (ECMAScript's
  \<open>LocalTZA\<close> with daylight saving time left out): it is a parameter of every
  definition that depends on it.
\<close>

datatype jsdate = InvalidDate | TimeVal int

datatype zone = ZUtc | ZLocal | ZOffset int

type_synonym 'a parser = "string \<Rightarrow> ('a \<times> string) option"

section \<open>Calendar arithmetic (ECMAScript 21.4.1)\<close>

definition ms_per_day :: int where
  "ms_per_day = 86400000"

definition day_from_year :: "int \<Rightarrow> int" where
  "day_from_year y = 365 * (y - 1970) + (y - 1969) div 4 - (y - 1901) div 100 + (y - 1601) div 400"

definition leap_year :: "int \<Rightarrow> bool" where
  "leap_year y \<longleftrightarrow> 4 dvd y \<and> (\<not> 100 dvd y \<or> 400 dvd y)"

text \<open>Days of the year before month \<open>mo\<close> (1 to 12).\<close>

definition month_start :: "int \<Rightarrow> nat \<Rightarrow> int" where
  "month_start y mo =
     (if mo < 1 \<or> 12 < mo then 0
      else [0, 31, 59, 90, 120, 151, 181, 212, 243, 273, 304, 334] ! (mo - 1)
           + (if leap_year y \<and> 3 \<le> mo then 1 else 0))"

definition make_day :: "int \<Rightarrow> nat \<Rightarrow> nat \<Rightarrow> int" where
  "make_day y mo d = day_from_year y + month_start y mo + int d - 1"

definition make_time :: "nat \<Rightarrow> nat \<Rightarrow> nat \<Rightarrow> nat \<Rightarrow> int" where
  "make_time h mi s ms = ((int h * 60 + int mi) * 60 + int s) * 1000 + int ms"

definition time_clip :: "int \<Rightarrow> jsdate" where
  "time_clip t = (if \<bar>t\<bar> \<le> 8640000000000000 then TimeVal t else InvalidDate)"

section \<open>Parsing date strings\<close>

text \<open>A number token of exactly \<open>n\<close> digits (V8 reads the maximal run of digits).\<close>

definition fixed_num :: "nat \<Rightarrow> nat parser" where
  "fixed_num n s =
     (let ds = takeWhile is_dec_digit s in
      if length ds = n then Some (digits_value 10 ds, dropWhile is_dec_digit s) else None)"

definition ranged :: "nat \<Rightarrow> nat \<Rightarrow> nat \<Rightarrow> nat parser" where
  "ranged n lo hi s =
     (case fixed_num n s of
        Some (v, r) \<Rightarrow> if lo \<le> v \<and> v \<le> hi then Some (v, r) else None
      | None \<Rightarrow> None)"

definition skip_char :: "char \<Rightarrow> string \<Rightarrow> string option" where
  "skip_char c s = (case s of x # r \<Rightarrow> if x = c then Some r else None | [] \<Rightarrow> None)"

text \<open>An optional part introduced by character \<open>c\<close>; \<open>dflt\<close> when it is absent.\<close>

definition opt_part :: "char \<Rightarrow> 'a parser \<Rightarrow> 'a \<Rightarrow> 'a parser" where
  "opt_part c p dflt s = (case s of x # r \<Rightarrow> if x = c then p r else Some (dflt, s) | [] \<Rightarrow> Some (dflt, []))"

text \<open>The year: four digits, or a sign and six digits (\<open>-000000\<close> is refused).\<close>

definition parse_year :: "int parser" where
  "parse_year s =
     (case s of
        c # r \<Rightarrow>
          if c = CHR ''+'' then map_option (\<lambda>(v, r'). (int v, r')) (fixed_num 6 r)
          else if c = CHR ''-'' then
            (case fixed_num 6 r of Some (v, r') \<Rightarrow> if v = 0 then None else Some (- int v, r') | None \<Rightarrow> None)
          else map_option (\<lambda>(v, r'). (int v, r')) (fixed_num 4 s)
      | [] \<Rightarrow> None)"

definition parse_date_part :: "(int \<times> nat \<times> nat) parser" where
  "parse_date_part s = do {
     (y, r1) \<leftarrow> parse_year s;
     (md, r2) \<leftarrow> opt_part (CHR ''-'')
        (\<lambda>r. do {
           (mo, r') \<leftarrow> ranged 2 1 12 r;
           (d, r'') \<leftarrow> opt_part (CHR ''-'') (ranged 2 1 31) 1 r';
           Some ((mo, d), r'')
         }) (1, 1) r1;
     Some ((y, fst md, snd md), r2)
   }"

definition parse_clock :: "(nat \<times> nat \<times> nat \<times> nat) parser" where
  "parse_clock s = do {
     (h, r1) \<leftarrow> ranged 2 0 24 s;
     r2 \<leftarrow> skip_char (CHR '':'') r1;
     (mi, r3) \<leftarrow> ranged 2 0 59 r2;
     (sms, r4) \<leftarrow> opt_part (CHR '':'')
        (\<lambda>r. do {
           (sec, r') \<leftarrow> ranged 2 0 59 r;
           (ms, r'') \<leftarrow> opt_part (CHR ''.'') (fixed_num 3) 0 r';
           Some ((sec, ms), r'')
         }) (0, 0) r3;
     if h = 24 \<and> (mi \<noteq> 0 \<or> fst sms \<noteq> 0 \<or> snd sms \<noteq> 0) then None
     else Some ((h, mi, fst sms, snd sms), r4)
   }"

definition parse_offset :: "int parser" where
  "parse_offset s = do {
     (hh, r1) \<leftarrow> ranged 2 0 23 s;
     r2 \<leftarrow> skip_char (CHR '':'') r1;
     (mm, r3) \<leftarrow> ranged 2 0 59 r2;
     Some (int hh * 60 + int mm, r3)
   }"

definition parse_zone :: "zone parser" where
  "parse_zone s =
     (case s of
        c # r \<Rightarrow>
          if c = CHR ''Z'' then Some (ZUtc, r)
          else if c = CHR ''+'' then map_option (\<lambda>(m, r'). (ZOffset m, r')) (parse_offset r)
          else if c = CHR ''-'' then map_option (\<lambda>(m, r'). (ZOffset (- m), r')) (parse_offset r)
          else Some (ZLocal, s)
      | [] \<Rightarrow> Some (ZLocal, []))"

type_synonym date_fields = "(int \<times> nat \<times> nat) \<times> (nat \<times> nat \<times> nat \<times> nat) \<times> zone"

text \<open>A string of the format, read to its fields; \<open>None\<close> when the string is not of the format.\<close>

definition parse_date_string :: "string \<Rightarrow> date_fields option" where
  "parse_date_string s = do {
     (ymd, r) \<leftarrow> parse_date_part s;
     (case r of
        [] \<Rightarrow> Some (ymd, (0, 0, 0, 0), ZUtc)
      | c # r' \<Rightarrow>
          if c = CHR ''T'' then do {
            (clk, r2) \<leftarrow> parse_clock r';
            (z, r3) \<leftarrow> parse_zone r2;
            if r3 = [] then Some (ymd, clk, z) else None
          }
          else None)
   }"

text \<open>The UTC time value of parsed fields: local time is shifted by \<open>tz\<close>, an offset by itself.\<close>

fun fields_time :: "int \<Rightarrow> date_fields \<Rightarrow> int" where
  "fields_time tz ((y, mo, d), (h, mi, s, ms), z) =
     (let t = make_day y mo d * ms_per_day + make_time h mi s ms in
      case z of ZUtc \<Rightarrow> t | ZLocal \<Rightarrow> t - tz | ZOffset off \<Rightarrow> t - off * 60000)"

section \<open>The catalog's date formats\<close>

text \<open>
  The strings the catalog sends: \<open>YYYY-MM-DD\<close> (\<open>Date\<close>) and
  \<open>YYYY-MM-DD HH:mm:ss\<close> (\<open>FirstAchievedDate\<close>), each field zero-padded.
\<close>

definition iso_date :: "nat \<Rightarrow> nat \<Rightarrow> nat \<Rightarrow> string" where
  "iso_date y mo d = pad_digits 4 y @ CHR ''-'' # pad_digits 2 mo @ CHR ''-'' # pad_digits 2 d"

definition local_datetime :: "nat \<Rightarrow> nat \<Rightarrow> nat \<Rightarrow> nat \<Rightarrow> nat \<Rightarrow> nat \<Rightarrow> string" where
  "local_datetime y mo d h mi s =
     iso_date y mo d @ CHR '' '' # pad_digits 2 h @ CHR '':'' # pad_digits 2 mi @ CHR '':'' # pad_digits 2 s"

section \<open>Lemmas\<close>

lemma fixed_num_pad:
  assumes "v < 10 ^ n" "0 < n" "rest = [] \<or> \<not> is_dec_digit (hd rest)"
  shows "fixed_num n (pad_digits n v @ rest) = Some (v, rest)"
proof -
  have tw: "takeWhile is_dec_digit rest = []" and dw: "dropWhile is_dec_digit rest = rest"
    using assms(3) by (auto simp: takeWhile_eq_Nil_iff dropWhile_eq_self_iff)
  have "takeWhile is_dec_digit (pad_digits n v @ rest) = pad_digits n v"
    using tw pad_digits_dec by simp
  moreover have "dropWhile is_dec_digit (pad_digits n v @ rest) = rest"
    using dw pad_digits_dec by simp
  ultimately show ?thesis using assms(1,2) by (simp add: fixed_num_def pad_digits_length)
qed

lemma ranged_pad:
  assumes "v < 10 ^ n" "0 < n" "rest = [] \<or> \<not> is_dec_digit (hd rest)" "lo \<le> v" "v \<le> hi"
  shows "ranged n lo hi (pad_digits n v @ rest) = Some (v, rest)"
  using assms by (simp add: ranged_def fixed_num_pad)

lemma ranged_pad_Nil:
  "v < 10 ^ n \<Longrightarrow> 0 < n \<Longrightarrow> lo \<le> v \<Longrightarrow> v \<le> hi \<Longrightarrow> ranged n lo hi (pad_digits n v) = Some (v, [])"
  using ranged_pad [of v n "[]" lo hi] by simp

lemma sep_not_digit [simp]:
  "\<not> is_dec_digit (CHR ''-'')" "\<not> is_dec_digit (CHR '':'')" "\<not> is_dec_digit (CHR '' '')"
  "\<not> is_dec_digit (CHR ''+'')" "\<not> is_dec_digit (CHR ''.'')" "\<not> is_dec_digit (CHR ''T'')"
  "\<not> is_dec_digit (CHR ''Z'')"
  by (simp_all add: is_radix_digit_def char_digit_def)

text \<open>A four-digit year starts with a digit, so it is not an expanded one.\<close>

lemma parse_year_fixed4: "fixed_num 4 s = Some (v, r) \<Longrightarrow> parse_year s = Some (int v, r)"
  by (cases s) (auto simp: parse_year_def fixed_num_def)

lemma parse_iso_date:
  assumes "y < 10000" "1 \<le> mo" "mo \<le> 12" "1 \<le> d" "d \<le> 31"
      and "rest = [] \<or> \<not> is_dec_digit (hd rest)"
  shows "parse_date_part (iso_date y mo d @ rest) = Some ((int y, mo, d), rest)"
proof -
  have "parse_year (pad_digits 4 y @ CHR ''-'' # pad_digits 2 mo @ CHR ''-'' # pad_digits 2 d @ rest)
        = Some (int y, CHR ''-'' # pad_digits 2 mo @ CHR ''-'' # pad_digits 2 d @ rest)"
    using assms by (intro parse_year_fixed4) (simp add: fixed_num_pad)
  moreover have "ranged 2 1 12 (pad_digits 2 mo @ CHR ''-'' # pad_digits 2 d @ rest)
        = Some (mo, CHR ''-'' # pad_digits 2 d @ rest)"
    using assms by (simp add: ranged_pad)
  moreover have "ranged 2 1 31 (pad_digits 2 d @ rest) = Some (d, rest)"
    using assms by (simp add: ranged_pad)
  ultimately show ?thesis by (simp add: parse_date_part_def iso_date_def opt_part_def)
qed

lemma parse_date_string_iso_date:
  assumes "y < 10000" "1 \<le> mo" "mo \<le> 12" "1 \<le> d" "d \<le> 31"
  shows "parse_date_string (iso_date y mo d) = Some ((int y, mo, d), (0, 0, 0, 0), ZUtc)"
  using parse_iso_date [OF assms, of "[]"] by (simp add: parse_date_string_def)

lemma div_between:
  "lo \<le> a \<Longrightarrow> a \<le> hi \<Longrightarrow> 0 < (b :: int) \<Longrightarrow> lo div b \<le> a div b \<and> a div b \<le> hi div b"
  by (simp add: zdiv_mono1)

lemma day_from_year_bound: "0 \<le> y \<Longrightarrow> y < 10000 \<Longrightarrow> \<bar>day_from_year y\<bar> \<le> 2950000"
  using div_between [of "-1969" "y - 1969" 8031 4] div_between [of "-1901" "y - 1901" 8099 100]
        div_between [of "-1601" "y - 1601" 8399 400]
  unfolding day_from_year_def by simp

lemma month_start_bound: "0 \<le> month_start y mo \<and> month_start y mo \<le> 335"
proof (cases "mo < 1 \<or> 12 < mo")
  case True
  then show ?thesis by (simp add: month_start_def)
next
  case False
  let ?ms = "[0, 31, 59, 90, 120, 151, 181, 212, 243, 273, 304, 334] :: int list"
  have "?ms ! (mo - 1) \<in> set ?ms" using False by (intro nth_mem) auto
  then show ?thesis using False by (auto simp: month_start_def)
qed

lemma make_day_bound:
  "0 \<le> y \<Longrightarrow> y < 10000 \<Longrightarrow> d \<le> 31 \<Longrightarrow> \<bar>make_day y mo d\<bar> \<le> 2951000"
  using day_from_year_bound [of y] month_start_bound [of y mo] unfolding make_day_def by linarith

lemma time_clip_day:
  assumes "y < 10000" "d \<le> 31" "\<bar>t\<bar> \<le> 2 * ms_per_day"
  shows "time_clip (make_day (int y) mo d * ms_per_day + t) = TimeVal (make_day (int y) mo d * ms_per_day + t)"
proof -
  have "\<bar>make_day (int y) mo d\<bar> \<le> 2951000" using assms by (simp add: make_day_bound)
  then have "\<bar>make_day (int y) mo d * ms_per_day\<bar> \<le> 2951000 * ms_per_day"
    by (simp add: abs_mult ms_per_day_def)
  then show ?thesis using assms by (simp add: time_clip_def ms_per_day_def)
qed

lemma make_time_day: "h \<le> 23 \<Longrightarrow> mi \<le> 59 \<Longrightarrow> s \<le> 59 \<Longrightarrow> 0 \<le> make_time h mi s 0 \<and> make_time h mi s 0 < ms_per_day"
  by (simp add: make_time_def ms_per_day_def)

end
