(* ===== verification/DateParser.thy ===== *)
theory DateParser
  imports JsDate
begin

text \<open>
  \<open>new Date(v)\<close> as Node runs it (\<open>getMedals\<close>, lines 107 and 109): a string goes
  to V8's date parser (\<open>DateParser::Parse\<close>), which first tries the ES5 ISO format
  and hands whatever it cannot read to its legacy parser, compatible with Safari;
  the fields it composes become a time value (\<open>ParseDateTimeString\<close>). The parser
  is modelled as V8 writes it:
  \<^item> a tokenizer (\<open>DateStringTokenizer\<close>): numbers with their value (the first nine
    significant digits) and length, the symbols \<open>: - + . )\<close>, white space, words
    (runs of characters from \<open>A\<close> up, looked up by their first three letters in the
    keyword table of month names, AM/PM, zone names and \<open>T\<close>), parenthesised text
    and other characters as unknown tokens; a NUL character ends the input;
  \<^item> \<open>ParseES5DateTime\<close>: \<open>[+|-YYYYYY|YYYY][-MM[-DD]][THH:mm[:ss[.s+]][Z|+-HH:mm|+-HHmm]]\<close>;
    it either accepts the whole string, refuses it, or stops at the first token it
    cannot use and leaves it, with the date fields read so far, to the legacy loop;
  \<^item> the legacy loop, one token at a time, and the three composers it fills: the day
    (up to three numbers and a month name, ordered by V8's heuristics, two-digit
    years moved into 1950 to 2049), the time (up to four numbers, AM/PM) and the
    zone (a sign and an offset, or a zone name).
  Characters are the string's code units (one byte each); white space is the ASCII
  set and NBSP.

  The lemmas read the token list of each part of the ECMAScript format
  (\<open>es5_date_ref\<close>, \<open>es5_time_ref\<close>, \<open>es5_zone_ref\<close>) and compose them:
  \<open>v8_parse_ref\<close> shows that V8 composes the reference grammar's fields for every
  string of the format, and C30 that \<open>date_parse\<close> gives their time value. On the
  catalog's \<open>YYYY-MM-DD HH:mm:ss\<close> strings the ES5 part stops at the space and the
  legacy loop reads the time (\<open>v8_parse_local_datetime\<close>); C31 is its two-digit
  year rule.
\<close>

section \<open>Tokens\<close>

datatype kw_type = KInvalid | KMonth | KZone | KTimeSep | KAmPm

datatype dtoken =
    TNum nat nat
  | TSym char
  | TWs
  | TKw kw_type int nat
  | TUnknown

definition date_ws :: "char \<Rightarrow> bool" where
  "date_ws c \<longleftrightarrow> (of_char c :: nat) \<in> {9, 10, 11, 12, 13, 32, 160}"

text \<open>\<open>IsAsciiAlphaOrAbove() && !IsWhiteSpaceChar()\<close>: the characters of a word.\<close>

definition word_char :: "char \<Rightarrow> bool" where
  "word_char c \<longleftrightarrow> 65 \<le> (of_char c :: nat) \<and> (of_char c :: nat) \<noteq> 160"

text \<open>\<open>ReadUnsignedNumeral\<close>: leading zeros skipped, at most nine digits counted.\<close>

definition numeral_value :: "string \<Rightarrow> nat" where
  "numeral_value ds = digits_value 10 (take 9 (dropWhile (\<lambda>c. c = CHR ''0'') ds))"

text \<open>\<open>AsciiAlphaToLower\<close>: \<open>c | 0x20\<close>.\<close>

definition alpha_to_lower :: "char \<Rightarrow> char" where
  "alpha_to_lower c = (let k = of_char c :: nat in if (k div 32) mod 2 = 0 then char_of (k + 32) else c)"

definition kw_table :: "(string \<times> kw_type \<times> int) list" where
  "kw_table =
     [(''jan'', KMonth, 1), (''feb'', KMonth, 2), (''mar'', KMonth, 3), (''apr'', KMonth, 4),
      (''may'', KMonth, 5), (''jun'', KMonth, 6), (''jul'', KMonth, 7), (''aug'', KMonth, 8),
      (''sep'', KMonth, 9), (''oct'', KMonth, 10), (''nov'', KMonth, 11), (''dec'', KMonth, 12),
      (''am'', KAmPm, 0), (''pm'', KAmPm, 12),
      (''ut'', KZone, 0), (''utc'', KZone, 0), (''z'', KZone, 0), (''gmt'', KZone, 0),
      (''cdt'', KZone, -5), (''cst'', KZone, -6), (''edt'', KZone, -4), (''est'', KZone, -5),
      (''mdt'', KZone, -6), (''mst'', KZone, -7), (''pdt'', KZone, -7), (''pst'', KZone, -8),
      (''t'', KTimeSep, 0)]"

text \<open>\<open>KeywordTable::Lookup\<close>: the lower-case prefix of three; longer words only for months.\<close>

definition kw_lookup :: "string \<Rightarrow> kw_type \<times> int" where
  "kw_lookup w =
     (case find (\<lambda>(k, t, v). k = map alpha_to_lower (take 3 w) \<and> (length w \<le> 3 \<or> t = KMonth)) kw_table of
        Some (k, t, v) \<Rightarrow> (t, v)
      | None \<Rightarrow> (KInvalid, 0))"

text \<open>\<open>SkipParentheses\<close>, after the opening one: up to the matching \<open>)\<close> or the end.\<close>

fun skip_parens :: "nat \<Rightarrow> string \<Rightarrow> string" where
  "skip_parens 0 s = s"
| "skip_parens (Suc k) [] = []"
| "skip_parens (Suc k) (c # r) =
     (if c = CHR 0x00 then c # r
      else if c = CHR '')'' then skip_parens k r
      else if c = CHR ''('' then skip_parens (Suc (Suc k)) r
      else skip_parens (Suc k) r)"

function tokenize :: "string \<Rightarrow> dtoken list" where
  "tokenize [] = []"
| "tokenize (c # r) =
     (if c = CHR 0x00 then []
      else if is_dec_digit c then
        TNum (numeral_value (takeWhile is_dec_digit (c # r))) (length (takeWhile is_dec_digit (c # r)))
          # tokenize (dropWhile is_dec_digit (c # r))
      else if c \<in> set '':-+.)'' then TSym c # tokenize r
      else if word_char c then
        (case kw_lookup (takeWhile word_char (c # r)) of
           (t, v) \<Rightarrow> TKw t v (length (takeWhile word_char (c # r))) # tokenize (dropWhile word_char (c # r)))
      else if date_ws c then TWs # tokenize r
      else if c = CHR ''('' then TUnknown # tokenize (skip_parens 1 r)
      else TUnknown # tokenize r)"
  by pat_completeness auto
termination
proof (relation "measure length")
  have "\<And>k s. length (skip_parens k s) \<le> length s"
  proof -
    fix k s show "length (skip_parens k s) \<le> length s"
      by (induction k s rule: skip_parens.induct) (auto simp: le_SucI)
  qed
  then show "\<And>c r. (skip_parens 1 r, c # r) \<in> measure length"
    by (simp add: le_imp_less_Suc)
qed (auto simp: le_imp_less_Suc length_dropWhile_le)

section \<open>The composers\<close>

record day_comp =
  dcomps :: "int list"
  named_month :: "nat option"
  dc_iso :: bool

record time_comp =
  tcomps :: "nat list"
  hour_offset :: "nat option"

record tz_comp =
  tz_sign :: "int option"
  tz_hour :: "nat option"
  tz_minute :: "nat option"

definition day_add :: "int \<Rightarrow> day_comp \<Rightarrow> day_comp option" where
  "day_add n dc = (if length (dcomps dc) < 3 then Some (dc\<lparr>dcomps := dcomps dc @ [n]\<rparr>) else None)"

definition is_day :: "int \<Rightarrow> bool" where
  "is_day x \<longleftrightarrow> 1 \<le> x \<and> x \<le> 31"

text \<open>
  \<open>DayComposer::Write\<close>: missing components are 1; without a month name the order is
  year-month-day for an ISO date or when the first number cannot be a day, else
  month-day-year; outside ISO dates a year below 100 is moved into 1950 to 2049.
\<close>

definition day_write :: "day_comp \<Rightarrow> (int \<times> nat \<times> nat) option" where
  "day_write dc =
     (if dcomps dc = [] then None
      else
        let c = dcomps dc @ replicate (3 - length (dcomps dc)) 1;
            ymd = (case named_month dc of
                     None \<Rightarrow> if dc_iso dc \<or> \<not> is_day (c ! 0) then (c ! 0, c ! 1, c ! 2) else (c ! 2, c ! 0, c ! 1)
                   | Some nm \<Rightarrow> if \<not> is_day (c ! 0) then (c ! 0, int nm, c ! 1) else (c ! 1, int nm, c ! 0));
            y = fst ymd; m = fst (snd ymd); d = snd (snd ymd);
            y' = (if dc_iso dc then y else if 0 \<le> y \<and> y \<le> 49 then y + 2000
                  else if 50 \<le> y \<and> y \<le> 99 then y + 1900 else y)
        in if 1 \<le> m \<and> m \<le> 12 \<and> is_day d then Some (y', nat m, nat d) else None)"

definition time_add :: "nat \<Rightarrow> time_comp \<Rightarrow> time_comp option" where
  "time_add n tc = (if length (tcomps tc) < 4 then Some (tc\<lparr>tcomps := tcomps tc @ [n]\<rparr>) else None)"

text \<open>\<open>Add\<close> and \<open>AddFinal\<close> where V8 ignores their failure; \<open>AddFinal\<close> fills the rest with 0.\<close>

definition time_add_ign :: "nat \<Rightarrow> time_comp \<Rightarrow> time_comp" where
  "time_add_ign n tc = (case time_add n tc of Some tc' \<Rightarrow> tc' | None \<Rightarrow> tc)"

definition time_add_final :: "nat \<Rightarrow> time_comp \<Rightarrow> time_comp" where
  "time_add_final n tc =
     (case time_add n tc of
        Some tc' \<Rightarrow> tc'\<lparr>tcomps := tcomps tc' @ replicate (4 - length (tcomps tc')) 0\<rparr>
      | None \<Rightarrow> tc)"

definition time_expecting :: "nat \<Rightarrow> time_comp \<Rightarrow> bool" where
  "time_expecting n tc \<longleftrightarrow>
     (length (tcomps tc) = 1 \<and> n \<le> 59) \<or> (length (tcomps tc) = 2 \<and> n \<le> 59) \<or> (length (tcomps tc) = 3 \<and> n \<le> 999)"

text \<open>\<open>TimeComposer::Write\<close>: missing components are 0; AM/PM takes an hour up to 12.\<close>

definition time_write :: "time_comp \<Rightarrow> (nat \<times> nat \<times> nat \<times> nat) option" where
  "time_write tc =
     (let c = tcomps tc @ replicate (4 - length (tcomps tc)) 0 in
      case (case hour_offset tc of None \<Rightarrow> Some (c ! 0) | Some off \<Rightarrow> if c ! 0 \<le> 12 then Some (c ! 0 mod 12 + off) else None) of
        None \<Rightarrow> None
      | Some h \<Rightarrow>
          if (h \<le> 23 \<and> c ! 1 \<le> 59 \<and> c ! 2 \<le> 59 \<and> c ! 3 \<le> 999) \<or> (h = 24 \<and> c ! 1 = 0 \<and> c ! 2 = 0 \<and> c ! 3 = 0)
          then Some (h, c ! 1, c ! 2, c ! 3) else None)"

definition tz_none :: tz_comp where
  "tz_none = \<lparr>tz_sign = None, tz_hour = None, tz_minute = None\<rparr>"

definition tz_set :: "int \<Rightarrow> tz_comp" where
  "tz_set h = \<lparr>tz_sign = Some (if h < 0 then -1 else 1), tz_hour = Some (nat \<bar>h\<bar>), tz_minute = Some 0\<rparr>"

definition tz_expecting :: "nat \<Rightarrow> tz_comp \<Rightarrow> bool" where
  "tz_expecting n z \<longleftrightarrow> tz_hour z \<noteq> None \<and> tz_minute z = None \<and> n \<le> 59"

definition tz_is_utc :: "tz_comp \<Rightarrow> bool" where
  "tz_is_utc z \<longleftrightarrow> tz_hour z = Some 0 \<and> tz_minute z = Some 0"

text \<open>The largest small integer of a 64-bit V8 without pointer compression.\<close>

definition smi_max :: int where
  "smi_max = 2147483647"

text \<open>
  \<open>TimeZoneComposer::Write\<close>: the offset in seconds, computed in 32-bit unsigned
  arithmetic (modulo \<open>2^32\<close>, so it wraps around), refused above \<open>smi_max\<close>; \<open>Some None\<close> is local time.
\<close>

definition tz_write :: "tz_comp \<Rightarrow> int option option" where
  "tz_write z =
     (case tz_sign z of
        None \<Rightarrow> Some None
      | Some sg \<Rightarrow>
          let total = (int (case tz_hour z of None \<Rightarrow> 0 | Some h \<Rightarrow> h) * 3600
                       + int (case tz_minute z of None \<Rightarrow> 0 | Some m \<Rightarrow> m) * 60) mod 4294967296 in
          if smi_max < total then None else Some (Some (sg * total)))"

text \<open>\<open>ReadMilliseconds\<close>: the first three digits of a fraction, from its value and length.\<close>

definition read_ms :: "nat \<Rightarrow> nat \<Rightarrow> nat" where
  "read_ms n l =
     (if l = 1 then n * 100 else if l = 2 then n * 10 else if l \<le> 3 then n else n div 10 ^ (min l 9 - 3))"

section \<open>The ES5 format\<close>

text \<open>
  The outcome of \<open>ParseES5DateTime\<close>: the string is refused, read to its end as an
  ISO date (its day, time and zone), or left to the legacy loop from a token on,
  with the date components read before it.
\<close>

datatype es5_result = EInvalid | EIso "int list" "nat list" tz_comp | ELegacy "dtoken list" "int list"

text \<open>The year: a sign and six digits (\<open>-000000\<close> refused) or four digits; \<open>Inr\<close> the tokens left.\<close>

definition es5_year :: "dtoken list \<Rightarrow> (int \<times> dtoken list) + dtoken list" where
  "es5_year ts =
     (case ts of
        TSym c # r \<Rightarrow>
          if c = CHR ''+'' \<or> c = CHR ''-'' then
            (case r of
               TNum y l # r' \<Rightarrow>
                 if l = 6 then
                   (if c = CHR ''-'' \<and> y = 0 then Inr (TSym c # r')
                    else Inl (if c = CHR ''-'' then - int y else int y, r'))
                 else Inr ts
             | _ \<Rightarrow> Inr ts)
          else Inr ts
      | TNum y l # r \<Rightarrow> if l = 4 then Inl (int y, r) else Inr ts
      | _ \<Rightarrow> Inr ts)"

definition es5_date :: "dtoken list \<Rightarrow> (int list \<times> dtoken list) + (int list \<times> dtoken list)" where
  "es5_date ts =
     (case es5_year ts of
        Inr ts' \<Rightarrow> Inr ([], ts')
      | Inl (y, r) \<Rightarrow>
          (case r of
             TSym c # r1 \<Rightarrow>
               if c = CHR ''-'' then
                 (case r1 of
                    TNum m l # r2 \<Rightarrow>
                      if l = 2 \<and> 1 \<le> m \<and> m \<le> 12 then
                        (case r2 of
                           TSym c' # r3 \<Rightarrow>
                             if c' = CHR ''-'' then
                               (case r3 of
                                  TNum d l' # r4 \<Rightarrow>
                                    if l' = 2 \<and> 1 \<le> d \<and> d \<le> 31 then Inl ([y, int m, int d], r4)
                                    else Inr ([y, int m], r3)
                                | _ \<Rightarrow> Inr ([y, int m], r3))
                             else Inl ([y, int m], r2)
                         | _ \<Rightarrow> Inl ([y, int m], r2))
                      else Inr ([y], r1)
                  | _ \<Rightarrow> Inr ([y], r1))
               else Inl ([y], r)
           | _ \<Rightarrow> Inl ([y], r)))"

text \<open>The time after \<open>T\<close>; every failure here refuses the whole string.\<close>

definition es5_time :: "dtoken list \<Rightarrow> (nat list \<times> dtoken list) option" where
  "es5_time ts =
     (case ts of
        TNum h lh # TSym c1 # TNum mi lm # r \<Rightarrow>
          if lh = 2 \<and> h \<le> 24 \<and> c1 = CHR '':'' \<and> lm = 2 \<and> mi \<le> 59 \<and> \<not> (h = 24 \<and> 0 < mi) then
            (case r of
               TSym c2 # r2 \<Rightarrow>
                 if c2 = CHR '':'' then
                   (case r2 of
                      TNum sec ls # r3 \<Rightarrow>
                        if ls = 2 \<and> sec \<le> 59 \<and> \<not> (h = 24 \<and> 0 < sec) then
                          (case r3 of
                             TSym c3 # r4 \<Rightarrow>
                               if c3 = CHR ''.'' then
                                 (case r4 of
                                    TNum f lf # r5 \<Rightarrow> if h = 24 \<and> 0 < f then None else Some ([h, mi, sec, read_ms f lf], r5)
                                  | _ \<Rightarrow> None)
                               else Some ([h, mi, sec], r3)
                           | _ \<Rightarrow> Some ([h, mi, sec], r3))
                        else None
                    | _ \<Rightarrow> None)
                 else Some ([h, mi], r)
             | _ \<Rightarrow> Some ([h, mi], r))
          else None
      | _ \<Rightarrow> None)"

text \<open>The zone: \<open>Z\<close>, \<open>+HH:mm\<close>, \<open>+HHmm\<close> (or with \<open>-\<close>), or none.\<close>

definition es5_zone :: "dtoken list \<Rightarrow> (tz_comp \<times> dtoken list) option" where
  "es5_zone ts =
     (case ts of
        TKw t v l # r \<Rightarrow> if t = KZone \<and> v = 0 \<and> l = 1 then Some (tz_set 0, r) else Some (tz_none, ts)
      | TSym c # r \<Rightarrow>
          if c = CHR ''+'' \<or> c = CHR ''-'' then
            (let sg = (if c = CHR ''+'' then 1 else -1) in
             case r of
               TNum hm l # r' \<Rightarrow>
                 if l = 4 then
                   (if hm div 100 \<le> 23 \<and> hm mod 100 \<le> 59
                    then Some (\<lparr>tz_sign = Some sg, tz_hour = Some (hm div 100), tz_minute = Some (hm mod 100)\<rparr>, r')
                    else None)
                 else if l = 2 \<and> hm \<le> 23 then
                   (case r' of
                      TSym c' # TNum mm l' # r'' \<Rightarrow>
                        if c' = CHR '':'' \<and> l' = 2 \<and> mm \<le> 59
                        then Some (\<lparr>tz_sign = Some sg, tz_hour = Some hm, tz_minute = Some mm\<rparr>, r'')
                        else None
                    | _ \<Rightarrow> None)
                 else None
             | _ \<Rightarrow> None)
          else Some (tz_none, ts)
      | _ \<Rightarrow> Some (tz_none, ts))"

text \<open>
  \<open>ParseES5DateTime\<close>. Without a zone a date-only string is UTC and a date-time
  string local time.
\<close>

definition es5 :: "dtoken list \<Rightarrow> es5_result" where
  "es5 ts =
     (case es5_date ts of
        Inr (ds, ts') \<Rightarrow> ELegacy ts' ds
      | Inl (ds, r) \<Rightarrow>
          (case r of
             [] \<Rightarrow> EIso ds [] (tz_set 0)
           | TKw t v l # r' \<Rightarrow>
               if t = KTimeSep then
                 (case es5_time r' of
                    None \<Rightarrow> EInvalid
                  | Some (tm, r2) \<Rightarrow>
                      (case es5_zone r2 of
                         None \<Rightarrow> EInvalid
                       | Some (z, r3) \<Rightarrow> if r3 = [] then EIso ds tm z else EInvalid))
               else ELegacy r ds
           | _ \<Rightarrow> ELegacy r ds))"

section \<open>The legacy parser\<close>

record lstate =
  ld :: day_comp
  lt :: time_comp
  lz :: tz_comp
  has_num :: bool

definition skip_sym :: "char \<Rightarrow> dtoken list \<Rightarrow> bool \<times> dtoken list" where
  "skip_sym c ts = (case ts of TSym d # r \<Rightarrow> if d = c then (True, r) else (False, ts) | _ \<Rightarrow> (False, ts))"

text \<open>
  A number: followed by \<open>::\<close> or \<open>:\<close> it is an hour or minute; followed by \<open>.\<close> and a
  number it is the last time component before milliseconds; then it may be the
  minutes of a zone, the last time component (which must end there), or a day
  component (a \<open>-\<close> after it is skipped).
\<close>

definition legacy_num :: "lstate \<Rightarrow> nat \<Rightarrow> dtoken list \<Rightarrow> (lstate \<times> dtoken list) option" where
  "legacy_num st0 n ts =
     (let st = st0\<lparr>has_num := True\<rparr> in
      case skip_sym CHR '':'' ts of
        (True, ts1) \<Rightarrow>
          (case skip_sym CHR '':'' ts1 of
             (True, ts2) \<Rightarrow>
               if tcomps (lt st) = [] then Some (st\<lparr>lt := (lt st)\<lparr>tcomps := [n, 0]\<rparr>\<rparr>, ts2) else None
           | (False, _) \<Rightarrow>
               (case time_add n (lt st) of
                  None \<Rightarrow> None
                | Some t' \<Rightarrow> Some (st\<lparr>lt := t'\<rparr>, snd (skip_sym CHR ''.'' ts1))))
      | (False, _) \<Rightarrow>
          (case skip_sym CHR ''.'' ts of
             (dot, ts1) \<Rightarrow>
               if dot \<and> time_expecting n (lt st) then
                 (case ts1 of
                    TNum m l # ts2 \<Rightarrow>
                      Some (st\<lparr>lt := time_add_final (read_ms m l) (time_add_ign n (lt st))\<rparr>, ts2)
                  | _ \<Rightarrow> None)
               else if tz_expecting n (lz st) then Some (st\<lparr>lz := (lz st)\<lparr>tz_minute := Some n\<rparr>\<rparr>, ts1)
               else if time_expecting n (lt st) then
                 (let st' = st\<lparr>lt := time_add_final n (lt st)\<rparr> in
                  case ts1 of
                    [] \<Rightarrow> Some (st', ts1)
                  | TWs # _ \<Rightarrow> Some (st', ts1)
                  | TKw t v l # _ \<Rightarrow> if t = KZone \<and> v = 0 \<and> l = 1 then Some (st', ts1) else None
                  | TSym c # _ \<Rightarrow> if c = CHR ''+'' \<or> c = CHR ''-'' then Some (st', ts1) else None
                  | _ \<Rightarrow> None)
               else
                 (case day_add (int n) (ld st) of
                    None \<Rightarrow> None
                  | Some d' \<Rightarrow> Some (st\<lparr>ld := d'\<rparr>, snd (skip_sym CHR ''-'' ts1)))))"

text \<open>A word: AM/PM after a time, a month name, a zone name after a number, or garbage.\<close>

definition legacy_kw :: "lstate \<Rightarrow> kw_type \<Rightarrow> int \<Rightarrow> dtoken list \<Rightarrow> (lstate \<times> dtoken list) option" where
  "legacy_kw st t v ts =
     (if t = KAmPm \<and> tcomps (lt st) \<noteq> [] then Some (st\<lparr>lt := (lt st)\<lparr>hour_offset := Some (nat v)\<rparr>\<rparr>, ts)
      else if t = KMonth then Some (st\<lparr>ld := (ld st)\<lparr>named_month := Some (nat v)\<rparr>\<rparr>, snd (skip_sym CHR ''-'' ts))
      else if t = KZone \<and> has_num st then Some (st\<lparr>lz := tz_set v\<rparr>, ts)
      else if has_num st then None
      else (case ts of TNum _ _ # _ \<Rightarrow> None | _ \<Rightarrow> Some (st, ts)))"

text \<open>A sign after a zone name of offset 0 or after a time: a zone offset, \<open>hh\<close>, \<open>hhmm\<close> or \<open>hh:mm\<close>.\<close>

definition legacy_sign :: "lstate \<Rightarrow> char \<Rightarrow> dtoken list \<Rightarrow> (lstate \<times> dtoken list) option" where
  "legacy_sign st0 c ts =
     (let st = st0\<lparr>has_num := True\<rparr>;
          z = (lz st)\<lparr>tz_sign := Some (if c = CHR ''+'' then 1 else -1)\<rparr>;
          nl = (case ts of TNum m l # r \<Rightarrow> (m, l, r) | _ \<Rightarrow> (0, 0, ts));
          n = fst nl; l = fst (snd nl); ts1 = snd (snd nl) in
      if fst (skip_sym CHR '':'' ts1) then Some (st\<lparr>lz := z\<lparr>tz_hour := Some n, tz_minute := None\<rparr>\<rparr>, ts1)
      else if l = 1 \<or> l = 2 then Some (st\<lparr>lz := z\<lparr>tz_hour := Some n, tz_minute := Some 0\<rparr>\<rparr>, ts1)
      else if l = 3 \<or> l = 4 then Some (st\<lparr>lz := z\<lparr>tz_hour := Some (n div 100), tz_minute := Some (n mod 100)\<rparr>\<rparr>, ts1)
      else None)"

definition legacy_step :: "lstate \<Rightarrow> dtoken \<Rightarrow> dtoken list \<Rightarrow> (lstate \<times> dtoken list) option" where
  "legacy_step st tok ts =
     (case tok of
        TNum n l \<Rightarrow> legacy_num st n ts
      | TKw t v l \<Rightarrow> legacy_kw st t v ts
      | TSym c \<Rightarrow>
          if (c = CHR ''+'' \<or> c = CHR ''-'') \<and> (tz_is_utc (lz st) \<or> tcomps (lt st) \<noteq> []) then legacy_sign st c ts
          else if (c = CHR ''+'' \<or> c = CHR ''-'' \<or> c = CHR '')'') \<and> has_num st then None
          else Some (st, ts)
      | _ \<Rightarrow> Some (st, ts))"

text \<open>The loop of \<open>DateParser::Parse\<close> over the tokens left by the ES5 part.\<close>

function legacy :: "lstate \<Rightarrow> dtoken list \<Rightarrow> lstate option" where
  "legacy st [] = Some st"
| "legacy st (tok # ts) = (case legacy_step st tok ts of None \<Rightarrow> None | Some (st', ts') \<Rightarrow> legacy st' ts')"
  by pat_completeness auto
termination
proof (relation "measure (length \<circ> snd)")
  have sk: "\<And>c ts b r. skip_sym c ts = (b, r) \<Longrightarrow> length r \<le> length ts"
    by (auto simp: skip_sym_def split: list.splits dtoken.splits if_splits)
  have num: "\<And>st n ts st' ts'. legacy_num st n ts = Some (st', ts') \<Longrightarrow> length ts' \<le> length ts"
  proof -
    fix st n ts st' ts'
    assume h: "legacy_num st n ts = Some (st', ts')"
    obtain b1 ts1 where s1: "skip_sym CHR '':'' ts = (b1, ts1)" by fastforce
    obtain b2 ts2 where s2: "skip_sym CHR '':'' ts1 = (b2, ts2)" by fastforce
    obtain b3 ts3 where s3: "skip_sym CHR ''.'' ts1 = (b3, ts3)" by fastforce
    obtain b4 ts4 where s4: "skip_sym CHR ''.'' ts = (b4, ts4)" by fastforce
    obtain b5 ts5 where s5: "skip_sym CHR ''-'' ts4 = (b5, ts5)" by fastforce
    have l: "length ts1 \<le> length ts" "length ts2 \<le> length ts1" "length ts3 \<le> length ts1"
            "length ts4 \<le> length ts" "length ts5 \<le> length ts4"
      using sk s1 s2 s3 s4 s5 by blast+
    have "ts' = ts2 \<or> ts' = ts3 \<or> ts' = ts4 \<or> ts' = ts5 \<or> (\<exists>t. ts4 = t # ts')"
      using h by (auto simp: legacy_num_def Let_def s1 s2 s3 s4 s5
                       split: bool.splits if_splits option.splits list.splits dtoken.splits)
    then show "length ts' \<le> length ts" using l by auto
  qed
  have kw: "\<And>st t v ts st' ts'. legacy_kw st t v ts = Some (st', ts') \<Longrightarrow> length ts' \<le> length ts"
  proof -
    fix st t v ts st' ts'
    assume h: "legacy_kw st t v ts = Some (st', ts')"
    obtain b r where s1: "skip_sym CHR ''-'' ts = (b, r)" by fastforce
    then have "length r \<le> length ts" by (rule sk)
    moreover have "ts' = ts \<or> ts' = r"
      using h by (auto simp: legacy_kw_def s1 split: if_splits list.splits dtoken.splits)
    ultimately show "length ts' \<le> length ts" by auto
  qed
  have sg: "\<And>st c ts st' ts'. legacy_sign st c ts = Some (st', ts') \<Longrightarrow> length ts' \<le> length ts"
    by (auto simp: legacy_sign_def Let_def split: if_splits list.splits dtoken.splits)
  have "\<And>st tok ts st' ts'. legacy_step st tok ts = Some (st', ts') \<Longrightarrow> length ts' \<le> length ts"
    using num kw sg by (auto simp: legacy_step_def split: dtoken.splits if_splits)
  then show "\<And>st tok ts x xa y. legacy_step st tok ts = Some x \<Longrightarrow> (xa, y) = x \<Longrightarrow>
               ((xa, y), st, tok # ts) \<in> measure (length \<circ> snd)"
    by (fastforce simp: le_imp_less_Suc)
qed simp

definition empty_time :: time_comp where
  "empty_time = \<lparr>tcomps = [], hour_offset = None\<rparr>"

type_synonym v8_fields = "(int \<times> nat \<times> nat) \<times> (nat \<times> nat \<times> nat \<times> nat) \<times> int option"

text \<open>\<open>DateParser::Parse\<close>: the date, the time and the offset in seconds (\<open>None\<close> for local time).\<close>

definition v8_parse :: "string \<Rightarrow> v8_fields option" where
  "v8_parse s = do {
     st \<leftarrow> (case es5 (tokenize s) of
              EInvalid \<Rightarrow> None
            | EIso ds tm z \<Rightarrow>
                Some \<lparr>ld = \<lparr>dcomps = ds, named_month = None, dc_iso = True\<rparr>,
                      lt = \<lparr>tcomps = tm, hour_offset = None\<rparr>, lz = z, has_num = True\<rparr>
            | ELegacy ts ds \<Rightarrow>
                legacy \<lparr>ld = \<lparr>dcomps = ds, named_month = None, dc_iso = False\<rparr>,
                        lt = empty_time, lz = tz_none, has_num = (ds \<noteq> [])\<rparr> ts);
     d \<leftarrow> day_write (ld st);
     t \<leftarrow> time_write (lt st);
     z \<leftarrow> tz_write (lz st);
     Some (d, t, z)
   }"

definition max_time :: int where
  "max_time = 8640000000000000"

text \<open>
  \<open>ParseDateTimeString\<close>: \<open>MakeDate(MakeDay, MakeTime)\<close>; local time is refused
  beyond ten days past the range before it is shifted by \<open>tz\<close>, an offset shifts it
  by itself; then \<open>TimeClip\<close>.
\<close>

fun v8_time :: "int \<Rightarrow> v8_fields \<Rightarrow> jsdate" where
  "v8_time tz ((y, mo, d), (h, mi, sec, ms), off) =
     (let t = make_day y mo d * ms_per_day + make_time h mi sec ms in
      case off of
        None \<Rightarrow> if max_time + 864000000 < \<bar>t\<bar> then InvalidDate else time_clip (t - tz)
      | Some off_s \<Rightarrow> time_clip (t - off_s * 1000))"

definition date_parse :: "int \<Rightarrow> string \<Rightarrow> jsdate" where
  "date_parse tz s = (case v8_parse s of None \<Rightarrow> InvalidDate | Some f \<Rightarrow> v8_time tz f)"

section \<open>The constructor\<close>

text \<open>\<open>TimeClip(ToNumber(v))\<close> of a number: non-finite or too large is invalid, else truncated.\<close>

fun number_date :: "jsnum \<Rightarrow> jsdate" where
  "number_date (Fin m e) =
     (if 0 \<le> e then time_clip (m * 10 ^ nat e)
      else if \<bar>m\<bar> > 8640000000000000 * 10 ^ nat (- e) then InvalidDate
      else TimeVal (sgn m * (\<bar>m\<bar> div 10 ^ nat (- e))))"
| "number_date _ = InvalidDate"

text \<open>
  \<open>new Date(v)\<close> with one argument (ECMAScript 21.4.2.1): a string is parsed; any
  other primitive is converted with \<open>ToNumber\<close> (\<open>null\<close> is 0, \<open>undefined\<close> is
  \<open>NaN\<close>); an array or object is converted to a string first.
\<close>

fun new_date :: "int \<Rightarrow> jsv \<Rightarrow> jsdate" where
  "new_date tz VUndefined = InvalidDate"
| "new_date tz VNull = TimeVal 0"
| "new_date tz (VBool b) = TimeVal (if b then 1 else 0)"
| "new_date tz (VNum n) = number_date n"
| "new_date tz (VStr s) = date_parse tz s"
| "new_date tz v = date_parse tz (to_string v)"


section \<open>Lemmas\<close>

subsection \<open>The tokenizer\<close>

text \<open>Number, symbol and word tokens of the characters the formats use.\<close>

lemma dec_digit_code: "is_dec_digit c \<longleftrightarrow> 48 \<le> (of_char c :: nat) \<and> (of_char c :: nat) \<le> 57"
  by (auto simp: is_radix_digit_def char_digit_def Let_def)

lemma dec_digit_not_word: "is_dec_digit c \<Longrightarrow> \<not> word_char c"
  by (simp add: dec_digit_code word_char_def)

lemma digits_value_dropzeros:
  "digits_value 10 (dropWhile (\<lambda>c. c = CHR ''0'') ds) = digits_value 10 ds"
proof (induction ds)
  case (Cons c ds)
  then show ?case using digits_value_zeros [of 10 1 ds] by simp
qed simp

lemma numeral_value_short: "length ds \<le> 9 \<Longrightarrow> numeral_value ds = digits_value 10 ds"
  using length_dropWhile_le [of "\<lambda>c. c = CHR ''0''" ds]
  by (simp add: numeral_value_def digits_value_dropzeros)

text \<open>A run of \<open>n\<close> digits, \<open>n\<close> at most nine, is one number token of its value.\<close>

lemma tokenize_fixed_num:
  assumes "fixed_num n s = Some (v, r)" and "0 < n" and "n \<le> 9"
  shows "tokenize s = TNum v n # tokenize r"
proof -
  have ds: "length (takeWhile is_dec_digit s) = n" and v: "v = digits_value 10 (takeWhile is_dec_digit s)"
   and r: "r = dropWhile is_dec_digit s"
    using assms(1) by (auto simp: fixed_num_def Let_def split: if_splits)
  obtain c s' where s: "s = c # s'" and c: "is_dec_digit c"
    using ds assms(2) by (cases s) (auto split: if_splits)
  have "c \<noteq> CHR 0x00" using c by (auto simp: dec_digit_code)
  then show ?thesis using s c ds v r assms(3) by (simp add: numeral_value_short)
qed

lemma kw_lookup_letters: "kw_lookup ''T'' = (KTimeSep, 0)" "kw_lookup ''Z'' = (KZone, 0)"
  by code_simp+

lemma tokenize_syms:
  "tokenize (CHR '':'' # r) = TSym (CHR '':'') # tokenize r"
  "tokenize (CHR ''-'' # r) = TSym (CHR ''-'') # tokenize r"
  "tokenize (CHR ''+'' # r) = TSym (CHR ''+'') # tokenize r"
  "tokenize (CHR ''.'' # r) = TSym (CHR ''.'') # tokenize r"
  by (subst tokenize.simps(2), simp add: dec_digit_code del: tokenize.simps)+

lemma tokenize_letter:
  assumes "r = [] \<or> \<not> word_char (hd r)"
  shows "tokenize (CHR ''T'' # r) = TKw KTimeSep 0 1 # tokenize r"
    and "tokenize (CHR ''Z'' # r) = TKw KZone 0 1 # tokenize r"
proof -
  have tw: "takeWhile word_char r = []" "dropWhile word_char r = r"
    using assms by (cases r; simp)+
  have w: "word_char (CHR ''T'')" "word_char (CHR ''Z'')" by (simp_all add: word_char_def)
  show "tokenize (CHR ''T'' # r) = TKw KTimeSep 0 1 # tokenize r"
    by (subst tokenize.simps(2)) (simp add: tw w(1) dec_digit_code kw_lookup_letters del: tokenize.simps)
  show "tokenize (CHR ''Z'' # r) = TKw KZone 0 1 # tokenize r"
    by (subst tokenize.simps(2)) (simp add: tw w(2) dec_digit_code kw_lookup_letters del: tokenize.simps)
qed

subsection \<open>The ES5 part reads the format\<close>

text \<open>Each part of the format is read by the token-level parser to the same components.\<close>

text \<open>A word starts with a keyword token, whatever it is.\<close>

lemma tokenize_word_start:
  "word_char c \<Longrightarrow> \<exists>t v l rest. tokenize (c # r) = TKw t v l # rest"
proof -
  assume w: "word_char c"
  then have "c \<noteq> CHR 0x00" "\<not> is_dec_digit c" "c \<notin> set '':-+.)''"
    by (auto simp: word_char_def dec_digit_code)
  then show ?thesis using w by (subst tokenize.simps(2)) (auto simp del: tokenize.simps split: prod.split)
qed

lemma tokenize_T_start:
  "r = [] \<or> hd r = CHR ''T'' \<Longrightarrow> tokenize r = [] \<or> (\<exists>t v l rest. tokenize r = TKw t v l # rest)"
  using tokenize_word_start [of "CHR ''T''"] by (cases r) (auto simp: word_char_def)

lemma es5_year_ref:
  assumes "parse_year s = Some (y, r)"
  shows "es5_year (tokenize s) = Inl (y, tokenize r)"
proof (cases s)
  case Nil
  then show ?thesis using assms by (simp add: parse_year_def)
next
  case (Cons c s')
  consider (plus) "c = CHR ''+''" | (minus) "c = CHR ''-''" | (digits) "c \<noteq> CHR ''+''" "c \<noteq> CHR ''-''" by blast
  then show ?thesis
  proof cases
    case plus
    then obtain v where f: "fixed_num 6 s' = Some (v, r)" and y: "y = int v"
      using assms Cons by (auto simp: parse_year_def split: option.splits)
    show ?thesis using tokenize_fixed_num [OF f] Cons plus y by (simp add: es5_year_def tokenize_syms)
  next
    case minus
    then obtain v where f: "fixed_num 6 s' = Some (v, r)" and y: "y = - int v" and v: "v \<noteq> 0"
      using assms Cons by (auto simp: parse_year_def split: option.splits if_splits)
    show ?thesis using tokenize_fixed_num [OF f] Cons minus y v by (simp add: es5_year_def tokenize_syms)
  next
    case digits
    then obtain v where f: "fixed_num 4 s = Some (v, r)" and y: "y = int v"
      using assms Cons by (auto simp: parse_year_def split: option.splits)
    have "\<not> (c = CHR ''+'' \<or> c = CHR ''-'')" using digits by simp
    then show ?thesis using tokenize_fixed_num [OF f] y
      by (auto simp: es5_year_def split: dtoken.splits list.splits)
  qed
qed

lemma bind_pair_Some:
  "(m \<bind> (\<lambda>(a, b). f a b)) = Some z \<longleftrightarrow> (\<exists>a b. m = Some (a, b) \<and> f a b = Some z)"
  by (cases m) auto

lemma ranged_Some: "ranged n lo hi s = Some (v, r) \<Longrightarrow> fixed_num n s = Some (v, r) \<and> lo \<le> v \<and> v \<le> hi"
  by (auto simp: ranged_def split: option.splits if_splits)

lemma es5_date_ref:
  assumes p: "parse_date_part s = Some ((y, mo, d), r)" and r: "r = [] \<or> hd r = CHR ''T''"
  shows "\<exists>ds. es5_date (tokenize s) = Inl (ds, tokenize r) \<and> ds \<noteq> [] \<and>
              ds @ replicate (3 - length ds) 1 = [y, int mo, int d] \<and> 1 \<le> mo \<and> mo \<le> 12 \<and> 1 \<le> d \<and> d \<le> 31"
proof -
  obtain r1 where yr: "parse_year s = Some (y, r1)"
    and md: "opt_part (CHR ''-'') (\<lambda>r. do { (mo, r') \<leftarrow> ranged 2 1 12 r; (d, r'') \<leftarrow> opt_part (CHR ''-'') (ranged 2 1 31) 1 r'; Some ((mo, d), r'') }) (1, 1) r1 = Some ((mo, d), r)"
    using p unfolding parse_date_part_def
    by (auto simp: bind_pair_Some)
  note y = es5_year_ref [OF yr]
  have rt: "tokenize r = [] \<or> (\<exists>t v l rest. tokenize r = TKw t v l # rest)" using r by (rule tokenize_T_start)
  show ?thesis
  proof (cases "r1 \<noteq> [] \<and> hd r1 = CHR ''-''")
    case False
    then have "(mo, d) = (1, 1)" "r = r1" using md by (auto simp: opt_part_def split: list.splits if_splits)
    then show ?thesis using y rt by (auto simp: es5_date_def numeral_2_eq_2)
  next
    case True
    then obtain r2 where r1: "r1 = CHR ''-'' # r2" by (cases r1) auto
    obtain r3 where m: "ranged 2 1 12 r2 = Some (mo, r3)"
      and dd: "opt_part (CHR ''-'') (ranged 2 1 31) 1 r3 = Some (d, r)"
    proof -
      have "(ranged 2 1 12 r2 \<bind> (\<lambda>(mo, r'). opt_part (CHR ''-'') (ranged 2 1 31) 1 r' \<bind> (\<lambda>(d, r''). Some ((mo, d), r''))))
            = Some ((mo, d), r)" using md r1 by (simp add: opt_part_def)
      then show ?thesis using that by (auto simp: bind_eq_Some_conv split: prod.splits)
    qed
    note mf = ranged_Some [OF m]
    have t2: "tokenize r2 = TNum mo 2 # tokenize r3" using mf by (intro tokenize_fixed_num) simp_all
    show ?thesis
    proof (cases "r3 \<noteq> [] \<and> hd r3 = CHR ''-''")
      case False
      then have "d = 1" "r = r3" using dd by (auto simp: opt_part_def split: list.splits if_splits)
      then show ?thesis using y rt t2 mf r1 by (auto simp: es5_date_def tokenize_syms numeral_2_eq_2)
    next
      case True
      then obtain r4 where r3: "r3 = CHR ''-'' # r4" by (cases r3) auto
      have dr: "ranged 2 1 31 r4 = Some (d, r)" using dd r3 by (simp add: opt_part_def)
      note df = ranged_Some [OF dr]
      have t4: "tokenize r4 = TNum d 2 # tokenize r" using df by (intro tokenize_fixed_num) simp_all
      show ?thesis using y t2 t4 mf df r1 r3 by (simp add: es5_date_def tokenize_syms)
    qed
  qed
qed

lemma digits_value_bound:
  "\<forall>c\<in>set ds. char_digit c < r \<Longrightarrow> digits_value r ds < r ^ length ds"
proof (induction ds rule: rev_induct)
  case (snoc c ds)
  then have a: "digits_value r ds + 1 \<le> r ^ length ds" and b: "char_digit c < r" by simp_all
  have "digits_value r ds * r + char_digit c < digits_value r ds * r + r" using b by simp
  also have "\<dots> = (digits_value r ds + 1) * r" by simp
  also have "\<dots> \<le> r ^ length ds * r" using a by (rule mult_le_mono1)
  finally show ?case by (simp add: digits_value_snoc mult.commute)
qed (simp add: digits_value_def)

lemma fixed_num_bound: "fixed_num n s = Some (v, r) \<Longrightarrow> v < 10 ^ n"
proof -
  assume f: "fixed_num n s = Some (v, r)"
  have "\<forall>c\<in>set (takeWhile is_dec_digit s). char_digit c < 10"
    by (auto dest: set_takeWhileD simp: is_radix_digit_def)
  then show ?thesis using f digits_value_bound [of "takeWhile is_dec_digit s" 10]
    by (auto simp: fixed_num_def Let_def split: if_splits)
qed

lemma parse_clock_Some:
  assumes "parse_clock s = Some ((h, mi, sec, ms), r)"
  obtains r1 r3 where "ranged 2 0 24 s = Some (h, CHR '':'' # r1)" and "ranged 2 0 59 r1 = Some (mi, r3)"
    and "\<not> (h = 24 \<and> (mi \<noteq> 0 \<or> sec \<noteq> 0 \<or> ms \<noteq> 0))"
    and "opt_part (CHR '':'') (\<lambda>r. do { (sec, r') \<leftarrow> ranged 2 0 59 r; (ms, r'') \<leftarrow> opt_part (CHR ''.'') (fixed_num 3) 0 r';
           Some ((sec, ms), r'') }) (0, 0) r3 = Some ((sec, ms), r)"
  using assms unfolding parse_clock_def
proof -
  obtain r1' r2 r3 sms where h: "ranged 2 0 24 s = Some (h, r1')" and r1: "skip_char (CHR '':'') r1' = Some r2"
    and m: "ranged 2 0 59 r2 = Some (mi, r3)"
    and o: "opt_part (CHR '':'') (\<lambda>r. do { (sec, r') \<leftarrow> ranged 2 0 59 r; (ms, r'') \<leftarrow> opt_part (CHR ''.'') (fixed_num 3) 0 r';
           Some ((sec, ms), r'') }) (0, 0) r3 = Some (sms, r)"
    and g: "\<not> (h = 24 \<and> (mi \<noteq> 0 \<or> fst sms \<noteq> 0 \<or> snd sms \<noteq> 0))" and sv: "sms = (sec, ms)"
    using assms unfolding parse_clock_def
    by (auto simp: bind_eq_Some_conv split: prod.splits if_splits)
  have "r1' = CHR '':'' # r2" using r1 by (auto simp: skip_char_def split: list.splits if_splits)
  then show ?thesis using that h m o g sv by simp
qed

lemma tokenize_zone_start:
  assumes "r = [] \<or> hd r \<in> {CHR ''Z'', CHR ''+'', CHR ''-''}"
  shows "tokenize r = [] \<or> (\<exists>t v l rest. tokenize r = TKw t v l # rest) \<or>
         (\<exists>c rest. (c = CHR ''+'' \<or> c = CHR ''-'') \<and> tokenize r = TSym c # rest)"
proof (cases r)
  case (Cons c r')
  then show ?thesis using assms tokenize_word_start [of "CHR ''Z''" r'] by (auto simp: word_char_def tokenize_syms simp del: tokenize.simps)
qed simp

lemma time_write_hms:
  "\<not> (h = 24 \<and> (mi \<noteq> 0 \<or> sec \<noteq> 0 \<or> ms \<noteq> 0)) \<Longrightarrow> h \<le> 24 \<Longrightarrow> mi \<le> 59 \<Longrightarrow> sec \<le> 59 \<Longrightarrow> ms \<le> 999 \<Longrightarrow>
   time_write \<lparr>tcomps = [h, mi, sec, ms], hour_offset = None\<rparr> = Some (h, mi, sec, ms) \<and>
   time_write \<lparr>tcomps = [h, mi, sec], hour_offset = None\<rparr> = Some (h, mi, sec, 0) \<and>
   time_write \<lparr>tcomps = [h, mi], hour_offset = None\<rparr> = Some (h, mi, 0, 0)"
  by (auto simp: time_write_def Let_def numeral_2_eq_2)

lemma es5_time_ref:
  assumes p: "parse_clock s = Some ((h, mi, sec, ms), r)" and z: "r = [] \<or> hd r \<in> {CHR ''Z'', CHR ''+'', CHR ''-''}"
  shows "\<exists>tm. es5_time (tokenize s) = Some (tm, tokenize r) \<and> time_write \<lparr>tcomps = tm, hour_offset = None\<rparr> = Some (h, mi, sec, ms)"
proof -
  obtain r1 r3 where hr: "ranged 2 0 24 s = Some (h, CHR '':'' # r1)" and mr: "ranged 2 0 59 r1 = Some (mi, r3)"
    and g: "\<not> (h = 24 \<and> (mi \<noteq> 0 \<or> sec \<noteq> 0 \<or> ms \<noteq> 0))"
    and o: "opt_part (CHR '':'') (\<lambda>r. do { (sec, r') \<leftarrow> ranged 2 0 59 r; (ms, r'') \<leftarrow> opt_part (CHR ''.'') (fixed_num 3) 0 r';
           Some ((sec, ms), r'') }) (0, 0) r3 = Some ((sec, ms), r)"
    using p by (rule parse_clock_Some)
  note hf = ranged_Some [OF hr] and mf = ranged_Some [OF mr]
  have ts: "tokenize s = TNum h 2 # TSym (CHR '':'') # TNum mi 2 # tokenize r3"
    using tokenize_fixed_num [OF conjunct1 [OF hf]] tokenize_fixed_num [OF conjunct1 [OF mf]]
    by (simp add: tokenize_syms del: tokenize.simps)
  note zs = tokenize_zone_start [OF z]
  show ?thesis
  proof (cases "r3 \<noteq> [] \<and> hd r3 = CHR '':''")
    case False
    then have "sec = 0" "ms = 0" "r = r3" using o by (auto simp: opt_part_def split: list.splits if_splits)
    moreover have "time_write \<lparr>tcomps = [h, mi], hour_offset = None\<rparr> = Some (h, mi, 0, 0)"
      using time_write_hms [of h mi 0 0] g hf mf \<open>sec = 0\<close> \<open>ms = 0\<close> by simp
    ultimately show ?thesis using ts zs g hf mf by (auto simp: es5_time_def)
  next
    case True
    then obtain r5 where r3: "r3 = CHR '':'' # r5" by (cases r3) auto
    obtain r6 where sr: "ranged 2 0 59 r5 = Some (sec, r6)" and mo: "opt_part (CHR ''.'') (fixed_num 3) 0 r6 = Some (ms, r)"
      using o r3 by (auto simp: opt_part_def bind_eq_Some_conv split: prod.splits)
    note sf = ranged_Some [OF sr]
    have ts5: "tokenize r5 = TNum sec 2 # tokenize r6" using tokenize_fixed_num [OF conjunct1 [OF sf]] by simp
    show ?thesis
    proof (cases "r6 \<noteq> [] \<and> hd r6 = CHR ''.''")
      case False
      then have "ms = 0" "r = r6" using mo by (auto simp: opt_part_def split: list.splits if_splits)
      moreover have "time_write \<lparr>tcomps = [h, mi, sec], hour_offset = None\<rparr> = Some (h, mi, sec, 0)"
        using time_write_hms [of h mi sec 0] g hf mf sf \<open>ms = 0\<close> by simp
      ultimately show ?thesis using ts ts5 r3 zs g hf mf sf by (auto simp: es5_time_def tokenize_syms simp del: tokenize.simps)
    next
      case True
      then obtain r7 where r6: "r6 = CHR ''.'' # r7" by (cases r6) auto
      have f3: "fixed_num 3 r7 = Some (ms, r)" using mo r6 by (simp add: opt_part_def)
      have ts7: "tokenize r7 = TNum ms 3 # tokenize r" using tokenize_fixed_num [OF f3] by simp
      have "ms < 1000" using fixed_num_bound [OF f3] by simp
      then have "time_write \<lparr>tcomps = [h, mi, sec, read_ms ms 3], hour_offset = None\<rparr> = Some (h, mi, sec, ms)"
        using time_write_hms [of h mi sec ms] g hf mf sf by (simp add: read_ms_def)
      then show ?thesis using ts ts5 ts7 r3 r6 g hf mf sf by (auto simp: es5_time_def tokenize_syms simp del: tokenize.simps)
    qed
  qed
qed

lemma parse_offset_Some:
  assumes "parse_offset r = Some (m, r')"
  obtains hh mm r2 where "ranged 2 0 23 r = Some (hh, CHR '':'' # r2)" and "ranged 2 0 59 r2 = Some (mm, r')"
    and "m = int hh * 60 + int mm"
proof -
  obtain r1 r2 hh mm where h: "ranged 2 0 23 r = Some (hh, r1)" and c: "skip_char (CHR '':'') r1 = Some r2"
    and mm: "ranged 2 0 59 r2 = Some (mm, r')" and m: "m = int hh * 60 + int mm"
    using assms unfolding parse_offset_def by (auto simp: bind_eq_Some_conv split: prod.splits)
  have "r1 = CHR '':'' # r2" using c by (auto simp: skip_char_def split: list.splits if_splits)
  then show ?thesis using that h mm m by simp
qed

lemma parse_zone_start: "parse_zone s = Some (z, []) \<Longrightarrow> s = [] \<or> hd s \<in> {CHR ''Z'', CHR ''+'', CHR ''-''}"
  by (cases s) (auto simp: parse_zone_def split: if_splits)

lemma tz_write_offset:
  assumes "hh \<le> 23" and "mm \<le> 59" and "sg = 1 \<or> sg = -1"
  shows "tz_write \<lparr>tz_sign = Some sg, tz_hour = Some hh, tz_minute = Some mm\<rparr> = Some (Some (sg * ((int hh * 60 + int mm) * 60)))"
proof -
  have "int hh * 3600 + int mm * 60 \<le> 23 * 3600 + 59 * 60" using assms(1,2) by linarith
  then have "(int hh * 3600 + int mm * 60) mod 4294967296 = int hh * 3600 + int mm * 60" by (simp add: mod_pos_pos_trivial)
  moreover have "int hh * 3600 + int mm * 60 \<le> smi_max" using \<open>int hh * 3600 + int mm * 60 \<le> _\<close> by (simp add: smi_max_def)
  ultimately show ?thesis by (simp add: tz_write_def Let_def algebra_simps)
qed

lemma es5_zone_ref:
  assumes p: "parse_zone s = Some (z, [])"
  shows "\<exists>zc. es5_zone (tokenize s) = Some (zc, []) \<and>
             tz_write zc = Some (case z of ZUtc \<Rightarrow> Some 0 | ZLocal \<Rightarrow> None | ZOffset m \<Rightarrow> Some (m * 60))"
proof (cases s)
  case Nil
  then show ?thesis using p by (simp add: parse_zone_def es5_zone_def tz_write_def tz_none_def)
next
  case (Cons c r)
  consider "c = CHR ''Z''" | "c = CHR ''+''" | "c = CHR ''-''" using p Cons parse_zone_start [OF p] by auto
  then show ?thesis
  proof cases
    case 1
    then have "r = []" "z = ZUtc" using p Cons by (simp_all add: parse_zone_def)
    then show ?thesis using Cons 1 tokenize_letter(2) [of "[]"]
      by (simp add: es5_zone_def tz_write_def tz_set_def smi_max_def)
  next
    case 2
    then obtain m where o: "parse_offset r = Some (m, [])" and zv: "z = ZOffset m"
      using p Cons by (auto simp: parse_zone_def)
    from o obtain hh mm r2 where h: "ranged 2 0 23 r = Some (hh, CHR '':'' # r2)" and mr: "ranged 2 0 59 r2 = Some (mm, [])"
      and m: "m = int hh * 60 + int mm" by (rule parse_offset_Some)
    note hf = ranged_Some [OF h] and mf = ranged_Some [OF mr]
    have "tokenize s = [TSym (CHR ''+''), TNum hh 2, TSym (CHR '':''), TNum mm 2]"
      using Cons 2 tokenize_fixed_num [OF conjunct1 [OF hf]] tokenize_fixed_num [OF conjunct1 [OF mf]]
      by (simp add: tokenize_syms del: tokenize.simps, simp)
    then show ?thesis using hf mf zv m tz_write_offset [of hh mm 1] by (simp add: es5_zone_def)
  next
    case 3
    then obtain m where o: "parse_offset r = Some (m, [])" and zv: "z = ZOffset (- m)"
      using p Cons by (auto simp: parse_zone_def)
    from o obtain hh mm r2 where h: "ranged 2 0 23 r = Some (hh, CHR '':'' # r2)" and mr: "ranged 2 0 59 r2 = Some (mm, [])"
      and m: "m = int hh * 60 + int mm" by (rule parse_offset_Some)
    note hf = ranged_Some [OF h] and mf = ranged_Some [OF mr]
    have "tokenize s = [TSym (CHR ''-''), TNum hh 2, TSym (CHR '':''), TNum mm 2]"
      using Cons 3 tokenize_fixed_num [OF conjunct1 [OF hf]] tokenize_fixed_num [OF conjunct1 [OF mf]]
      by (simp add: tokenize_syms del: tokenize.simps, simp)
    then show ?thesis using hf mf zv m tz_write_offset [of hh mm "-1"] by (simp add: es5_zone_def)
  qed
qed

lemma day_write_iso:
  assumes "ds \<noteq> []" and "ds @ replicate (3 - length ds) 1 = [y, int mo, int d]"
    and "1 \<le> mo" "mo \<le> 12" "1 \<le> d" "d \<le> 31"
  shows "day_write \<lparr>dcomps = ds, named_month = None, dc_iso = True\<rparr> = Some (y, mo, d)"
  using assms by (simp add: day_write_def Let_def is_day_def)

lemma parse_clock_digit: "parse_clock s = Some (c, r) \<Longrightarrow> s \<noteq> [] \<and> \<not> word_char (hd s)"
  by (cases s) (auto simp: parse_clock_def ranged_def fixed_num_def Let_def dec_digit_not_word bind_eq_Some_conv
                     split: option.splits if_splits)

lemma v8_parse_ref:
  assumes p: "parse_date_string s = Some ((y, mo, d), clk, z)"
  shows "v8_parse s = Some ((y, mo, d), clk, case z of ZUtc \<Rightarrow> Some 0 | ZLocal \<Rightarrow> None | ZOffset m \<Rightarrow> Some (m * 60))"
proof -
  obtain ymd r where dp0: "parse_date_part s = Some (ymd, r)"
    and rest0: "(case r of [] \<Rightarrow> Some (ymd, (0, 0, 0, 0), ZUtc)
      | c # r' \<Rightarrow> if c = CHR ''T'' then do {
            (clk, r2) \<leftarrow> parse_clock r'; (z, r3) \<leftarrow> parse_zone r2;
            if r3 = [] then Some (ymd, clk, z) else None } else None) = Some ((y, mo, d), clk, z)"
    using p unfolding parse_date_string_def by (auto simp: bind_eq_Some_conv)
  have "ymd = (y, mo, d)" using rest0 by (auto simp: bind_eq_Some_conv split: list.splits if_splits prod.splits)
  then have dp: "parse_date_part s = Some ((y, mo, d), r)"
    and rest: "(case r of [] \<Rightarrow> Some ((y, mo, d), (0, 0, 0, 0), ZUtc)
      | c # r' \<Rightarrow> if c = CHR ''T'' then do {
            (clk, r2) \<leftarrow> parse_clock r'; (z, r3) \<leftarrow> parse_zone r2;
            if r3 = [] then Some ((y, mo, d), clk, z) else None } else None) = Some ((y, mo, d), clk, z)"
    using dp0 rest0 unfolding \<open>ymd = (y, mo, d)\<close> by simp_all
  show ?thesis
  proof (cases r)
    case Nil
    then have cz: "clk = (0, 0, 0, 0)" "z = ZUtc" using rest by simp_all
    obtain ds where e: "es5_date (tokenize s) = Inl (ds, [])" and ds: "ds \<noteq> []"
      "ds @ replicate (3 - length ds) 1 = [y, int mo, int d]" "1 \<le> mo" "mo \<le> 12" "1 \<le> d" "d \<le> 31"
      using es5_date_ref [OF dp] Nil by auto
    show ?thesis using e day_write_iso [OF ds] cz
      by (simp add: v8_parse_def es5_def time_write_def tz_write_def tz_set_def smi_max_def)
  next
    case (Cons c r')
    then have T: "c = CHR ''T''" using rest by (simp split: if_splits)
    obtain r2 where pc: "parse_clock r' = Some (clk, r2)" and pz: "parse_zone r2 = Some (z, [])"
      using rest Cons T by (auto simp: bind_eq_Some_conv split: prod.splits if_splits)
    obtain h mi sec ms where clk: "clk = (h, mi, sec, ms)" by (cases clk) auto
    obtain ds where e: "es5_date (tokenize s) = Inl (ds, tokenize r)" and ds: "ds \<noteq> []"
      "ds @ replicate (3 - length ds) 1 = [y, int mo, int d]" "1 \<le> mo" "mo \<le> 12" "1 \<le> d" "d \<le> 31"
      using es5_date_ref [OF dp] Cons T by auto
    have tr: "tokenize r = TKw KTimeSep 0 1 # tokenize r'"
      using Cons T tokenize_letter(1) [of r'] parse_clock_digit [OF pc] by simp
    obtain tm where tm: "es5_time (tokenize r') = Some (tm, tokenize r2)"
      and tw: "time_write \<lparr>tcomps = tm, hour_offset = None\<rparr> = Some (h, mi, sec, ms)"
      using es5_time_ref [OF pc [unfolded clk] parse_zone_start [OF pz]] by blast
    obtain zc where zc: "es5_zone (tokenize r2) = Some (zc, [])"
      and zw: "tz_write zc = Some (case z of ZUtc \<Rightarrow> Some 0 | ZLocal \<Rightarrow> None | ZOffset m \<Rightarrow> Some (m * 60))"
      using es5_zone_ref [OF pz] by blast
    show ?thesis using e tr tm zc day_write_iso [OF ds] tw zw clk
      by (simp add: v8_parse_def es5_def)
  qed
qed

subsection \<open>The legacy path on the catalog's format\<close>

lemma tokenize_space: "tokenize (CHR '' '' # r) = TWs # tokenize r"
  by (subst tokenize.simps(2), simp add: dec_digit_code word_char_def date_ws_def del: tokenize.simps)

lemma tokenize_pad:
  "v < 10 ^ n \<Longrightarrow> 0 < n \<Longrightarrow> n \<le> 9 \<Longrightarrow> rest = [] \<or> \<not> is_dec_digit (hd rest) \<Longrightarrow>
   tokenize (pad_digits n v @ rest) = TNum v n # tokenize rest"
  by (rule tokenize_fixed_num) (simp_all add: fixed_num_pad)

lemma tokenize_local_datetime:
  assumes "y < 10000" "mo < 100" "d < 100" "h < 100" "mi < 100" "s < 100"
  shows "tokenize (local_datetime y mo d h mi s) =
    [TNum y 4, TSym (CHR ''-''), TNum mo 2, TSym (CHR ''-''), TNum d 2, TWs,
     TNum h 2, TSym (CHR '':''), TNum mi 2, TSym (CHR '':''), TNum s 2]"
proof -
  have "tokenize (pad_digits 2 s) = [TNum s 2]"
    using tokenize_pad [of s 2 "[]"] assms(6) by simp
  then show ?thesis using assms
    by (simp add: local_datetime_def iso_date_def tokenize_pad tokenize_syms tokenize_space del: tokenize.simps)
qed

lemma v8_parse_local_datetime:
  assumes "32 \<le> y" "y < 10000" "1 \<le> mo" "mo \<le> 12" "1 \<le> d" "d \<le> 31" "h \<le> 23" "mi \<le> 59" "s \<le> 59"
  shows "v8_parse (local_datetime y mo d h mi s) =
         Some ((if y \<le> 49 then int y + 2000 else if y \<le> 99 then int y + 1900 else int y, mo, d), (h, mi, s, 0), None)"
proof -
  let ?st = "\<lparr>ld = \<lparr>dcomps = [int y, int mo, int d], named_month = None, dc_iso = False\<rparr>,
              lt = \<lparr>tcomps = [h, mi, s, 0], hour_offset = None\<rparr>, lz = tz_none, has_num = True\<rparr>"
  have e: "es5 (tokenize (local_datetime y mo d h mi s)) =
      ELegacy [TWs, TNum h 2, TSym (CHR '':''), TNum mi 2, TSym (CHR '':''), TNum s 2] [int y, int mo, int d]"
    using assms by (simp add: tokenize_local_datetime es5_def es5_date_def es5_year_def)
  have l: "legacy \<lparr>ld = \<lparr>dcomps = [int y, int mo, int d], named_month = None, dc_iso = False\<rparr>,
              lt = empty_time, lz = tz_none, has_num = True\<rparr>
             [TWs, TNum h 2, TSym (CHR '':''), TNum mi 2, TSym (CHR '':''), TNum s 2] = Some ?st"
    using assms by (simp add: legacy_step_def legacy_num_def skip_sym_def time_add_def time_add_final_def
                              time_expecting_def tz_expecting_def tz_none_def empty_time_def Let_def)
  show ?thesis using assms
    by (simp add: v8_parse_def e l del: legacy.simps) (simp add: day_write_def is_day_def time_write_def tz_write_def tz_none_def Let_def)
qed

subsection \<open>Time values\<close>

lemma v8_time_fields:
  assumes "\<bar>tz\<bar> \<le> ms_per_day"
  shows "v8_time tz ((y, mo, d), (h, mi, sec, ms), case z of ZUtc \<Rightarrow> Some 0 | ZLocal \<Rightarrow> None | ZOffset m \<Rightarrow> Some (m * 60))
         = time_clip (fields_time tz ((y, mo, d), (h, mi, sec, ms), z))"
proof (cases z)
  case ZLocal
  let ?t = "make_day y mo d * ms_per_day + make_time h mi sec ms"
  have "max_time + 864000000 < \<bar>?t\<bar> \<Longrightarrow> time_clip (?t - tz) = InvalidDate"
    using assms by (simp add: time_clip_def max_time_def ms_per_day_def)
  then show ?thesis using ZLocal by (simp add: Let_def)
qed (simp_all add: Let_def mult.commute)

lemma v8_time_local_day:
  assumes "y < 10000" "d \<le> 31" "\<bar>make_time h mi s ms\<bar> \<le> ms_per_day" "\<bar>tz\<bar> \<le> ms_per_day"
  shows "v8_time tz ((int y, mo, d), (h, mi, s, ms), None) =
         TimeVal (make_day (int y) mo d * ms_per_day + make_time h mi s ms - tz)"
proof -
  let ?t = "make_day (int y) mo d * ms_per_day + make_time h mi s ms"
  have "time_clip ?t = TimeVal ?t" using assms by (intro time_clip_day) simp_all
  then have "\<not> max_time + 864000000 < \<bar>?t\<bar>" by (simp add: time_clip_def max_time_def split: if_splits)
  moreover have "time_clip (make_day (int y) mo d * ms_per_day + (make_time h mi s ms - tz))
                 = TimeVal (make_day (int y) mo d * ms_per_day + (make_time h mi s ms - tz))"
    using assms by (intro time_clip_day) simp_all
  ultimately show ?thesis by (simp add: Let_def add_diff_eq)
qed

text \<open>
  C30. For every string of the ECMAScript Date Time String Format, V8's parser
  (the tokenizer, \<open>ParseES5DateTime\<close> and the composers) yields the time value
  of the format's fields: \<open>new Date(s)\<close> implements the format's meaning.
\<close>

theorem date_parse_refines_format:
  assumes "parse_date_string s = Some f" and "\<bar>tz\<bar> \<le> ms_per_day"
  shows "date_parse tz s = time_clip (fields_time tz f)"
proof -
  obtain y mo d h mi sec ms z where f: "f = ((y, mo, d), (h, mi, sec, ms), z)" by (cases f) auto
  show ?thesis using v8_parse_ref [OF assms(1) [unfolded f]] v8_time_fields [OF assms(2)] f
    by (simp add: date_parse_def)
qed

theorem date_parse_refines_format_witness:
  "parse_date_string ''2014-05-21T10:00:00.250+02:00'' = Some ((2014, 5, 21), (10, 0, 0, 250), ZOffset 120) \<and>
   date_parse 3600000 ''2014-05-21T10:00:00.250+02:00'' = TimeVal 1400659200250"
proof -
  have p: "parse_date_string ''2014-05-21T10:00:00.250+02:00'' = Some ((2014, 5, 21), (10, 0, 0, 250), ZOffset 120)"
    by code_simp
  have "\<bar>3600000 :: int\<bar> \<le> ms_per_day" by (simp add: ms_per_day_def)
  from date_parse_refines_format [OF p this] p show ?thesis
    by (simp add: time_clip_def make_day_def day_from_year_def month_start_def leap_year_def ms_per_day_def make_time_def)
qed

text \<open>
  C31. A catalog string \<open>YYYY-MM-DD HH:mm:ss\<close> is not of the ECMAScript format
  (it has a space for \<open>T\<close>), so V8 reads it with its legacy parser, whose day
  composer moves a two-digit year: the string of a year \<open>y\<close> from 32 to 49 is read
  as the string of year \<open>y + 2000\<close>, and of a year from 50 to 99 as that of \<open>y + 1900\<close>.
\<close>

theorem legacy_two_digit_year:
  assumes "32 \<le> y" "y \<le> 99" "1 \<le> mo" "mo \<le> 12" "1 \<le> d" "d \<le> 31" "h \<le> 23" "mi \<le> 59" "s \<le> 59"
  shows "date_parse tz (local_datetime y mo d h mi s) =
         date_parse tz (local_datetime (y + (if y \<le> 49 then 2000 else 1900)) mo d h mi s)"
proof -
  let ?y = "y + (if y \<le> 49 then 2000 else 1900)"
  have "v8_parse (local_datetime ?y mo d h mi s) = Some ((int ?y, mo, d), (h, mi, s, 0), None)"
    using v8_parse_local_datetime [of ?y mo d h mi s] assms by auto
  moreover have "v8_parse (local_datetime y mo d h mi s) = Some ((int ?y, mo, d), (h, mi, s, 0), None)"
    using v8_parse_local_datetime [of y mo d h mi s] assms by auto
  ultimately show ?thesis by (simp add: date_parse_def)
qed

theorem legacy_two_digit_year_witness:
  "date_parse 0 (local_datetime 50 1 1 0 0 0) = date_parse 0 (local_datetime 1950 1 1 0 0 0)"
  using legacy_two_digit_year [of 50 1 1 0 0 0 0] by simp

end
