(* ===== verification/MedalRow.thy ===== *)
theory MedalRow
  imports JsNumber DateParser
begin

text \<open>
  The body of the loop of \<open>getMedals\<close> (\<open>src/models/Server.js\<close>, lines 94 to 114):
  the array \<open>val\<close> of the 19 query parameters built from one catalog record \<open>m\<close>.
  The elements are evaluated left to right; the first, \<open>parseInt(m.MedalID)\<close>,
  reads a property of \<open>m\<close>, which throws a \<open>TypeError\<close> when \<open>m\<close> is \<open>null\<close>; once
  that read succeeds no later read can throw, and none of the conversions
  (\<open>parseInt\<close>, \<open>parseFloat\<close>, \<open>Boolean\<close>, \<open>new Date\<close>) throws on a JSON value.
  A parameter is a JavaScript value or a \<open>Date\<close> object.
\<close>

datatype param = PVal jsv | PDate jsdate

text \<open>A property read on an object that is known not to be nullish.\<close>

definition get_field :: "jsv \<Rightarrow> string \<Rightarrow> jsv" where
  "get_field m p = (case get_prop m p of Inr v \<Rightarrow> v | Inl _ \<Rightarrow> VUndefined)"

definition medal_values :: "int \<Rightarrow> jsv \<Rightarrow> js_error + param list" where
  "medal_values tz m =
     (case get_prop m ''MedalID'' of
        Inl e \<Rightarrow> Inl e
      | Inr medalID \<Rightarrow> Inr
         [PVal (VNum (js_parseInt medalID)),
          PVal (get_field m ''Name''),
          PVal (get_field m ''Link''),
          PVal (get_field m ''Description''),
          PVal (get_field m ''Restriction''),
          PVal (get_field m ''Grouping''),
          PVal (get_field m ''Instructions''),
          PVal (VBool (to_boolean (get_field m ''SolutionFound''))),
          PVal (get_field m ''Solution''),
          PVal (get_field m ''Mods''),
          PVal (VBool (to_boolean (get_field m ''Locked''))),
          PVal (get_field m ''Video''),
          PDate (new_date tz (get_field m ''Date'')),
          PVal (get_field m ''PackId''),
          PDate (new_date tz (get_field m ''FirstAchievedDate'')),
          PVal (get_field m ''FirstAchievedBy''),
          PVal (VNum (js_parseInt (get_field m ''ModeOrder''))),
          PVal (VNum (js_parseInt (get_field m ''Ordering''))),
          PVal (VNum (js_parseFloat (get_field m ''Rarity'')))])"

definition nullish :: "jsv \<Rightarrow> bool" where
  "nullish v \<longleftrightarrow> v = VNull \<or> v = VUndefined"

section \<open>Lemmas\<close>

lemma get_prop_get_field: "\<not> nullish m \<Longrightarrow> get_prop m p = Inr (get_field m p)"
  by (cases m) (auto simp: nullish_def get_field_def)

lemma get_field_VObj [simp]:
  "get_field (VObj kvs) p = (case map_of (rev kvs) p of Some v \<Rightarrow> v | None \<Rightarrow> VUndefined)"
  by (simp add: get_field_def)

lemma medal_values_Inr:
  "\<not> nullish m \<Longrightarrow> medal_values tz m = Inr
         [PVal (VNum (js_parseInt (get_field m ''MedalID''))),
          PVal (get_field m ''Name''), PVal (get_field m ''Link''), PVal (get_field m ''Description''),
          PVal (get_field m ''Restriction''), PVal (get_field m ''Grouping''), PVal (get_field m ''Instructions''),
          PVal (VBool (to_boolean (get_field m ''SolutionFound''))), PVal (get_field m ''Solution''),
          PVal (get_field m ''Mods''), PVal (VBool (to_boolean (get_field m ''Locked''))), PVal (get_field m ''Video''),
          PDate (new_date tz (get_field m ''Date'')), PVal (get_field m ''PackId''),
          PDate (new_date tz (get_field m ''FirstAchievedDate'')), PVal (get_field m ''FirstAchievedBy''),
          PVal (VNum (js_parseInt (get_field m ''ModeOrder''))), PVal (VNum (js_parseInt (get_field m ''Ordering''))),
          PVal (VNum (js_parseFloat (get_field m ''Rarity'')))]"
  by (simp add: medal_values_def get_prop_get_field)

lemma medal_values_length: "medal_values tz m = Inr ps \<Longrightarrow> length ps = 19"
  by (auto simp: medal_values_def split: sum.splits)

end
