(* ===== verification/SqlSink.thy ===== *)
theory SqlSink
  imports MedalRow
begin

text \<open>
  The relational sink of \<open>getMedals\<close>: \<open>this.mysqldb.query(sql, val)\<close> on the
  promise pool created in \<open>database()\<close> (\<open>src/models/Server.js\<close>, lines 43 to 51,
  83 to 92 and 115). The driver (mysql2) is not part of the repository; it is
  modelled from its documented behaviour: \<open>query\<close> formats the statement on the
  client, replacing each \<open>?\<close> by the escaped parameter, and the server runs
  \<open>REPLACE INTO medals SET ...\<close>, which deletes the row with the same primary key
  (\<open>medal_id\<close>) and inserts the new one.

  Escaping (the \<open>sqlstring\<close> rules): \<open>undefined\<close> and \<open>null\<close> are \<open>NULL\<close>; booleans
  are \<open>true\<close>/\<open>false\<close>; a number is its \<open>ToString\<close>, so \<open>NaN\<close> and \<open>Infinity\<close>
  reach the server as bare words that it reads as unknown columns; a string is
  quoted; a \<open>Date\<close> is its local date-time \<open>'YYYY-MM-DD HH:MM:SS.mmm'\<close>, an invalid
  one \<open>NULL\<close>; an array is the list of its elements, which is a single value only
  for a one-element array (objects inside it are stringified). A top-level object
  is rendered as a list of assignments; its meaning depends on the table's other
  columns, so the model rejects it, as it rejects the multi-value lists.

  A stored date-time is kept as the local wall-clock time in milliseconds
  (\<open>t + tz\<close>), from which the driver prints the literal. The table is the map
  from primary key to the row of the 19 column values.
\<close>

datatype sql_value = SqlNull | SqlBool bool | SqlNum int int | SqlStr string | SqlDateTime int

datatype sql_error = UnknownColumn string | SqlSyntax | BadKey

type_synonym medal_table = "int \<rightharpoonup> sql_value list"

definition medal_columns :: "string list" where
  "medal_columns =
     [''medal_id'', ''name'', ''link'', ''description'', ''restriction'', ''category'',
      ''instructions'', ''solution_found'', ''solution'', ''mods'', ''locked'', ''video'',
      ''date'', ''pack_id'', ''first_achieved_date'', ''first_achieved_by'', ''mode_order'',
      ''ordering'', ''rarity'']"

definition column :: "string \<Rightarrow> sql_value list \<Rightarrow> sql_value option" where
  "column c row = map_of (zip medal_columns row) c"

text \<open>\<open>SqlString.escape(val, stringifyObjects)\<close> of a JavaScript value.\<close>

fun escape_jsv :: "bool \<Rightarrow> jsv \<Rightarrow> sql_error + sql_value" where
  "escape_jsv so VUndefined = Inr SqlNull"
| "escape_jsv so VNull = Inr SqlNull"
| "escape_jsv so (VBool b) = Inr (SqlBool b)"
| "escape_jsv so (VNum (Fin m e)) = Inr (SqlNum m e)"
| "escape_jsv so (VNum NaN) = Inl (UnknownColumn ''NaN'')"
| "escape_jsv so (VNum PosInf) = Inl (UnknownColumn ''Infinity'')"
| "escape_jsv so (VNum NegInf) = Inl (UnknownColumn ''Infinity'')"
| "escape_jsv so (VStr s) = Inr (SqlStr s)"
| "escape_jsv so (VArr [x]) = escape_jsv True x"
| "escape_jsv so (VArr xs) = Inl SqlSyntax"
| "escape_jsv so (VObj kvs) = (if so then Inr (SqlStr ''[object Object]'') else Inl SqlSyntax)"

text \<open>A \<open>Date\<close> parameter: \<open>SqlString.dateToString(date, 'local')\<close>.\<close>

fun escape_param :: "int \<Rightarrow> param \<Rightarrow> sql_error + sql_value" where
  "escape_param tz (PVal v) = escape_jsv False v"
| "escape_param tz (PDate InvalidDate) = Inr SqlNull"
| "escape_param tz (PDate (TimeVal t)) = Inr (SqlDateTime (t + tz))"

fun escape_all :: "int \<Rightarrow> param list \<Rightarrow> sql_error + sql_value list" where
  "escape_all tz [] = Inr []"
| "escape_all tz (p # ps) =
     (case escape_param tz p of
        Inl e \<Rightarrow> Inl e
      | Inr v \<Rightarrow> (case escape_all tz ps of Inl e \<Rightarrow> Inl e | Inr vs \<Rightarrow> Inr (v # vs)))"

text \<open>\<open>REPLACE INTO medals SET medal_id=?, ...\<close>: the row replaces the one with its key.\<close>

definition row_key :: "sql_value list \<Rightarrow> int option" where
  "row_key row = (case row of SqlNum m e # _ \<Rightarrow> if 0 \<le> e then Some (m * 10 ^ nat e) else None | _ \<Rightarrow> None)"

definition replace_into :: "medal_table \<Rightarrow> sql_value list \<Rightarrow> sql_error + medal_table" where
  "replace_into t row = (case row_key row of Some k \<Rightarrow> Inr (t(k \<mapsto> row)) | None \<Rightarrow> Inl BadKey)"

text \<open>One query of the pool: the statement with the parameters of one record.\<close>

definition exec_query :: "int \<Rightarrow> medal_table \<Rightarrow> param list \<Rightarrow> sql_error + medal_table" where
  "exec_query tz t ps = (case escape_all tz ps of Inl e \<Rightarrow> Inl e | Inr row \<Rightarrow> replace_into t row)"

text \<open>The table after a query: unchanged when the query fails.\<close>

definition apply_query :: "int \<Rightarrow> medal_table \<Rightarrow> param list \<Rightarrow> medal_table" where
  "apply_query tz t ps = (case exec_query tz t ps of Inl _ \<Rightarrow> t | Inr t' \<Rightarrow> t')"

text \<open>The row a query writes, and under which key, when it succeeds.\<close>

definition query_row :: "int \<Rightarrow> param list \<Rightarrow> (int \<times> sql_value list) option" where
  "query_row tz ps =
     (case escape_all tz ps of
        Inl _ \<Rightarrow> None
      | Inr row \<Rightarrow> (case row_key row of Some k \<Rightarrow> Some (k, row) | None \<Rightarrow> None))"

section \<open>The table's column types\<close>

text \<open>
  The column types of the data model: \<open>medal_id\<close>, \<open>mode_order\<close> and
  \<open>ordering\<close> are integers, \<open>rarity\<close> a number, the two flags booleans, the two
  dates date-times (\<open>NULL\<close> for an invalid date), the other columns any value
  (they are passed as they come).
\<close>

datatype col_type = TInt | TFloat | TBool | TDateTime | TAny

fun has_type :: "col_type \<Rightarrow> sql_value \<Rightarrow> bool" where
  "has_type TInt (SqlNum m e) = (0 \<le> e)"
| "has_type TFloat (SqlNum m e) = True"
| "has_type TBool (SqlBool b) = True"
| "has_type TDateTime (SqlDateTime t) = True"
| "has_type TDateTime SqlNull = True"
| "has_type TAny v = True"
| "has_type _ _ = False"

definition medal_schema :: "col_type list" where
  "medal_schema =
     [TInt, TAny, TAny, TAny, TAny, TAny, TAny, TBool, TAny, TAny, TBool, TAny,
      TDateTime, TAny, TDateTime, TAny, TInt, TInt, TFloat]"

definition row_typed :: "sql_value list \<Rightarrow> bool" where
  "row_typed row \<longleftrightarrow> list_all2 has_type medal_schema row"

definition table_typed :: "medal_table \<Rightarrow> bool" where
  "table_typed t \<longleftrightarrow> (\<forall>k row. t k = Some row \<longrightarrow> row_typed row)"

text \<open>
  The parameters a query can carry into a column of each type: an integer
  column gets a number that is \<open>NaN\<close> or integral (what \<open>parseInt\<close>
  returns), a boolean column a boolean, a date column a \<open>Date\<close>.
\<close>

fun param_fits :: "col_type \<Rightarrow> param \<Rightarrow> bool" where
  "param_fits TInt (PVal (VNum n)) = (case n of Fin m e \<Rightarrow> 0 \<le> e | _ \<Rightarrow> True)"
| "param_fits TFloat (PVal (VNum n)) = True"
| "param_fits TBool (PVal (VBool b)) = True"
| "param_fits TDateTime (PDate d) = True"
| "param_fits TAny p = True"
| "param_fits _ _ = False"

definition params_typed :: "param list \<Rightarrow> bool" where
  "params_typed ps \<longleftrightarrow> list_all2 param_fits medal_schema ps"

section \<open>Lemmas\<close>

lemma exec_query_row:
  "exec_query tz t ps = (case query_row tz ps of Some (k, row) \<Rightarrow> Inr (t(k \<mapsto> row)) | None \<Rightarrow> Inl (case escape_all tz ps of Inl e \<Rightarrow> e | Inr _ \<Rightarrow> BadKey))"
  by (auto simp: exec_query_def query_row_def replace_into_def split: sum.splits option.splits)

lemma apply_query_row:
  "apply_query tz t ps = (case query_row tz ps of Some (k, row) \<Rightarrow> t(k \<mapsto> row) | None \<Rightarrow> t)"
  by (auto simp: apply_query_def exec_query_row split: option.splits)

lemma apply_query_map_add:
  "apply_query tz t ps = t ++ (case query_row tz ps of Some (k, row) \<Rightarrow> [k \<mapsto> row] | None \<Rightarrow> Map.empty)"
  by (auto simp: apply_query_row split: option.splits)

lemma escape_all_length: "escape_all tz ps = Inr row \<Longrightarrow> length row = length ps"
  by (induction ps arbitrary: row) (auto split: sum.splits)

lemma escape_all_nth:
  "escape_all tz ps = Inr row \<Longrightarrow> i < length ps \<Longrightarrow> escape_param tz (ps ! i) = Inr (row ! i)"
proof (induction ps arbitrary: row i)
  case Nil
  then show ?case by simp
next
  case (Cons p ps)
  then show ?case by (cases i) (auto split: sum.splits)
qed

lemma row_key_int_num: "int_num k = Fin a b \<Longrightarrow> row_key (SqlNum a b # rest) = Some k"
  using int_num_Fin [of k a b] by (simp add: row_key_def)

lemma escape_jsv_num_Inr: "escape_jsv so (VNum n) = Inr v \<Longrightarrow> \<exists>a b. n = Fin a b \<and> v = SqlNum a b"
  by (cases n) auto

lemma distinct_medal_columns: "distinct medal_columns"
  by (simp add: medal_columns_def)

lemma column_nth:
  "length row = 19 \<Longrightarrow> i < 19 \<Longrightarrow> column (medal_columns ! i) row = Some (row ! i)"
  unfolding column_def
  by (rule map_of_zip_nth) (simp_all add: medal_columns_def distinct_medal_columns)

lemma medal_values_column:
  assumes "medal_values tz m = Inr ps" and "escape_all tz ps = Inr row" and "i < 19"
  shows "escape_param tz (ps ! i) = Inr (row ! i) \<and> column (medal_columns ! i) row = Some (row ! i)"
proof -
  have "length ps = 19" using assms(1) by (rule medal_values_length)
  moreover have "length row = length ps" using assms(2) by (rule escape_all_length)
  ultimately show ?thesis using assms escape_all_nth column_nth by simp
qed

lemma escape_param_date: "escape_param tz (PDate d) = Inr v \<Longrightarrow> has_type TDateTime v"
  by (cases d) auto

lemma escape_param_typed: "param_fits ty p \<Longrightarrow> escape_param tz p = Inr v \<Longrightarrow> has_type ty v"
  by (induction ty p rule: param_fits.induct)
     (auto split: jsnum.splits dest: escape_jsv_num_Inr escape_param_date)

lemma escape_all_typed:
  "list_all2 param_fits tys ps \<Longrightarrow> escape_all tz ps = Inr row \<Longrightarrow> list_all2 has_type tys row"
proof (induction tys ps arbitrary: row rule: list_all2_induct)
  case Nil
  then show ?case by simp
next
  case (Cons ty tys p ps)
  then show ?case by (auto split: sum.splits intro: escape_param_typed)
qed

lemma js_parseInt_integral: "case js_parseInt v of Fin m e \<Rightarrow> 0 \<le> e | _ \<Rightarrow> True"
  using parse_int_cases [of "to_string v"]
  by (auto simp: js_parseInt_def dest: int_num_Fin split: jsnum.splits)

lemma medal_values_typed: "medal_values tz m = Inr ps \<Longrightarrow> params_typed ps"
  by (auto simp: medal_values_def params_typed_def medal_schema_def js_parseInt_integral split: sum.splits)

lemma exec_query_typed:
  "exec_query tz t q = Inr t' \<Longrightarrow> params_typed q \<Longrightarrow> table_typed t \<Longrightarrow> table_typed t'"
  by (auto simp: exec_query_def replace_into_def table_typed_def params_typed_def row_typed_def
           dest: escape_all_typed split: sum.splits option.splits if_splits)

section \<open>Properties of the stored row\<close>

text \<open>
  C8. Coercion by truthiness: \<open>Boolean(m.Locked)\<close> is true for every non-empty
  string, \<open>"0"\<close> included, so a medal whose \<open>Locked\<close> flag arrives as any string
  is stored with \<open>locked = true\<close>.
\<close>

theorem locked_string_stored_true:
  assumes "medal_values tz m = Inr ps" and "escape_all tz ps = Inr row"
      and "get_field m ''Locked'' = VStr s" and "s \<noteq> []"
  shows "column ''locked'' row = Some (SqlBool True)"
proof -
  have "escape_param tz (ps ! 10) = Inr (row ! 10)" and col: "column (medal_columns ! 10) row = Some (row ! 10)"
    using medal_values_column [OF assms(1,2), of 10] by simp_all
  moreover have "ps ! 10 = PVal (VBool True)"
    using assms(1,3,4) by (auto simp: medal_values_def split: sum.splits)
  ultimately have "row ! 10 = SqlBool True" by simp
  with col show ?thesis by (simp add: medal_columns_def)
qed

theorem locked_string_stored_true_witness:
  "column ''locked''
     (projr (escape_all 0 (projr (medal_values 0 (VObj [(''MedalID'', VStr ''1''), (''Locked'', VStr ''0''),
        (''ModeOrder'', VStr ''1''), (''Ordering'', VStr ''1''), (''Rarity'', VStr ''0.5'')]))))) = Some (SqlBool True)"
proof -
  let ?m = "VObj [(''MedalID'', VStr ''1''), (''Locked'', VStr ''0''), (''ModeOrder'', VStr ''1''),
                  (''Ordering'', VStr ''1''), (''Rarity'', VStr ''0.5'')]"
  have "\<not> isl (medal_values 0 ?m)" by code_simp
  then obtain ps where ps: "medal_values 0 ?m = Inr ps" by (cases "medal_values 0 ?m") auto
  have "\<not> isl (escape_all 0 (projr (medal_values 0 ?m)))" by code_simp
  then have "\<not> isl (escape_all 0 ps)" using ps by simp
  then obtain row where row: "escape_all 0 ps = Inr row" by (cases "escape_all 0 ps") auto
  have "get_field ?m ''Locked'' = VStr ''0''" by simp
  from locked_string_stored_true [OF ps row this] ps row show ?thesis by simp
qed

text \<open>
  C9. A \<open>null\<close> \<open>FirstAchievedDate\<close> (a medal nobody has achieved yet) becomes
  \<open>new Date(null)\<close>, the epoch, and is stored as the local date-time of the epoch
  instead of \<open>NULL\<close>.
\<close>

theorem null_date_stored_epoch:
  assumes "medal_values tz m = Inr ps" and "escape_all tz ps = Inr row"
      and "get_field m ''FirstAchievedDate'' = VNull"
  shows "column ''first_achieved_date'' row = Some (SqlDateTime tz)"
proof -
  have "escape_param tz (ps ! 14) = Inr (row ! 14)" and col: "column (medal_columns ! 14) row = Some (row ! 14)"
    using medal_values_column [OF assms(1,2), of 14] by simp_all
  moreover have "ps ! 14 = PDate (TimeVal 0)"
    using assms(1,3) by (auto simp: medal_values_def split: sum.splits)
  ultimately have "row ! 14 = SqlDateTime tz" by simp
  with col show ?thesis by (simp add: medal_columns_def)
qed

theorem null_date_stored_epoch_witness:
  "column ''first_achieved_date''
     (projr (escape_all 3600000 (projr (medal_values 3600000 (VObj [(''MedalID'', VStr ''1''),
        (''FirstAchievedDate'', VNull), (''ModeOrder'', VStr ''1''), (''Ordering'', VStr ''1''),
        (''Rarity'', VStr ''0.5'')]))))) = Some (SqlDateTime 3600000)"
proof -
  let ?m = "VObj [(''MedalID'', VStr ''1''), (''FirstAchievedDate'', VNull), (''ModeOrder'', VStr ''1''),
                  (''Ordering'', VStr ''1''), (''Rarity'', VStr ''0.5'')]"
  have "\<not> isl (medal_values 3600000 ?m)" by code_simp
  then obtain ps where ps: "medal_values 3600000 ?m = Inr ps" by (cases "medal_values 3600000 ?m") auto
  have "\<not> isl (escape_all 3600000 (projr (medal_values 3600000 ?m)))" by code_simp
  then have "\<not> isl (escape_all 3600000 ps)" using ps by simp
  then obtain row where row: "escape_all 3600000 ps = Inr row" by (cases "escape_all 3600000 ps") auto
  have "get_field ?m ''FirstAchievedDate'' = VNull" by simp
  from null_date_stored_epoch [OF ps row this] ps row show ?thesis by simp
qed

text \<open>
  C12. A date-only \<open>Date\<close> string \<open>YYYY-MM-DD\<close> is read as UTC midnight by
  \<open>new Date\<close>, and the driver writes the local wall clock: the stored
  \<open>date\<close> is midnight shifted by the server's offset \<open>tz\<close>.
\<close>

theorem date_only_stored_shifted:
  assumes "medal_values tz m = Inr ps" and "escape_all tz ps = Inr row"
      and "get_field m ''Date'' = VStr (iso_date y mo d)"
      and "y < 10000" "1 \<le> mo" "mo \<le> 12" "1 \<le> d" "d \<le> 31"
  shows "column ''date'' row = Some (SqlDateTime (make_day (int y) mo d * ms_per_day + tz))"
proof -
  have "escape_param tz (ps ! 12) = Inr (row ! 12)" and col: "column (medal_columns ! 12) row = Some (row ! 12)"
    using medal_values_column [OF assms(1,2), of 12] by simp_all
  moreover have "ps ! 12 = PDate (new_date tz (VStr (iso_date y mo d)))"
    using assms(1,3) by (auto simp: medal_values_def split: sum.splits)
  moreover have "new_date tz (VStr (iso_date y mo d)) = TimeVal (make_day (int y) mo d * ms_per_day)"
    using assms(4-8) time_clip_day [of y d 0 mo] v8_parse_ref [OF parse_date_string_iso_date [OF assms(4-8)]]
    by (simp add: date_parse_def make_time_def ms_per_day_def)
  ultimately have "row ! 12 = SqlDateTime (make_day (int y) mo d * ms_per_day + tz)" by simp
  with col show ?thesis by (simp add: medal_columns_def)
qed

theorem date_only_stored_shifted_witness:
  "column ''date''
     (projr (escape_all (-18000000) (projr (medal_values (-18000000) (VObj [(''MedalID'', VStr ''1''),
        (''Date'', VStr ''2014-05-21''), (''ModeOrder'', VStr ''1''), (''Ordering'', VStr ''1''),
        (''Rarity'', VStr ''0.5'')]))))) = Some (SqlDateTime 1400612400000)"
proof -
  let ?m = "VObj [(''MedalID'', VStr ''1''), (''Date'', VStr ''2014-05-21''), (''ModeOrder'', VStr ''1''),
                  (''Ordering'', VStr ''1''), (''Rarity'', VStr ''0.5'')]"
  have "\<not> isl (medal_values (-18000000) ?m)" by code_simp
  then obtain ps where ps: "medal_values (-18000000) ?m = Inr ps" by (cases "medal_values (-18000000) ?m") auto
  have "\<not> isl (escape_all (-18000000) (projr (medal_values (-18000000) ?m)))" by code_simp
  then have "\<not> isl (escape_all (-18000000) ps)" using ps by simp
  then obtain row where row: "escape_all (-18000000) ps = Inr row" by (cases "escape_all (-18000000) ps") auto
  have "iso_date 2014 5 21 = ''2014-05-21''" by code_simp
  then have "get_field ?m ''Date'' = VStr (iso_date 2014 5 21)" by simp
  from date_only_stored_shifted [OF ps row this] ps row show ?thesis
    by (simp add: make_day_def day_from_year_def month_start_def leap_year_def ms_per_day_def)
qed

text \<open>
  C13. A \<open>FirstAchievedDate\<close> string \<open>YYYY-MM-DD HH:mm:ss\<close> (the catalog's
  format) is read as local time and written back as local time: the stored
  \<open>first_achieved_date\<close> is the wall clock of the string, whatever the offset
  \<open>tz\<close> (for a year from 100 on: V8 moves a smaller year, see C31).
\<close>

theorem local_datetime_stored_exact:
  assumes "medal_values tz m = Inr ps" and "escape_all tz ps = Inr row"
      and "get_field m ''FirstAchievedDate'' = VStr (local_datetime y mo d h mi s)"
      and "100 \<le> y" "y < 10000" "1 \<le> mo" "mo \<le> 12" "1 \<le> d" "d \<le> 31" "h \<le> 23" "mi \<le> 59" "s \<le> 59"
      and "\<bar>tz\<bar> \<le> ms_per_day"
  shows "column ''first_achieved_date'' row
         = Some (SqlDateTime (make_day (int y) mo d * ms_per_day + make_time h mi s 0))"
proof -
  have "escape_param tz (ps ! 14) = Inr (row ! 14)" and col: "column (medal_columns ! 14) row = Some (row ! 14)"
    using medal_values_column [OF assms(1,2), of 14] by simp_all
  moreover have "ps ! 14 = PDate (new_date tz (VStr (local_datetime y mo d h mi s)))"
    using assms(1,3) by (auto simp: medal_values_def split: sum.splits)
  moreover have "new_date tz (VStr (local_datetime y mo d h mi s))
                 = TimeVal (make_day (int y) mo d * ms_per_day + make_time h mi s 0 - tz)"
  proof -
    have "\<bar>make_time h mi s 0\<bar> \<le> ms_per_day" using make_time_day [OF assms(10-12)] by simp
    then have "v8_time tz ((int y, mo, d), (h, mi, s, 0), None)
               = TimeVal (make_day (int y) mo d * ms_per_day + make_time h mi s 0 - tz)"
      using assms(5,9,13) by (intro v8_time_local_day) simp_all
    then show ?thesis using v8_parse_local_datetime [OF _ assms(5-12)] assms(4)
      by (simp add: date_parse_def)
  qed
  ultimately have "row ! 14 = SqlDateTime (make_day (int y) mo d * ms_per_day + make_time h mi s 0)" by simp
  with col show ?thesis by (simp add: medal_columns_def)
qed

theorem local_datetime_stored_exact_witness:
  "column ''first_achieved_date''
     (projr (escape_all 3600000 (projr (medal_values 3600000 (VObj [(''MedalID'', VStr ''1''),
        (''FirstAchievedDate'', VStr ''2014-05-21 10:00:00''), (''ModeOrder'', VStr ''1''),
        (''Ordering'', VStr ''1''), (''Rarity'', VStr ''0.5'')]))))) = Some (SqlDateTime 1400666400000)"
proof -
  let ?m = "VObj [(''MedalID'', VStr ''1''), (''FirstAchievedDate'', VStr ''2014-05-21 10:00:00''),
                  (''ModeOrder'', VStr ''1''), (''Ordering'', VStr ''1''), (''Rarity'', VStr ''0.5'')]"
  have "\<not> isl (medal_values 3600000 ?m)" by code_simp
  then obtain ps where ps: "medal_values 3600000 ?m = Inr ps" by (cases "medal_values 3600000 ?m") auto
  have "\<not> isl (escape_all 3600000 (projr (medal_values 3600000 ?m)))" by code_simp
  then have "\<not> isl (escape_all 3600000 ps)" using ps by simp
  then obtain row where row: "escape_all 3600000 ps = Inr row" by (cases "escape_all 3600000 ps") auto
  have "local_datetime 2014 5 21 10 0 0 = ''2014-05-21 10:00:00''" by code_simp
  then have "get_field ?m ''FirstAchievedDate'' = VStr (local_datetime 2014 5 21 10 0 0)" by simp
  moreover have "\<bar>3600000 :: int\<bar> \<le> ms_per_day" by (simp add: ms_per_day_def)
  ultimately show ?thesis using local_datetime_stored_exact [OF ps row] ps row
    by (simp add: make_day_def day_from_year_def month_start_def leap_year_def ms_per_day_def make_time_def)
qed

end
