(* ===== verification/Json.thy ===== *)
theory Json
  imports JsNumber
begin

text \<open>
  JSON text (ECMA-404) as the program meets it: \<open>result.json()\<close> in \<open>getMedals\<close>
  (\<open>src/models/Server.js\<close>, line 82) decodes the catalog with \<open>JSON.parse\<close>,
  \<open>express.json()\<close> (line 20) decodes request bodies, and \<open>res.send(object)\<close>
  (line 28) encodes the health message with \<open>JSON.stringify\<close>. These are library
  functions; they are modelled from ECMA-262 (25.5.1 and 25.5.2).

  Strings are byte strings: a JavaScript string is represented by its UTF-8
  encoding, so raw bytes of the text pass through, and an escape \<open>\u\<close>\<open>XXXX\<close>
  becomes the UTF-8 bytes of its code point (a surrogate pair the bytes of the
  combined one). A number literal denotes its exact decimal value, read as
  \<open>parseFloat\<close> reads it. Objects keep their members in text order, duplicates
  included (the lookup of \<open>MedalRow\<close> takes the last).

  The value parser is a recursive descent over the grammar \<open>value\<close>, \<open>elements\<close>,
  \<open>members\<close>, with fuel: each call spends one unit. \<open>json_parse\<close> gives it one unit
  more than twice the length of the text, which the lemmas below show is always enough:
  a parse that succeeds with some fuel succeeds with that much, with the same result.
\<close>

abbreviation dq :: char where
  "dq \<equiv> CHR 0x22"

abbreviation bsl :: char where
  "bsl \<equiv> CHR 0x5C"

definition json_ws :: "char \<Rightarrow> bool" where
  "json_ws c \<longleftrightarrow> c = CHR '' '' \<or> c = CHR 0x09 \<or> c = CHR 0x0A \<or> c = CHR 0x0D"

definition skip_ws :: "string \<Rightarrow> string" where
  "skip_ws s = dropWhile json_ws s"

section \<open>Numbers\<close>

text \<open>\<open>int\<close>: a single \<open>0\<close> or a digit run without leading zero.\<close>

definition lex_int :: "string \<Rightarrow> (string \<times> string) option" where
  "lex_int s =
     (case s of
        [] \<Rightarrow> None
      | c # r \<Rightarrow>
          if c = CHR ''0'' then Some ([c], r)
          else if is_dec_digit c then Some (takeWhile is_dec_digit s, dropWhile is_dec_digit s)
          else None)"

definition lex_digits1 :: "string \<Rightarrow> (string \<times> string) option" where
  "lex_digits1 s =
     (let ds = takeWhile is_dec_digit s in if ds = [] then None else Some (ds, dropWhile is_dec_digit s))"

definition lex_frac :: "string \<Rightarrow> (string \<times> string) option" where
  "lex_frac s =
     (case s of
        c # r \<Rightarrow> if c = CHR ''.'' then map_option (\<lambda>(ds, r'). (c # ds, r')) (lex_digits1 r) else Some ([], s)
      | [] \<Rightarrow> Some ([], []))"

definition lex_exp :: "string \<Rightarrow> (string \<times> string) option" where
  "lex_exp s =
     (case s of
        c # r \<Rightarrow>
          if c = CHR ''e'' \<or> c = CHR ''E'' then
            (case (case r of x # r' \<Rightarrow> if x = CHR ''+'' \<or> x = CHR ''-'' then ([x], r') else ([], r) | [] \<Rightarrow> ([], [])) of
               (sg, r') \<Rightarrow> map_option (\<lambda>(ds, r''). (c # sg @ ds, r'')) (lex_digits1 r'))
          else Some ([], s)
      | [] \<Rightarrow> Some ([], []))"

text \<open>A number token: \<open>-\<close>? \<open>int\<close> \<open>frac\<close>? \<open>exp\<close>?, and the rest of the text.\<close>

definition lex_number :: "string \<Rightarrow> (string \<times> string) option" where
  "lex_number s = do {
     (sg, s1) \<leftarrow> Some (case s of c # r \<Rightarrow> if c = CHR ''-'' then ([c], r) else ([], s) | [] \<Rightarrow> ([], []));
     (i, s2) \<leftarrow> lex_int s1;
     (f, s3) \<leftarrow> lex_frac s2;
     (e, s4) \<leftarrow> lex_exp s3;
     Some (sg @ i @ f @ e, s4)
   }"

section \<open>Strings\<close>

definition simple_escape :: "char \<Rightarrow> char option" where
  "simple_escape e =
     (if e = dq then Some dq else if e = bsl then Some bsl else if e = CHR ''/'' then Some (CHR ''/'')
      else if e = CHR ''b'' then Some (CHR 0x08) else if e = CHR ''f'' then Some (CHR 0x0C)
      else if e = CHR ''n'' then Some (CHR 0x0A) else if e = CHR ''r'' then Some (CHR 0x0D)
      else if e = CHR ''t'' then Some (CHR 0x09) else None)"

definition hex4 :: "string \<Rightarrow> nat option" where
  "hex4 s = (let h = take 4 s in if length h = 4 \<and> list_all (is_radix_digit 16) h then Some (digits_value 16 h) else None)"

definition utf8_encode :: "nat \<Rightarrow> string" where
  "utf8_encode cp =
     map char_of
       (if cp < 0x80 then [cp]
        else if cp < 0x800 then [0xC0 + cp div 64, 0x80 + cp mod 64]
        else if cp < 0x10000 then [0xE0 + cp div 4096, 0x80 + cp div 64 mod 64, 0x80 + cp mod 64]
        else [0xF0 + cp div 262144, 0x80 + cp div 4096 mod 64, 0x80 + cp div 64 mod 64, 0x80 + cp mod 64])"

text \<open>The low half of a surrogate pair: \<open>\u\<close>\<open>DC00\<close> to \<open>\u\<close>\<open>DFFF\<close> right after a high half.\<close>

definition low_surrogate :: "string \<Rightarrow> nat option" where
  "low_surrogate s =
     (case s of
        c # d # r \<Rightarrow>
          if c = bsl \<and> d = CHR ''u'' then
            (case hex4 r of Some l \<Rightarrow> if 0xDC00 \<le> l \<and> l < 0xE000 then Some l else None | None \<Rightarrow> None)
          else None
      | _ \<Rightarrow> None)"

definition cons_str :: "string \<Rightarrow> (string \<times> string) option \<Rightarrow> (string \<times> string) option" where
  "cons_str xs r = map_option (\<lambda>(ys, rest). (xs @ ys, rest)) r"

text \<open>The characters of a string after its opening quote, up to the closing one.\<close>

function str_body :: "string \<Rightarrow> (string \<times> string) option" where
  "str_body [] = None"
| "str_body (c # r) =
     (if c = dq then Some ([], r)
      else if c = bsl then
        (case r of
           [] \<Rightarrow> None
         | e # r' \<Rightarrow>
             (case simple_escape e of
                Some x \<Rightarrow> cons_str [x] (str_body r')
              | None \<Rightarrow>
                  if e = CHR ''u'' then
                    (case hex4 r' of
                       None \<Rightarrow> None
                     | Some u \<Rightarrow>
                         if 0xD800 \<le> u \<and> u < 0xDC00 then
                           (case low_surrogate (drop 4 r') of
                              Some l \<Rightarrow> cons_str (utf8_encode (0x10000 + (u - 0xD800) * 1024 + (l - 0xDC00))) (str_body (drop 10 r'))
                            | None \<Rightarrow> cons_str (utf8_encode u) (str_body (drop 4 r')))
                         else cons_str (utf8_encode u) (str_body (drop 4 r')))
                  else None))
      else if of_char c < (32 :: nat) then None
      else cons_str [c] (str_body r))"
  by pat_completeness auto
termination
  by (relation "measure length") auto

section \<open>Values\<close>

fun parse_value :: "nat \<Rightarrow> string \<Rightarrow> (jsv \<times> string) option"
and parse_elts :: "nat \<Rightarrow> string \<Rightarrow> (jsv list \<times> string) option"
and parse_members :: "nat \<Rightarrow> string \<Rightarrow> ((string \<times> jsv) list \<times> string) option" where
  "parse_value 0 s = None"
| "parse_value (Suc n) s =
     (case skip_ws s of
        [] \<Rightarrow> None
      | c # r \<Rightarrow>
          if c = CHR ''{'' then
            (case skip_ws r of
               d # r' \<Rightarrow> if d = CHR ''}'' then Some (VObj [], r')
                        else map_option (\<lambda>(kvs, r''). (VObj kvs, r'')) (parse_members n r)
             | [] \<Rightarrow> None)
          else if c = CHR ''['' then
            (case skip_ws r of
               d # r' \<Rightarrow> if d = CHR '']'' then Some (VArr [], r')
                        else map_option (\<lambda>(vs, r''). (VArr vs, r'')) (parse_elts n r)
             | [] \<Rightarrow> None)
          else if c = dq then map_option (\<lambda>(x, r'). (VStr x, r')) (str_body r)
          else if take 4 (c # r) = ''true'' then Some (VBool True, drop 3 r)
          else if take 5 (c # r) = ''false'' then Some (VBool False, drop 4 r)
          else if take 4 (c # r) = ''null'' then Some (VNull, drop 3 r)
          else map_option (\<lambda>(lit, r'). (VNum (parse_float lit), r')) (lex_number (c # r)))"
| "parse_elts 0 s = None"
| "parse_elts (Suc n) s =
     (case parse_value n s of
        None \<Rightarrow> None
      | Some (v, r) \<Rightarrow>
          (case skip_ws r of
             c # r' \<Rightarrow>
               if c = CHR '','' then map_option (\<lambda>(vs, r''). (v # vs, r'')) (parse_elts n r')
               else if c = CHR '']'' then Some ([v], r')
               else None
           | [] \<Rightarrow> None))"
| "parse_members 0 s = None"
| "parse_members (Suc n) s =
     (case skip_ws s of
        c # r \<Rightarrow>
          if c = dq then
            (case str_body r of
               None \<Rightarrow> None
             | Some (k, r1) \<Rightarrow>
                 (case skip_ws r1 of
                    d # r2 \<Rightarrow>
                      if d = CHR '':'' then
                        (case parse_value n r2 of
                           None \<Rightarrow> None
                         | Some (v, r3) \<Rightarrow>
                             (case skip_ws r3 of
                                e # r4 \<Rightarrow>
                                  if e = CHR '','' then map_option (\<lambda>(kvs, r5). ((k, v) # kvs, r5)) (parse_members n r4)
                                  else if e = CHR ''}'' then Some ([(k, v)], r4)
                                  else None
                              | [] \<Rightarrow> None))
                      else None
                  | [] \<Rightarrow> None))
          else None
      | [] \<Rightarrow> None)"

text \<open>\<open>JSON.parse(text)\<close>: one value, surrounded by white space only; \<open>None\<close> is a \<open>SyntaxError\<close>.\<close>

definition json_parse :: "string \<Rightarrow> jsv option" where
  "json_parse s =
     (case parse_value (Suc (2 * length s)) s of
        Some (v, r) \<Rightarrow> if skip_ws r = [] then Some v else None
      | None \<Rightarrow> None)"

section \<open>Printing\<close>

definition hex_digit :: "nat \<Rightarrow> char" where
  "hex_digit d = (if d < 10 then digit_char d else char_of (87 + d))"

text \<open>\<open>QuoteJSONString\<close> (ECMA-262 25.5.2.3), on bytes.\<close>

definition json_quote_char :: "char \<Rightarrow> string" where
  "json_quote_char c =
     (if c = dq then [bsl, dq] else if c = bsl then [bsl, bsl]
      else if c = CHR 0x08 then [bsl, CHR ''b''] else if c = CHR 0x0C then [bsl, CHR ''f'']
      else if c = CHR 0x0A then [bsl, CHR ''n''] else if c = CHR 0x0D then [bsl, CHR ''r'']
      else if c = CHR 0x09 then [bsl, CHR ''t'']
      else if of_char c < (32 :: nat) then
        [bsl, CHR ''u'', CHR ''0'', CHR ''0'', hex_digit (of_char c div 16), hex_digit (of_char c mod 16)]
      else [c])"

definition json_quote :: "string \<Rightarrow> string" where
  "json_quote s = dq # concat (map json_quote_char s) @ [dq]"

text \<open>
  \<open>JSON.stringify(v)\<close> (ECMA-262 25.5.2.2): non-finite numbers become \<open>null\<close>,
  members whose value is \<open>undefined\<close> are left out, an \<open>undefined\<close> array element
  is \<open>null\<close>. Members are printed in list order.
\<close>

fun json_print :: "jsv \<Rightarrow> string" where
  "json_print VUndefined = ''null''"
| "json_print VNull = ''null''"
| "json_print (VBool b) = (if b then ''true'' else ''false'')"
| "json_print (VNum n) = (case n of Fin m e \<Rightarrow> number_to_string n | _ \<Rightarrow> ''null'')"
| "json_print (VStr s) = json_quote s"
| "json_print (VArr xs) = CHR ''['' # join_with (CHR '','') (map json_print xs) @ '']''"
| "json_print (VObj kvs) =
     CHR ''{'' # join_with (CHR '','') (map (\<lambda>kv. json_quote (fst kv) @ CHR '':'' # json_print (snd kv))
                                        (filter (\<lambda>kv. snd kv \<noteq> VUndefined) kvs)) @ ''}''"

section \<open>Lemmas\<close>

subsection \<open>Every successful parse consumes input\<close>

lemma skip_ws_length: "length (skip_ws s) \<le> length s"
  by (simp add: skip_ws_def length_dropWhile_le)

lemma skip_ws_Cons_length: "skip_ws s = c # r \<Longrightarrow> length r < length s"
  using skip_ws_length [of s] by simp

lemma cons_str_Some: "cons_str xs r = Some (ys, rest) \<longleftrightarrow> (\<exists>zs. r = Some (zs, rest) \<and> ys = xs @ zs)"
  by (cases r) (auto simp: cons_str_def)

lemma str_body_length: "str_body s = Some (x, r) \<Longrightarrow> length r < length s"
proof (induction s arbitrary: x r rule: length_induct)
  case (1 s)
  have step: "length r' < length s" if "str_body t = Some (zs, r')" "length t < length s" for t zs r'
    using "1.IH" that by fastforce
  show ?case
    using "1.prems"
    by (cases s) (auto simp: cons_str_Some split: if_splits list.splits option.splits dest!: step)
qed

lemma lex_digits1_split: "lex_digits1 s = Some (ds, r) \<Longrightarrow> s = ds @ r \<and> ds \<noteq> []"
  by (auto simp: lex_digits1_def Let_def split: if_splits)

lemma lex_int_split: "lex_int s = Some (i, r) \<Longrightarrow> s = i @ r \<and> i \<noteq> []"
  by (auto simp: lex_int_def split: list.splits if_splits)

lemma lex_frac_split: "lex_frac s = Some (f, r) \<Longrightarrow> s = f @ r"
  by (auto simp: lex_frac_def split: list.splits if_splits dest: lex_digits1_split)

lemma lex_exp_split: "lex_exp s = Some (f, r) \<Longrightarrow> s = f @ r"
  by (auto simp: lex_exp_def split: list.splits if_splits prod.splits dest: lex_digits1_split)

lemma lex_number_split: "lex_number s = Some (lit, r) \<Longrightarrow> s = lit @ r \<and> lit \<noteq> []"
  by (auto simp: lex_number_def split: list.splits if_splits prod.splits Option.bind_splits
           dest!: lex_int_split lex_frac_split lex_exp_split)


lemma lex_number_length: "lex_number s = Some (lit, r) \<Longrightarrow> length r < length s"
  by (drule lex_number_split) (auto simp: length_append)

lemma parse_consumes_all:
  "(\<forall>s v r. parse_value n s = Some (v, r) \<longrightarrow> length r < length s) \<and>
   (\<forall>s vs r. parse_elts n s = Some (vs, r) \<longrightarrow> length r < length s) \<and>
   (\<forall>s kvs r. parse_members n s = Some (kvs, r) \<longrightarrow> length r < length s)"
proof (induction n)
  case 0
  show ?case by simp
next
  case (Suc n)
  have IHv: "length r < length s" if "parse_value n s = Some (v, r)" for s v r using Suc that by blast
  have IHe: "length r < length s" if "parse_elts n s = Some (vs, r)" for s vs r using Suc that by blast
  have IHm: "length r < length s" if "parse_members n s = Some (kvs, r)" for s kvs r using Suc that by blast
  have V: "length r < length s" if h: "parse_value (Suc n) s = Some (v, r)" for s v r
  proof -
    obtain c r0 where sw: "skip_ws s = c # r0" using h by (cases "skip_ws s") auto
    have "length r0 < length s" using sw by (rule skip_ws_Cons_length)
    then show ?thesis using h sw
      by (auto simp: map_option_eq_Some split: if_splits list.splits prod.splits
               dest!: IHm IHe str_body_length lex_number_length skip_ws_Cons_length)
  qed
  have E: "length r < length s" if h: "parse_elts (Suc n) s = Some (vs, r)" for s vs r
    using h
    by (auto simp: map_option_eq_Some split: if_splits list.splits option.splits prod.splits
             dest!: IHv IHe skip_ws_Cons_length)
  have M: "length r < length s" if h: "parse_members (Suc n) s = Some (kvs, r)" for s kvs r
    using h
    by (auto simp: map_option_eq_Some split: if_splits list.splits option.splits prod.splits
             dest!: IHv IHm str_body_length skip_ws_Cons_length)
  show ?case using V E M by blast
qed

lemmas parse_value_consumes = parse_consumes_all [THEN conjunct1, rule_format]
lemmas parse_elts_consumes = parse_consumes_all [THEN conjunct2, THEN conjunct1, rule_format]
lemmas parse_members_consumes = parse_consumes_all [THEN conjunct2, THEN conjunct2, rule_format]

subsection \<open>Fuel: twice the consumed length is enough\<close>

lemma parse_fuel_all:
  "(\<forall>s v r k. parse_value n s = Some (v, r) \<longrightarrow> 2 * (length s - length r) + 1 \<le> k \<longrightarrow> parse_value k s = Some (v, r)) \<and>
   (\<forall>s vs r k. parse_elts n s = Some (vs, r) \<longrightarrow> 2 * (length s - length r) + 2 \<le> k \<longrightarrow> parse_elts k s = Some (vs, r)) \<and>
   (\<forall>s kvs r k. parse_members n s = Some (kvs, r) \<longrightarrow> 2 * (length s - length r) + 2 \<le> k \<longrightarrow> parse_members k s = Some (kvs, r))"
proof (induction n)
  case 0
  show ?case by simp
next
  case (Suc n)
  have IHv: "parse_value k s = Some (v, r)"
    if "parse_value n s = Some (v, r)" "2 * (length s - length r) + 1 \<le> k" for s v r k using Suc that by blast
  have IHe: "parse_elts k s = Some (vs, r)"
    if "parse_elts n s = Some (vs, r)" "2 * (length s - length r) + 2 \<le> k" for s vs r k using Suc that by blast
  have IHm: "parse_members k s = Some (kvs, r)"
    if "parse_members n s = Some (kvs, r)" "2 * (length s - length r) + 2 \<le> k" for s kvs r k using Suc that by blast
  have V: "parse_value k s = Some (v, r)"
    if h: "parse_value (Suc n) s = Some (v, r)" and kk: "2 * (length s - length r) + 1 \<le> k" for s v r k
  proof -
    obtain k' where k: "k = Suc k'" using kk by (cases k) auto
    obtain c r0 where sw: "skip_ws s = c # r0" using h by (cases "skip_ws s") auto
    have l0: "length r0 < length s" using sw by (rule skip_ws_Cons_length)
    consider (obj) "c = CHR ''{''" | (arr) "c \<noteq> CHR ''{''" "c = CHR ''[''" | (other) "c \<noteq> CHR ''{''" "c \<noteq> CHR ''[''"
      by blast
    then show ?thesis
    proof cases
      case obj
      show ?thesis
      proof (cases "\<exists>r'. skip_ws r0 = CHR ''}'' # r'")
        case True
        then show ?thesis using h sw obj k by auto
      next
        case False
        then obtain d r' where sw0: "skip_ws r0 = d # r'" and d: "d \<noteq> CHR ''}''"
          using h sw obj by (auto split: list.splits)
        then obtain kvs where pm: "parse_members n r0 = Some (kvs, r)" and v: "v = VObj kvs"
          using h sw obj by auto
        have "length r < length r0" using pm by (rule parse_members_consumes)
        then have "parse_members k' r0 = Some (kvs, r)" using kk k l0 by (intro IHm [OF pm]) simp
        then show ?thesis using sw sw0 d obj k v by simp
      qed
    next
      case arr
      show ?thesis
      proof (cases "\<exists>r'. skip_ws r0 = CHR '']'' # r'")
        case True
        then show ?thesis using h sw arr k by auto
      next
        case False
        then obtain d r' where sw0: "skip_ws r0 = d # r'" and d: "d \<noteq> CHR '']''"
          using h sw arr by (auto split: list.splits)
        then obtain vs where pe: "parse_elts n r0 = Some (vs, r)" and v: "v = VArr vs"
          using h sw arr by auto
        have "length r < length r0" using pe by (rule parse_elts_consumes)
        then have "parse_elts k' r0 = Some (vs, r)" using kk k l0 by (intro IHe [OF pe]) simp
        then show ?thesis using sw sw0 d arr k v by simp
      qed
    next
      case other
      then show ?thesis using h sw k by simp
    qed
  qed
  have E: "parse_elts k s = Some (vs, r)"
    if h: "parse_elts (Suc n) s = Some (vs, r)" and kk: "2 * (length s - length r) + 2 \<le> k" for s vs r k
  proof -
    obtain k' where k: "k = Suc k'" using kk by (cases k) auto
    obtain v r1 where pv: "parse_value n s = Some (v, r1)" using h by (auto split: option.splits)
    have l1: "length r1 < length s" using pv by (rule parse_value_consumes)
    obtain c r' where sw: "skip_ws r1 = c # r'" using h pv by (auto split: list.splits)
    have l2: "length r' < length r1" using sw by (rule skip_ws_Cons_length)
    show ?thesis
    proof (cases "c = CHR '',''")
      case True
      then obtain vs' where pe: "parse_elts n r' = Some (vs', r)" and vs: "vs = v # vs'"
        using h pv sw by auto
      have "length r < length r'" using pe by (rule parse_elts_consumes)
      then have "parse_value k' s = Some (v, r1)" and "parse_elts k' r' = Some (vs', r)"
        using kk k l1 l2 by (intro IHv [OF pv] IHe [OF pe]; simp)+
      then show ?thesis using sw True k vs by simp
    next
      case False
      then have "c = CHR '']''" "r = r'" "vs = [v]" using h pv sw by (auto split: if_splits)
      moreover have "parse_value k' s = Some (v, r1)" using kk k l1 l2 \<open>r = r'\<close> by (intro IHv [OF pv]) simp
      ultimately show ?thesis using sw k by simp
    qed
  qed
  have M: "parse_members k s = Some (kvs, r)"
    if h: "parse_members (Suc n) s = Some (kvs, r)" and kk: "2 * (length s - length r) + 2 \<le> k" for s kvs r k
  proof -
    obtain k' where k: "k = Suc k'" using kk by (cases k) auto
    obtain r0 where sw: "skip_ws s = dq # r0" using h by (auto split: list.splits if_splits)
    obtain key r1 where sb: "str_body r0 = Some (key, r1)" using h sw by (auto split: option.splits)
    obtain r2 where sw1: "skip_ws r1 = CHR '':'' # r2" using h sw sb by (auto split: list.splits if_splits)
    obtain v r3 where pv: "parse_value n r2 = Some (v, r3)" using h sw sb sw1 by (auto split: option.splits)
    obtain e r4 where sw3: "skip_ws r3 = e # r4" using h sw sb sw1 pv by (auto split: list.splits)
    have l: "length r0 < length s" "length r1 < length r0" "length r2 < length r1" "length r3 < length r2"
            "length r4 < length r3"
      using sw sb sw1 pv sw3 by (auto dest: skip_ws_Cons_length str_body_length parse_value_consumes)
    show ?thesis
    proof (cases "e = CHR '',''")
      case True
      then obtain kvs' where pm: "parse_members n r4 = Some (kvs', r)" and kvs: "kvs = (key, v) # kvs'"
        using h sw sb sw1 pv sw3 by auto
      have "length r < length r4" using pm by (rule parse_members_consumes)
      then have "parse_value k' r2 = Some (v, r3)" and "parse_members k' r4 = Some (kvs', r)"
        using kk k l by (intro IHv [OF pv] IHm [OF pm]; simp)+
      then show ?thesis using sw sb sw1 sw3 True k kvs by simp
    next
      case False
      then have "e = CHR ''}''" "r = r4" "kvs = [(key, v)]" using h sw sb sw1 pv sw3 by (auto split: if_splits)
      moreover have "parse_value k' r2 = Some (v, r3)" using kk k l \<open>r = r4\<close> by (intro IHv [OF pv]) simp
      ultimately show ?thesis using sw sb sw1 sw3 k by simp
    qed
  qed
  show ?case using V E M by blast
qed

subsection \<open>Strings read back what \<open>JSON.stringify\<close> writes\<close>

lemma char_digit_hex_digit: "d < 16 \<Longrightarrow> char_digit (hex_digit d) = d"
  by (auto simp: hex_digit_def char_digit_def digit_char_def)

lemma hex4_escape:
  assumes "k < 256"
  shows "hex4 (CHR ''0'' # CHR ''0'' # hex_digit (k div 16) # hex_digit (k mod 16) # t) = Some k"
proof -
  have kd: "k div 16 < 16" using assms by simp
  then have a: "char_digit (hex_digit (k div 16)) = k div 16" and b: "char_digit (hex_digit (k mod 16)) = k mod 16"
    by (simp_all add: char_digit_hex_digit)
  show ?thesis using kd a b
    by (simp add: hex4_def digits_value_def is_radix_digit_def char_digit_def [of "CHR ''0''"])
qed

lemma utf8_encode_ascii: "k < 128 \<Longrightarrow> utf8_encode k = [char_of k]"
  by (simp add: utf8_encode_def)

lemma str_body_quote_char: "str_body (json_quote_char c @ t) = cons_str [c] (str_body t)"
proof -
  let ?k = "of_char c :: nat"
  have k: "?k < 256" by (rule nat_of_char_less_256)
  consider "c = dq" | "c = bsl" | "c = CHR 0x08" | "c = CHR 0x0C" | "c = CHR 0x0A" | "c = CHR 0x0D" | "c = CHR 0x09"
    | (ctl) "c \<notin> {dq, bsl, CHR 0x08, CHR 0x0C, CHR 0x0A, CHR 0x0D, CHR 0x09}" "?k < 32"
    | (plain) "c \<notin> {dq, bsl, CHR 0x08, CHR 0x0C, CHR 0x0A, CHR 0x0D, CHR 0x09}" "\<not> ?k < 32"
    by blast
  then show ?thesis
  proof cases
    case ctl
    have "hex4 (CHR ''0'' # CHR ''0'' # hex_digit (?k div 16) # hex_digit (?k mod 16) # t) = Some ?k"
      using k by (rule hex4_escape)
    moreover have "utf8_encode ?k = [c]" using ctl(2) by (simp add: utf8_encode_ascii)
    moreover have "simple_escape (CHR ''u'') = None" by (simp add: simple_escape_def)
    ultimately show ?thesis using ctl by (simp add: json_quote_char_def)
  next
    case plain
    then show ?thesis by (simp add: json_quote_char_def)
  qed (simp_all add: json_quote_char_def simple_escape_def)
qed

lemma str_body_quote: "str_body (concat (map json_quote_char x) @ dq # rest) = Some (x, rest)"
  by (induction x) (simp_all add: str_body_quote_char cons_str_def)

subsection \<open>Numbers: the lexer accepts what \<open>Number::toString\<close> writes\<close>

lemma nat_digits_hd_nz: "0 < s \<Longrightarrow> hd (nat_digits s) \<noteq> CHR ''0''"
proof (induction s rule: nat_digits.induct)
  case (1 n)
  show ?case
  proof (cases "n < 10")
    case True
    have "char_of (48 + n) \<noteq> CHR ''0''"
    proof
      assume "char_of (48 + n) = CHR ''0''"
      then have "(of_char (char_of (48 + n) :: char) :: nat) = of_char (CHR ''0'')" by simp
      with True "1.prems" show False by (simp add: of_char_of)
    qed
    then show ?thesis using True by (simp add: nat_digits.simps [of n] digit_char_def)
  next
    case False
    then have "hd (nat_digits n) = hd (nat_digits (n div 10))"
      by (simp add: nat_digits.simps [of n])
    moreover have "hd (nat_digits (n div 10)) \<noteq> CHR ''0''" using False by (intro "1.IH") simp_all
    ultimately show ?thesis by simp
  qed
qed

lemma delim_not_num:
  "rest = [] \<or> hd rest \<in> set '',]}'' \<Longrightarrow>
   takeWhile is_dec_digit rest = [] \<and> dropWhile is_dec_digit rest = rest \<and>
   lex_frac rest = Some ([], rest) \<and> lex_exp rest = Some ([], rest)"
  by (cases rest) (auto simp: lex_frac_def lex_exp_def is_radix_digit_def char_digit_def)

lemma lex_int_digits:
  assumes "ip \<noteq> []" "\<forall>c \<in> set ip. is_dec_digit c" "hd ip \<noteq> CHR ''0''"
      and "takeWhile is_dec_digit t = []" "dropWhile is_dec_digit t = t"
  shows "lex_int (ip @ t) = Some (ip, t)"
  using assms by (cases ip) (auto simp: lex_int_def)

lemma lex_frac_digits:
  assumes "fd \<noteq> []" "\<forall>c \<in> set fd. is_dec_digit c"
      and "takeWhile is_dec_digit t = []" "dropWhile is_dec_digit t = t"
  shows "lex_frac (CHR ''.'' # fd @ t) = Some (CHR ''.'' # fd, t)"
  using assms by (simp add: lex_frac_def lex_digits1_def)

lemma lex_exp_suffix:
  assumes "takeWhile is_dec_digit t = []" "dropWhile is_dec_digit t = t"
  shows "lex_exp (exp_suffix x @ t) = Some (exp_suffix x, t)"
  using assms by (simp add: lex_exp_def exp_suffix_def lex_digits1_def takeWhile_nat_digits
                            del: takeWhile_eq_all_conv)

lemma lex_frac_exp_suffix: "lex_frac (exp_suffix x @ t) = Some ([], exp_suffix x @ t)"
  by (simp add: lex_frac_def exp_suffix_def)

lemma lex_number_parts:
  assumes "lex_int (ip @ fr @ ex @ t) = Some (ip, fr @ ex @ t)" "lex_frac (fr @ ex @ t) = Some (fr, ex @ t)"
      and "lex_exp (ex @ t) = Some (ex, t)" "ip \<noteq> []" "hd ip \<noteq> CHR ''-''"
  shows "lex_number (ip @ fr @ ex @ t) = Some (ip @ fr @ ex, t)"
  using assms by (cases ip) (simp_all add: lex_number_def)

lemma lex_pos_to_string:
  assumes s: "0 < s" and d: "rest = [] \<or> hd rest \<in> set '',]}''"
  shows "lex_number (pos_to_string s e @ rest) = Some (pos_to_string s e, rest)"
proof -
  let ?ds = "nat_digits s"
  let ?n = "int (length ?ds) + e"
  have t: "takeWhile is_dec_digit rest = []" "dropWhile is_dec_digit rest = rest"
      and f: "lex_frac rest = Some ([], rest)" and x: "lex_exp rest = Some ([], rest)"
    using delim_not_num [OF d] by simp_all
  have dg: "\<forall>c \<in> set ?ds. is_dec_digit c" by simp
  have ne: "?ds \<noteq> []" by simp
  have nz: "hd ?ds \<noteq> CHR ''0''" using s by (rule nat_digits_hd_nz)
  have hdd: "is_dec_digit (hd ?ds)" using nat_digits_dec [OF hd_in_set [OF ne]] .
  have notminus: "hd ?ds \<noteq> CHR ''-''" using dec_digit_not_sign [OF hdd] by simp
  have z: "is_dec_digit (CHR ''0'')" "\<not> is_dec_digit (CHR ''.'')" "\<not> is_dec_digit (CHR ''e'')"
    by (simp_all add: is_radix_digit_def char_digit_def)
  show ?thesis
  proof (cases s e rule: pos_to_string_cases)
    case plain
    let ?ip = "?ds @ replicate (nat e) (CHR ''0'')"
    have "lex_int (?ip @ [] @ [] @ rest) = Some (?ip, [] @ [] @ rest)"
      using ne dg nz t z by (intro lex_int_digits) auto
    then have "lex_number (?ip @ [] @ [] @ rest) = Some (?ip @ [] @ [], rest)"
      using f x ne notminus by (intro lex_number_parts) simp_all
    then show ?thesis using plain by simp
  next
    case point
    let ?ip = "take (nat ?n) ?ds" and ?fd = "drop (nat ?n) ?ds"
    have ip: "?ip \<noteq> []" "hd ?ip = hd ?ds" and fd: "?fd \<noteq> []" using point ne by (simp_all add: hd_take)
    have "lex_int (?ip @ (CHR ''.'' # ?fd) @ [] @ rest) = Some (?ip, (CHR ''.'' # ?fd) @ [] @ rest)"
      using ip dg nz z by (intro lex_int_digits) (auto dest: in_set_takeD)
    moreover have "lex_frac ((CHR ''.'' # ?fd) @ [] @ rest) = Some (CHR ''.'' # ?fd, [] @ rest)"
      using fd dg t by (simp only: append_Cons append_Nil) (intro lex_frac_digits; auto dest: in_set_dropD)
    ultimately have "lex_number (?ip @ (CHR ''.'' # ?fd) @ [] @ rest) = Some (?ip @ (CHR ''.'' # ?fd) @ [], rest)"
      using x ip notminus by (intro lex_number_parts) simp_all
    then show ?thesis using point by simp
  next
    case zeros
    let ?fd = "replicate (nat (- ?n)) (CHR ''0'') @ ?ds"
    have "lex_number ([CHR ''0''] @ (CHR ''.'' # ?fd) @ [] @ rest) = Some ([CHR ''0''] @ (CHR ''.'' # ?fd) @ [], rest)"
    proof (rule lex_number_parts)
      show "lex_frac ((CHR ''.'' # ?fd) @ [] @ rest) = Some (CHR ''.'' # ?fd, [] @ rest)"
        using dg z t by (simp only: append_Cons append_Nil) (intro lex_frac_digits; auto)
    qed (use x in \<open>simp_all add: lex_int_def\<close>)
    then show ?thesis using zeros by simp
  next
    case exp1
    let ?ex = "exp_suffix (?n - 1)"
    have "lex_number (?ds @ [] @ ?ex @ rest) = Some (?ds @ [] @ ?ex, rest)"
    proof (rule lex_number_parts)
      show "lex_int (?ds @ [] @ ?ex @ rest) = Some (?ds, [] @ ?ex @ rest)"
        using ne dg nz z by (intro lex_int_digits) (simp_all add: exp_suffix_def)
    qed (use t ne notminus in \<open>simp_all add: lex_frac_exp_suffix lex_exp_suffix\<close>)
    then show ?thesis using exp1 by simp
  next
    case expn
    let ?ex = "exp_suffix (?n - 1)"
    have tl: "tl ?ds \<noteq> []" using expn ne by (cases ?ds) auto
    have "lex_number ([hd ?ds] @ (CHR ''.'' # tl ?ds) @ ?ex @ rest) = Some ([hd ?ds] @ (CHR ''.'' # tl ?ds) @ ?ex, rest)"
    proof (rule lex_number_parts)
      show "lex_int ([hd ?ds] @ (CHR ''.'' # tl ?ds) @ ?ex @ rest) = Some ([hd ?ds], (CHR ''.'' # tl ?ds) @ ?ex @ rest)"
        using hdd nz z by (intro lex_int_digits) simp_all
      show "lex_frac ((CHR ''.'' # tl ?ds) @ ?ex @ rest) = Some (CHR ''.'' # tl ?ds, ?ex @ rest)"
      proof (simp only: append_Cons, rule lex_frac_digits)
        show "\<forall>c \<in> set (tl ?ds). is_dec_digit c" using ne by (metis list.set_sel(2) nat_digits_dec)
      qed (use tl z in \<open>simp_all add: exp_suffix_def\<close>)
    qed (use t notminus in \<open>simp_all add: lex_exp_suffix\<close>)
    then show ?thesis using expn by simp
  qed
qed

lemma lex_number_neg:
  "x \<noteq> [] \<Longrightarrow> hd x \<noteq> CHR ''-'' \<Longrightarrow>
   lex_number (CHR ''-'' # x) = map_option (\<lambda>(l, r). (CHR ''-'' # l, r)) (lex_number x)"
  by (cases x) (auto simp: lex_number_def split: option.splits prod.splits bind_split)

lemma lex_number_to_string:
  assumes d: "rest = [] \<or> hd rest \<in> set '',]}''"
  shows "lex_number (number_to_string (Fin m e) @ rest) = Some (number_to_string (Fin m e), rest)"
proof -
  obtain m' e' where dn: "dec_norm m e = (m', e')" by fastforce
  have f: "lex_frac rest = Some ([], rest)" and x: "lex_exp rest = Some ([], rest)"
    using delim_not_num [OF d] by simp_all
  consider "m' = 0" | "0 < m'" | "m' < 0" by linarith
  then show ?thesis
  proof cases
    case 1
    then show ?thesis using dn f x by (simp add: lex_number_def lex_int_def)
  next
    case 2
    then show ?thesis using dn lex_pos_to_string [OF _ d, of "nat m'" e'] by simp
  next
    case 3
    have pos: "lex_number (pos_to_string (nat (- m')) e' @ rest) = Some (pos_to_string (nat (- m')) e', rest)"
      using 3 d by (intro lex_pos_to_string) simp_all
    have "pos_to_string (nat (- m')) e' @ rest \<noteq> []" "hd (pos_to_string (nat (- m')) e' @ rest) \<noteq> CHR ''-''"
      using pos_to_string_hd [of "nat (- m')" e'] dec_digit_not_sign by auto
    then show ?thesis using 3 dn pos by (simp add: lex_number_neg)
  qed
qed

lemma number_to_string_start:
  "number_to_string (Fin m e) \<noteq> [] \<and>
   (is_dec_digit (hd (number_to_string (Fin m e))) \<or> hd (number_to_string (Fin m e)) = CHR ''-'')"
  using pos_to_string_hd by (auto simp: is_radix_digit_def char_digit_def split: prod.splits)

lemma num_start_char:
  "is_dec_digit c \<or> c = CHR ''-'' \<Longrightarrow>
   c \<noteq> CHR ''{'' \<and> c \<noteq> CHR ''['' \<and> c \<noteq> dq \<and> c \<noteq> CHR ''t'' \<and> c \<noteq> CHR ''f'' \<and> c \<noteq> CHR ''n'' \<and>
   \<not> json_ws c \<and> c \<noteq> CHR '']'' \<and> c \<noteq> CHR ''}''"
  by (auto simp: is_radix_digit_def char_digit_def json_ws_def)

lemma skip_ws_Cons: "\<not> json_ws c \<Longrightarrow> skip_ws (c # r) = c # r"
  by (simp add: skip_ws_def)

lemma skip_ws_punct [simp]:
  "skip_ws (CHR '','' # r) = CHR '','' # r" "skip_ws (CHR '']'' # r) = CHR '']'' # r"
  "skip_ws (CHR ''}'' # r) = CHR ''}'' # r" "skip_ws (CHR '':'' # r) = CHR '':'' # r"
  "skip_ws (CHR ''['' # r) = CHR ''['' # r" "skip_ws (CHR ''{'' # r) = CHR ''{'' # r"
  "skip_ws (dq # r) = dq # r"
  by (simp_all add: skip_ws_def json_ws_def)

lemma json_print_start:
  "json_print v \<noteq> [] \<and> \<not> json_ws (hd (json_print v)) \<and>
   hd (json_print v) \<noteq> CHR '']'' \<and> hd (json_print v) \<noteq> CHR ''}''"
proof (cases v)
  case (VNum n)
  then show ?thesis
  proof (cases n)
    case (Fin m e)
    then show ?thesis using VNum number_to_string_start [of m e] num_start_char by auto
  qed (simp_all add: json_ws_def)
qed (simp_all add: json_ws_def json_quote_def)

subsection \<open>Values read back what \<open>JSON.stringify\<close> writes\<close>

lemma parse_print_elts:
  assumes IH: "\<forall>x \<in> set xs. \<forall>rest n. (rest = [] \<or> hd rest \<in> set '',]}'') \<longrightarrow> Suc (length (json_print x)) \<le> n \<longrightarrow>
                 parse_value n (json_print x @ rest) = Some (x, rest)"
      and "xs \<noteq> []" and "length (join_with (CHR '','') (map json_print xs)) + 2 \<le> n"
  shows "parse_elts n (join_with (CHR '','') (map json_print xs) @ CHR '']'' # rest) = Some (xs, rest)"
  using assms
proof (induction xs arbitrary: n)
  case Nil
  then show ?case by simp
next
  case (Cons x xs)
  obtain m where n: "n = Suc m" using Cons.prems(3) by (cases n) auto
  show ?case
  proof (cases "xs = []")
    case True
    have "parse_value m (json_print x @ CHR '']'' # rest) = Some (x, CHR '']'' # rest)"
      using Cons.prems(1,3) True n by simp
    then show ?thesis using True n by simp
  next
    case False
    have j: "join_with (CHR '','') (map json_print (x # xs)) = json_print x @ CHR '','' # join_with (CHR '','') (map json_print xs)"
      using False by (cases xs) simp_all
    have "parse_value m (json_print x @ CHR '','' # join_with (CHR '','') (map json_print xs) @ CHR '']'' # rest)
          = Some (x, CHR '','' # join_with (CHR '','') (map json_print xs) @ CHR '']'' # rest)"
      using Cons.prems(1,3) n j by simp
    moreover have "parse_elts m (join_with (CHR '','') (map json_print xs) @ CHR '']'' # rest) = Some (xs, rest)"
      using Cons.prems(1,3) n j False by (intro Cons.IH) simp_all
    ultimately show ?thesis using n j by simp
  qed
qed

lemma parse_print_members:
  assumes IH: "\<forall>kv \<in> set kvs. \<forall>rest n. (rest = [] \<or> hd rest \<in> set '',]}'') \<longrightarrow> Suc (length (json_print (snd kv))) \<le> n \<longrightarrow>
                 parse_value n (json_print (snd kv) @ rest) = Some (snd kv, rest)"
      and "kvs \<noteq> []"
      and "length (join_with (CHR '','') (map (\<lambda>kv. json_quote (fst kv) @ CHR '':'' # json_print (snd kv)) kvs)) + 2 \<le> n"
  shows "parse_members n (join_with (CHR '','') (map (\<lambda>kv. json_quote (fst kv) @ CHR '':'' # json_print (snd kv)) kvs)
                          @ CHR ''}'' # rest) = Some (kvs, rest)"
  using assms
proof (induction kvs arbitrary: n)
  case Nil
  then show ?case by simp
next
  case (Cons kv kvs)
  obtain m where n: "n = Suc m" using Cons.prems(3) by (cases n) auto
  obtain k v where kv: "kv = (k, v)" by fastforce
  let ?mem = "\<lambda>kv. json_quote (fst kv) @ CHR '':'' # json_print (snd kv)"
  have sb: "str_body (concat (map json_quote_char k) @ dq # t) = Some (k, t)" for t by (rule str_body_quote)
  show ?case
  proof (cases "kvs = []")
    case True
    have "parse_value m (json_print v @ CHR ''}'' # rest) = Some (v, CHR ''}'' # rest)"
      using Cons.prems(1,3) True n kv by (simp add: json_quote_def)
    then show ?thesis using True n kv sb by (simp add: json_quote_def)
  next
    case False
    let ?j = "join_with (CHR '','') (map ?mem kvs)"
    have j: "join_with (CHR '','') (map ?mem (kv # kvs)) = ?mem kv @ CHR '','' # ?j"
      using False by (cases kvs) simp_all
    have "parse_value m (json_print v @ CHR '','' # ?j @ CHR ''}'' # rest) = Some (v, CHR '','' # ?j @ CHR ''}'' # rest)"
      using Cons.prems(1,3) n j kv by (simp add: json_quote_def)
    moreover have "parse_members m (?j @ CHR ''}'' # rest) = Some (kvs, rest)"
      using Cons.prems(1,3) n j False by (intro Cons.IH) simp_all
    ultimately show ?thesis using n j kv sb by (simp add: json_quote_def)
  qed
qed

lemma join_with_map_hd: "xs \<noteq> [] \<Longrightarrow> \<exists>t. join_with c (map f xs) = f (hd xs) @ t"
  by (cases xs; cases "tl xs") auto

lemma print_prefix_skip:
  "skip_ws (json_print v @ t) = json_print v @ t \<and> hd (json_print v @ t) \<noteq> CHR '']'' \<and> hd (json_print v @ t) \<noteq> CHR ''}''"
  using json_print_start [of v] by (cases "json_print v") (simp_all add: skip_ws_Cons)

lemma parse_print_value:
  "json_value v \<Longrightarrow> rest = [] \<or> hd rest \<in> set '',]}'' \<Longrightarrow> Suc (length (json_print v)) \<le> n \<Longrightarrow>
   parse_value n (json_print v @ rest) = Some (v, rest)"
proof (induction v arbitrary: rest n)
  case (VNum x)
  obtain m where n: "n = Suc m" using VNum.prems(3) by (cases n) auto
  obtain a e where x: "x = Fin a e" using VNum.prems(1) by (cases x) auto
  have can: "canonical (Fin a e)" using VNum.prems(1) x by simp
  obtain c r where cr: "number_to_string (Fin a e) @ rest = c # r"
    using number_to_string_start [of a e] by (cases "number_to_string (Fin a e)") auto
  have "is_dec_digit c \<or> c = CHR ''-''" using number_to_string_start [of a e] cr by (cases "number_to_string (Fin a e)") auto
  note c = num_start_char [OF this]
  have lex: "lex_number (c # r) = Some (number_to_string (Fin a e), rest)"
    using lex_number_to_string [OF VNum.prems(2), of a e] cr by simp
  have pf: "parse_float (number_to_string (Fin a e)) = Fin a e"
    using can by (subst parse_float_number_to_string) (simp add: mk_num_Fin)
  show ?case using n x cr c lex pf by (simp add: skip_ws_Cons)
next
  case (VStr x)
  obtain m where "n = Suc m" using VStr.prems(3) by (cases n) auto
  then show ?case by (simp add: json_quote_def str_body_quote)
next
  case (VArr xs)
  obtain m where n: "n = Suc m" using VArr.prems(3) by (cases n) auto
  show ?case
  proof (cases "xs = []")
    case True
    then show ?thesis using n by simp
  next
    case False
    let ?j = "join_with (CHR '','') (map json_print xs)"
    obtain t where t: "?j = json_print (hd xs) @ t" using join_with_map_hd [OF False] by blast
    have sk: "skip_ws (?j @ CHR '']'' # rest) = ?j @ CHR '']'' # rest"
     and nb: "hd (?j @ CHR '']'' # rest) \<noteq> CHR '']''"
      using print_prefix_skip [of "hd xs" "t @ CHR '']'' # rest"] t by simp_all
    have ne: "?j @ CHR '']'' # rest \<noteq> []" by simp
    have "parse_elts m (?j @ CHR '']'' # rest) = Some (xs, rest)"
      using VArr.IH VArr.prems(1,3) n False by (intro parse_print_elts) auto
    then show ?thesis using n sk nb ne by (cases "?j @ CHR '']'' # rest") auto
  qed
next
  case (VObj kvs)
  obtain m where n: "n = Suc m" using VObj.prems(3) by (cases n) auto
  have flt: "filter (\<lambda>kv. snd kv \<noteq> VUndefined) kvs = kvs"
    using VObj.prems(1) by (auto simp: filter_id_conv)
  show ?case
  proof (cases "kvs = []")
    case True
    then show ?thesis using n by simp
  next
    case False
    let ?mem = "\<lambda>kv. json_quote (fst kv) @ CHR '':'' # json_print (snd kv)"
    let ?j = "join_with (CHR '','') (map ?mem kvs)"
    obtain t where t: "?j = ?mem (hd kvs) @ t" using join_with_map_hd [OF False] by blast
    obtain r' where w: "?j @ CHR ''}'' # rest = dq # r'" using t by (simp add: json_quote_def)
    have "parse_members m (?j @ CHR ''}'' # rest) = Some (kvs, rest)"
    proof (rule parse_print_members)
      show "\<forall>kv \<in> set kvs. \<forall>rest n. (rest = [] \<or> hd rest \<in> set '',]}'') \<longrightarrow> Suc (length (json_print (snd kv))) \<le> n \<longrightarrow>
              parse_value n (json_print (snd kv) @ rest) = Some (snd kv, rest)"
        using VObj.IH VObj.prems(1) by (metis json_value.simps(4) snds.intros surjective_pairing)
    qed (use VObj.prems(3) n flt False in simp_all)
    then have "parse_members m (dq # r') = Some (kvs, rest)" by (simp only: w)
    then show ?thesis using n flt w by (simp add: skip_ws_Cons)
  qed
qed (auto simp: skip_ws_Cons json_ws_def dest!: Suc_le_D)

text \<open>The printed text of a value, read with the fuel of \<open>json_parse\<close>.\<close>

lemma json_parse_print_value:
  "json_value v \<Longrightarrow> parse_value (Suc (2 * length (json_print v))) (json_print v) = Some (v, [])"
  using parse_print_value [of v "[]" "Suc (2 * length (json_print v))"] by (simp del: parse_value.simps)

text \<open>A text whose first character after white space cannot start a value is refused.\<close>

lemma parse_value_bad_start:
  "(case skip_ws s of [] \<Rightarrow> True | c # r \<Rightarrow> c \<notin> set ''{[tfn-'' \<and> c \<noteq> dq \<and> \<not> is_dec_digit c) \<Longrightarrow>
   parse_value n s = None"
proof (cases n)
  case (Suc k)
  assume h: "(case skip_ws s of [] \<Rightarrow> True | c # r \<Rightarrow> c \<notin> set ''{[tfn-'' \<and> c \<noteq> dq \<and> \<not> is_dec_digit c)"
  show ?thesis
  proof (cases "skip_ws s")
    case (Cons c r)
    then have "c \<notin> set ''{[tfn-''" "c \<noteq> dq" "\<not> is_dec_digit c" using h by simp_all
    moreover have "c \<noteq> CHR ''0''" using \<open>\<not> is_dec_digit c\<close> by (auto simp: is_radix_digit_def)
    ultimately show ?thesis using Suc Cons by (simp add: lex_number_def lex_int_def)
  qed (simp add: Suc)
qed simp

lemma json_parse_bad_start:
  "(case skip_ws s of [] \<Rightarrow> True | c # r \<Rightarrow> c \<notin> set ''{[tfn-'' \<and> c \<noteq> dq \<and> \<not> is_dec_digit c) \<Longrightarrow>
   json_parse s = None"
  by (simp add: json_parse_def parse_value_bad_start del: parse_value.simps)

text \<open>
  C17. Round trip: \<open>JSON.parse(JSON.stringify(v))\<close> gives back \<open>v\<close> for every
  JSON value \<open>v\<close> (no \<open>undefined\<close>, no non-finite number anywhere in it).
\<close>

theorem json_parse_print: "json_value v \<Longrightarrow> json_parse (json_print v) = Some v"
  by (simp add: json_parse_def json_parse_print_value skip_ws_def del: parse_value.simps)

theorem json_parse_print_witness:
  "json_value (VObj [(''msg'', VStr ''ok''), (''n'', VArr [VNum (Fin 15 (-1)), VBool True, VNull])]) \<and>
   json_parse (json_print (VObj [(''msg'', VStr ''ok''), (''n'', VArr [VNum (Fin 15 (-1)), VBool True, VNull])])) =
     Some (VObj [(''msg'', VStr ''ok''), (''n'', VArr [VNum (Fin 15 (-1)), VBool True, VNull])])"
proof
  show v: "json_value (VObj [(''msg'', VStr ''ok''), (''n'', VArr [VNum (Fin 15 (-1)), VBool True, VNull])])"
    by (simp add: canonical_def)
  show "json_parse (json_print (VObj [(''msg'', VStr ''ok''), (''n'', VArr [VNum (Fin 15 (-1)), VBool True, VNull])])) =
     Some (VObj [(''msg'', VStr ''ok''), (''n'', VArr [VNum (Fin 15 (-1)), VBool True, VNull])])"
    using json_parse_print [OF v] .
qed

end
