(* ===== verification/Sync.thy ===== *)
theory Sync
  imports SqlSink Json
begin

text \<open>
  The medal sync job \<open>getMedals\<close> (\<open>src/models/Server.js\<close>, lines 80 to 117):
  fetch the catalog, decode it with \<open>result.json()\<close>, then
  \<open>for (const m of medals)\<close> build the parameters of one record and fire one
  query, without awaiting it. The loop runs synchronously to its end or to the
  first exception; the queries it fired run later, on the pool, each on its own.

  \<open>get_medals\<close> returns the queries fired, in order, and the exception that ended
  the job, if any (it rejects the promise of the \<open>async\<close> function, which nobody
  awaits). \<open>run_queries\<close> executes fired queries one after the other; a failed query
  leaves the table as it is. \<open>sync_map\<close> is the abstract specification of a run:
  the map from key to the row of the last successful query for that key.
\<close>

datatype response = JsonBody jsv | NonJsonBody

datatype fetch_result = FetchError | Response response

text \<open>
  \<open>await result.json()\<close> (line 82): the body text read by \<open>JSON.parse\<close>; a text that is
  not JSON rejects the promise with a \<open>SyntaxError\<close>, which the model records as
  \<open>NonJsonBody\<close>.
\<close>

definition decode_body :: "string \<Rightarrow> response" where
  "decode_body b = (case json_parse b of Some v \<Rightarrow> JsonBody v | None \<Rightarrow> NonJsonBody)"

text \<open>
  \<open>for (const m of medals)\<close>: an array yields its elements, a string its characters
  (as one-character strings); any other value is not iterable and throws.
\<close>

definition medals_iter :: "jsv \<Rightarrow> js_error + jsv list" where
  "medals_iter medals =
     (case medals of
        VArr xs \<Rightarrow> Inr xs
      | VStr s \<Rightarrow> Inr (map (\<lambda>c. VStr [c]) s)
      | _ \<Rightarrow> Inl (TypeError ''medals is not iterable''))"

text \<open>The loop body for each record: build \<open>val\<close>, then \<open>this.mysqldb.query(sql, val)\<close>.\<close>

fun issue_queries :: "int \<Rightarrow> jsv list \<Rightarrow> param list list \<times> js_error option" where
  "issue_queries tz [] = ([], None)"
| "issue_queries tz (m # ms) =
     (case medal_values tz m of
        Inl e \<Rightarrow> ([], Some e)
      | Inr val \<Rightarrow> (case issue_queries tz ms of (qs, err) \<Rightarrow> (val # qs, err)))"

definition get_medals :: "int \<Rightarrow> fetch_result \<Rightarrow> param list list \<times> js_error option" where
  "get_medals tz r =
     (case r of
        FetchError \<Rightarrow> ([], Some FetchFailed)
      | Response NonJsonBody \<Rightarrow> ([], Some (SyntaxError ''Unexpected token in JSON''))
      | Response (JsonBody medals) \<Rightarrow>
          (case medals_iter medals of
             Inl e \<Rightarrow> ([], Some e)
           | Inr ms \<Rightarrow> issue_queries tz ms))"

definition run_queries :: "int \<Rightarrow> medal_table \<Rightarrow> param list list \<Rightarrow> medal_table" where
  "run_queries tz t qs = foldl (apply_query tz) t qs"

text \<open>One sync cycle with its queries executed in the order they were fired.\<close>

definition sync_once :: "int \<Rightarrow> medal_table \<Rightarrow> fetch_result \<Rightarrow> medal_table" where
  "sync_once tz t r = run_queries tz t (fst (get_medals tz r))"

text \<open>The abstract specification: the successful rows, the last one per key winning.\<close>

definition sync_rows :: "int \<Rightarrow> param list list \<Rightarrow> (int \<times> sql_value list) list" where
  "sync_rows tz qs = List.map_filter (query_row tz) qs"

definition sync_map :: "int \<Rightarrow> param list list \<Rightarrow> medal_table" where
  "sync_map tz qs = map_of (rev (sync_rows tz qs))"

definition key_consistent :: "(int \<times> sql_value list) list \<Rightarrow> bool" where
  "key_consistent xs \<longleftrightarrow> (\<forall>k r r'. (k, r) \<in> set xs \<longrightarrow> (k, r') \<in> set xs \<longrightarrow> r = r')"

text \<open>The parameters of a record that is not nullish.\<close>

definition record_params :: "int \<Rightarrow> jsv \<Rightarrow> param list" where
  "record_params tz m = (case medal_values tz m of Inr ps \<Rightarrow> ps | Inl _ \<Rightarrow> [])"

text \<open>A catalog record with every field in the form the catalog serves, for the examples.\<close>

definition demo_medal :: "string \<Rightarrow> string \<Rightarrow> jsv" where
  "demo_medal mid name = VObj
     [(''MedalID'', VStr mid), (''Name'', VStr name), (''Link'', VStr ''/m''),
      (''Description'', VStr ''d''), (''Restriction'', VStr ''r''), (''Grouping'', VStr ''Skill''),
      (''Instructions'', VStr ''i''), (''SolutionFound'', VStr ''1''), (''Solution'', VStr ''s''),
      (''Mods'', VNull), (''Locked'', VStr ''0''), (''Video'', VNull), (''Date'', VStr ''2014-05-21''),
      (''PackId'', VNull), (''FirstAchievedDate'', VStr ''2014-05-21 10:00:00''),
      (''FirstAchievedBy'', VNum (Fin 2 0)), (''ModeOrder'', VStr ''1''), (''Ordering'', VStr ''2''),
      (''Rarity'', VStr ''12.5'')]"

section \<open>Lemmas\<close>

lemma sync_rows_Cons:
  "sync_rows tz (q # qs) = (case query_row tz q of Some r \<Rightarrow> [r] | None \<Rightarrow> []) @ sync_rows tz qs"
  by (auto simp: sync_rows_def List.map_filter_def split: option.splits)

lemma sync_rows_append [simp]: "sync_rows tz (qs @ qs') = sync_rows tz qs @ sync_rows tz qs'"
  by (simp add: sync_rows_def List.map_filter_def)

lemma sync_map_Cons:
  "sync_map tz (q # qs) = (case query_row tz q of Some (k, row) \<Rightarrow> [k \<mapsto> row] | None \<Rightarrow> Map.empty) ++ sync_map tz qs"
  by (auto simp: sync_map_def sync_rows_Cons split: option.splits)

lemma run_queries_Cons: "run_queries tz t (q # qs) = run_queries tz (apply_query tz t q) qs"
  by (simp add: run_queries_def)

lemma run_queries_sync_map: "run_queries tz t qs = t ++ sync_map tz qs"
proof (induction qs arbitrary: t)
  case Nil
  then show ?case by (simp add: run_queries_def sync_map_def sync_rows_def List.map_filter_def)
next
  case (Cons q qs)
  then show ?case
    by (simp add: run_queries_Cons apply_query_map_add sync_map_Cons)
qed

lemma key_consistent_map_of_eq:
  assumes "key_consistent xs" and "set ys = set xs"
  shows "map_of ys = map_of xs"
proof
  fix k
  have cy: "key_consistent ys" using assms by (simp add: key_consistent_def)
  show "map_of ys k = map_of xs k"
  proof (cases "map_of xs k")
    case None
    then have "k \<notin> fst ` set xs" by (simp add: map_of_eq_None_iff)
    with assms(2) have "map_of ys k = None" by (simp add: map_of_eq_None_iff)
    with None show ?thesis by simp
  next
    case (Some r)
    then have kr: "(k, r) \<in> set ys" using assms(2) by (auto dest: map_of_SomeD)
    then obtain r' where r': "map_of ys k = Some r'"
      by (metis map_of_eq_None_iff not_None_eq image_eqI fst_conv)
    then have "(k, r') \<in> set ys" by (rule map_of_SomeD)
    with kr cy have "r' = r" by (auto simp: key_consistent_def)
    with r' Some show ?thesis by simp
  qed
qed

lemma sync_rows_mset: "mset qs' = mset qs \<Longrightarrow> set (sync_rows tz qs') = set (sync_rows tz qs)"
  by (auto simp: sync_rows_def List.map_filter_def dest: mset_eq_setD)

lemma issue_queries_all:
  "\<forall>m \<in> set ms. \<not> nullish m \<Longrightarrow> issue_queries tz ms = (map (record_params tz) ms, None)"
  by (induction ms) (auto simp: record_params_def medal_values_Inr)

lemma issue_queries_typed: "issue_queries tz ms = (qs, err) \<Longrightarrow> q \<in> set qs \<Longrightarrow> params_typed q"
  by (induction ms arbitrary: qs err) (auto dest: medal_values_typed split: sum.splits prod.splits)

lemma get_medals_typed: "get_medals tz r = (qs, err) \<Longrightarrow> q \<in> set qs \<Longrightarrow> params_typed q"
  by (auto simp: get_medals_def dest: issue_queries_typed
           split: fetch_result.splits response.splits sum.splits)

lemma issue_queries_stop:
  "\<forall>m \<in> set ms. \<not> nullish m \<Longrightarrow> medal_values tz m0 = Inl e \<Longrightarrow>
   issue_queries tz (ms @ m0 # ms') = (map (record_params tz) ms, Some e)"
  by (induction ms) (auto simp: record_params_def medal_values_Inr)

lemma run_queries_single: "run_queries tz t [q] = apply_query tz t q"
  by (simp add: run_queries_def)

lemma medal_values_record_params: "\<not> nullish m \<Longrightarrow> medal_values tz m = Inr (record_params tz m)"
  by (simp add: record_params_def medal_values_Inr)

lemma distinct_key_consistent: "distinct (map fst xs) \<Longrightarrow> key_consistent xs"
  by (auto simp: key_consistent_def dest: eq_key_imp_eq_value)

lemma record_params_length: "\<not> nullish m \<Longrightarrow> length (record_params tz m) = 19"
  by (simp add: record_params_def medal_values_Inr)

lemma record_params_key_Inr:
  assumes "\<not> nullish m" and "escape_all tz (record_params tz m) = Inr row"
  shows "\<exists>k. js_parseInt (get_field m ''MedalID'') = int_num k \<and> row_key row = Some k"
proof -
  let ?n = "js_parseInt (get_field m ''MedalID'')"
  from assms obtain v vs where v: "escape_jsv False (VNum ?n) = Inr v" and row: "row = v # vs"
    by (auto simp: record_params_def medal_values_Inr split: sum.splits)
  from v obtain a b where ab: "?n = Fin a b" "v = SqlNum a b"
    by (blast dest: escape_jsv_num_Inr)
  then obtain k where k: "?n = int_num k"
    using parse_int_cases [of "to_string (get_field m ''MedalID'')"] by (auto simp: js_parseInt_def)
  with ab have "int_num k = Fin a b" by simp
  then have "row_key row = Some k" using row ab by (simp add: row_key_int_num)
  with k show ?thesis by blast
qed

lemma run_queries_perm:
  assumes "key_consistent (sync_rows tz qs)" and "mset qs' = mset qs"
  shows "run_queries tz t qs' = run_queries tz t qs"
proof -
  have "set (rev (sync_rows tz qs')) = set (rev (sync_rows tz qs))"
    using sync_rows_mset [OF assms(2)] by simp
  moreover have "key_consistent (rev (sync_rows tz qs))"
    using assms(1) by (simp add: key_consistent_def)
  ultimately have "map_of (rev (sync_rows tz qs')) = map_of (rev (sync_rows tz qs))"
    by (rule key_consistent_map_of_eq [rotated])
  then show ?thesis by (simp add: run_queries_sync_map sync_map_def)
qed

lemma sync_map_twice [simp]: "sync_map tz (qs @ qs) = sync_map tz qs"
proof -
  have "map_of (rev (sync_rows tz qs) @ rev (sync_rows tz qs)) = map_of (rev (sync_rows tz qs))"
    by (rule ext) (simp add: map_add_def split: option.splits)
  then show ?thesis by (simp add: sync_map_def)
qed

lemma key_consistent_twice: "key_consistent (sync_rows tz qs) \<Longrightarrow> key_consistent (sync_rows tz (qs @ qs))"
  by (simp add: key_consistent_def)

section \<open>Properties of the sync job\<close>

text \<open>
  C1. Refinement: running the queries \<open>getMedals\<close> fires for a catalog of records,
  one after the other, overrides the table with the abstract map \<open>sync_map\<close> of
  the rows that succeed, the last one per key winning.
\<close>

theorem sync_once_refines_spec:
  assumes "\<forall>m \<in> set ms. \<not> nullish m"
  shows "sync_once tz t (Response (JsonBody (VArr ms))) = t ++ sync_map tz (map (record_params tz) ms)"
  using assms by (simp add: sync_once_def get_medals_def medals_iter_def issue_queries_all run_queries_sync_map)

theorem sync_once_refines_spec_witness:
  "sync_once 0 Map.empty (Response (JsonBody (VArr [demo_medal ''5'' ''old'', demo_medal ''5'' ''new''])))
     = Map.empty ++ sync_map 0 (map (record_params 0) [demo_medal ''5'' ''old'', demo_medal ''5'' ''new'']) \<and>
   map_option (column ''name'') (sync_map 0 (map (record_params 0) [demo_medal ''5'' ''old'', demo_medal ''5'' ''new'']) 5)
     = Some (Some (SqlStr ''new''))"
proof
  show "sync_once 0 Map.empty (Response (JsonBody (VArr [demo_medal ''5'' ''old'', demo_medal ''5'' ''new''])))
     = Map.empty ++ sync_map 0 (map (record_params 0) [demo_medal ''5'' ''old'', demo_medal ''5'' ''new''])"
    by (rule sync_once_refines_spec) (simp add: demo_medal_def nullish_def)
  show "map_option (column ''name'') (sync_map 0 (map (record_params 0) [demo_medal ''5'' ''old'', demo_medal ''5'' ''new'']) 5)
     = Some (Some (SqlStr ''new''))"
    by code_simp
qed

text \<open>
  C2. Functional behaviour of one record: when every parameter of a record escapes,
  the sync stores under the key \<open>parseInt(m.MedalID)\<close> exactly the row of the
  escaped parameters, column by column in the order of the statement.
\<close>

theorem sync_stored_row:
  assumes "\<not> nullish m" and "escape_all tz (record_params tz m) = Inr row"
  shows "\<exists>k. js_parseInt (get_field m ''MedalID'') = int_num k \<and>
             sync_once tz t (Response (JsonBody (VArr [m]))) = t(k \<mapsto> row) \<and>
             (\<forall>i < 19. escape_param tz (record_params tz m ! i) = Inr (row ! i))"
proof -
  obtain k where k: "js_parseInt (get_field m ''MedalID'') = int_num k" and key: "row_key row = Some k"
    using record_params_key_Inr [OF assms] by blast
  have "query_row tz (record_params tz m) = Some (k, row)"
    using assms(2) key by (simp add: query_row_def)
  then have "sync_once tz t (Response (JsonBody (VArr [m]))) = t(k \<mapsto> row)"
    using assms(1)
    by (simp add: sync_once_def get_medals_def medals_iter_def medal_values_record_params
                  run_queries_single apply_query_row)
  moreover have "\<forall>i < 19. escape_param tz (record_params tz m ! i) = Inr (row ! i)"
    using escape_all_nth [OF assms(2)] record_params_length [OF assms(1)] by simp
  ultimately show ?thesis using k by blast
qed

theorem sync_stored_row_witness:
  "\<exists>k. js_parseInt (get_field (demo_medal ''5'' ''Test'') ''MedalID'') = int_num k \<and>
       sync_once 0 Map.empty (Response (JsonBody (VArr [demo_medal ''5'' ''Test'']))) =
         Map.empty(k \<mapsto> projr (escape_all 0 (record_params 0 (demo_medal ''5'' ''Test'')))) \<and>
       (\<forall>i < 19. escape_param 0 (record_params 0 (demo_medal ''5'' ''Test'') ! i)
                   = Inr (projr (escape_all 0 (record_params 0 (demo_medal ''5'' ''Test''))) ! i))"
proof -
  have nn: "\<not> nullish (demo_medal ''5'' ''Test'')" by (simp add: demo_medal_def nullish_def)
  have "\<not> isl (escape_all 0 (record_params 0 (demo_medal ''5'' ''Test'')))" by code_simp
  then obtain row where row: "escape_all 0 (record_params 0 (demo_medal ''5'' ''Test'')) = Inr row"
    by (cases "escape_all 0 (record_params 0 (demo_medal ''5'' ''Test''))") auto
  show ?thesis using sync_stored_row [OF nn row, of Map.empty] row by simp
qed

text \<open>
  C3. Error path: a \<open>null\<close> record throws a \<open>TypeError\<close> at \<open>m.MedalID\<close>, which
  ends the loop: the records before it have had their queries fired, the records
  after it never do, and the job's promise rejects.
\<close>

theorem null_record_aborts_batch:
  assumes "\<forall>m \<in> set ms. \<not> nullish m"
  shows "get_medals tz (Response (JsonBody (VArr (ms @ VNull # ms')))) =
           (map (record_params tz) ms, Some (TypeError ''Cannot read properties of null (reading MedalID)''))"
  using assms by (simp add: get_medals_def medals_iter_def issue_queries_stop medal_values_def)

theorem null_record_aborts_batch_witness:
  "get_medals 0 (Response (JsonBody (VArr ([demo_medal ''5'' ''A''] @ VNull # [demo_medal ''6'' ''B''])))) =
     (map (record_params 0) [demo_medal ''5'' ''A''], Some (TypeError ''Cannot read properties of null (reading MedalID)''))"
  using null_record_aborts_batch [of "[demo_medal ''5'' ''A'']" 0 "[demo_medal ''6'' ''B'']"]
  by (simp add: demo_medal_def nullish_def)

text \<open>
  C4. Error path: a record whose \<open>MedalID\<close> does not start with a number gets the
  key \<open>NaN\<close>; the server rejects the statement (unknown column \<open>NaN\<close>) and the
  table is unchanged: the record is dropped, not stored under an invalid key.
\<close>

theorem nan_medal_id_rejected:
  assumes "\<not> nullish m" and "js_parseInt (get_field m ''MedalID'') = NaN"
  shows "exec_query tz t (record_params tz m) = Inl (UnknownColumn ''NaN'') \<and>
         apply_query tz t (record_params tz m) = t"
  using assms by (simp add: record_params_def medal_values_Inr exec_query_def apply_query_def)

theorem nan_medal_id_rejected_witness:
  "exec_query 0 Map.empty (record_params 0 (demo_medal ''abc'' ''A'')) = Inl (UnknownColumn ''NaN'') \<and>
   apply_query 0 Map.empty (record_params 0 (demo_medal ''abc'' ''A'')) = Map.empty"
proof -
  have nn: "\<not> nullish (demo_medal ''abc'' ''A'')" by (simp add: demo_medal_def nullish_def)
  have nan: "js_parseInt (get_field (demo_medal ''abc'' ''A'') ''MedalID'') = NaN" by code_simp
  show ?thesis by (rule nan_medal_id_rejected [OF nn nan])
qed

text \<open>
  C5. No pruning: a sync never removes a row, and a row whose key no successful query
  of the cycle writes keeps its old value, even when the record disappeared upstream.
\<close>

theorem sync_never_prunes:
  assumes "k \<notin> dom (sync_map tz (fst (get_medals tz r)))"
  shows "dom t \<subseteq> dom (sync_once tz t r) \<and> sync_once tz t r k = t k"
  using assms by (auto simp: sync_once_def run_queries_sync_map map_add_def split: option.splits)

theorem sync_never_prunes_witness:
  "dom [9 \<mapsto> []] \<subseteq> dom (sync_once 0 [9 \<mapsto> []] (Response (JsonBody (VArr [demo_medal ''5'' ''A''])))) \<and>
   sync_once 0 [9 \<mapsto> []] (Response (JsonBody (VArr [demo_medal ''5'' ''A'']))) 9 = Some []"
proof -
  have "sync_map 0 (fst (get_medals 0 (Response (JsonBody (VArr [demo_medal ''5'' ''A'']))))) 9 = None"
    by code_simp
  then have "(9::int) \<notin> dom (sync_map 0 (fst (get_medals 0 (Response (JsonBody (VArr [demo_medal ''5'' ''A'']))))))"
    by (simp add: domIff)
  from sync_never_prunes [OF this, of "[9 \<mapsto> []]"] show ?thesis by simp
qed

text \<open>
  C18. Error path of \<open>result.json()\<close>: when upstream answers with a body that is not
  JSON (empty, or an HTML error page: its first character after white space cannot
  start a JSON value), the job fires no query, ends with a \<open>SyntaxError\<close>, and the
  table stays as it was.
\<close>

theorem non_json_body_writes_nothing:
  assumes "case skip_ws b of [] \<Rightarrow> True | c # r \<Rightarrow> c \<notin> set ''{[tfn-'' \<and> c \<noteq> dq \<and> \<not> is_dec_digit c"
  shows "get_medals tz (Response (decode_body b)) = ([], Some (SyntaxError ''Unexpected token in JSON'')) \<and>
         sync_once tz t (Response (decode_body b)) = t"
  using json_parse_bad_start [OF assms]
  by (simp add: decode_body_def get_medals_def sync_once_def run_queries_def)

theorem non_json_body_writes_nothing_witness:
  "get_medals 0 (Response (decode_body '' <html>''))
     = ([], Some (SyntaxError ''Unexpected token in JSON'')) \<and>
   sync_once 0 [9 \<mapsto> []] (Response (decode_body '' <html>'')) = [9 \<mapsto> []]"
  by (rule non_json_body_writes_nothing) (simp add: skip_ws_def json_ws_def is_radix_digit_def char_digit_def)

text \<open>
  C19. Refinement through the wire: when upstream serves a catalog of JSON records as
  JSON text, the job that decodes it with \<open>result.json()\<close> and runs its queries
  writes exactly the abstract map \<open>sync_map\<close> of the records into the table.
\<close>

theorem sync_once_text_catalog:
  assumes "\<forall>m \<in> set ms. json_value m \<and> \<not> nullish m"
  shows "sync_once tz t (Response (decode_body (json_print (VArr ms)))) = t ++ sync_map tz (map (record_params tz) ms)"
proof -
  have "json_value (VArr ms)" using assms by simp
  then have "decode_body (json_print (VArr ms)) = JsonBody (VArr ms)"
    by (simp add: decode_body_def json_parse_def skip_ws_def json_parse_print_value del: parse_value.simps json_print.simps)
  then show ?thesis
    using assms by (simp add: sync_once_def get_medals_def medals_iter_def issue_queries_all run_queries_sync_map)
qed

theorem sync_once_text_catalog_witness:
  "sync_once 0 Map.empty (Response (decode_body (json_print (VArr [demo_medal ''5'' ''old'', demo_medal ''5'' ''new'']))))
     = Map.empty ++ sync_map 0 (map (record_params 0) [demo_medal ''5'' ''old'', demo_medal ''5'' ''new'']) \<and>
   map_option (column ''name'') (sync_map 0 (map (record_params 0) [demo_medal ''5'' ''old'', demo_medal ''5'' ''new'']) 5)
     = Some (Some (SqlStr ''new''))"
proof
  show "sync_once 0 Map.empty (Response (decode_body (json_print (VArr [demo_medal ''5'' ''old'', demo_medal ''5'' ''new'']))))
     = Map.empty ++ sync_map 0 (map (record_params 0) [demo_medal ''5'' ''old'', demo_medal ''5'' ''new''])"
    by (rule sync_once_text_catalog) (simp add: demo_medal_def nullish_def canonical_def)
  show "map_option (column ''name'') (sync_map 0 (map (record_params 0) [demo_medal ''5'' ''old'', demo_medal ''5'' ''new'']) 5)
     = Some (Some (SqlStr ''new''))"
    by code_simp
qed

end
