(* ===== verification/Server.thy ===== *)
theory Server
  imports Sync
begin

text \<open>
  The class \<open>Server\<close> (\<open>src/models/Server.js\<close>, lines 9 to 78) as an event-driven
  state machine on one event loop. The constructor runs \<open>middlewares()\<close> (which
  calls \<open>database()\<close> and \<open>osuApi()\<close>), \<open>routes()\<close> and \<open>schedules()\<close>; an
  \<open>async\<close> method runs synchronously up to its first \<open>await\<close>, so the
  constructor leaves a login and a \<open>getMedals\<close> run in flight and two timers
  registered. Afterwards the state changes only by events: a fetch of a
  \<open>getMedals\<close> run settles, the pool completes a query, the midnight job or the
  24-hour login timer fires, a login settles, the MongoDB connection settles or
  emits an event.

  Nothing awaits or catches the promises of \<open>getMedals\<close>, of the fired queries and
  of \<open>login\<close>: a failure is an unhandled rejection. What the runtime then does is the
  parameter \<open>rej_mode\<close>: \<open>RejWarn\<close> logs it and goes on (Node before 15, or
  \<open>--unhandled-rejections=warn\<close>), \<open>RejThrow\<close> ends the process (the default
  since Node 15). \<open>GET /\<close> answers only while the process is alive.
\<close>

datatype rej_mode = RejWarn | RejThrow

text \<open>
  The MongoDB connection (lines 35 to 41) is an event emitter. \<open>mongodb.on(name, f)\<close>
  adds a listener that stays, \<open>mongodb.once(name, f)\<close> one that is removed when it
  first runs; a listener is its event name, whether it is a \<open>once\<close> listener, and
  what it does. The emitter raises \<open>'open'\<close> when the connection is established and
  \<open>'error'\<close> with an error; Mongoose raises \<open>'error'\<close> also when the initial
  connection fails, and then rejects the promise of \<open>mongoose.connect\<close>.
\<close>

datatype mongo_event = MOpen | MError string

datatype mongo_action = ConsoleError | LogConnected

type_synonym listener = "string \<times> bool \<times> mongo_action"

datatype event =
    FetchDone fetch_result
  | QueryDone "param list"
  | Midnight
  | LoginTick
  | LoginDone bool
  | Listen
  | MongoConnectDone "string option"
  | MongoEmit mongo_event

record server_state =
  port :: jsv
  listening :: bool
  table :: medal_table
  pool_ready :: bool
  routes_ready :: bool
  login_timer :: bool
  medal_job :: bool
  pending :: "param list multiset"
  fetching :: nat
  login_pending :: nat
  logged_in :: bool
  alive :: bool
  log :: "string list"
  err_log :: "string list"
  mongo_pending :: bool
  mongo_connected :: bool
  mongo_listeners :: "listener list"

text \<open>
  A variable of \<open>process.env\<close>: \<open>undefined\<close> when it is not set, else its
  string.
\<close>

fun env_value :: "string option \<Rightarrow> jsv" where
  "env_value None = VUndefined"
| "env_value (Some v) = VStr v"

text \<open>
  The process as the constructor's first lines leave it (\<open>this.port\<close> from
  \<open>process.env.PORT\<close>, given as \<open>penv\<close>, with the default 5000), with the
  table's existing rows.
\<close>

definition boot_state :: "jsv \<Rightarrow> medal_table \<Rightarrow> server_state" where
  "boot_state penv t0 =
     \<lparr>port = js_or penv (VNum (int_num 5000)), listening = False, table = t0, pool_ready = False, routes_ready = False, login_timer = False, medal_job = False,
      pending = {#}, fetching = 0, login_pending = 0, logged_in = False, alive = True, log = [],
      err_log = [], mongo_pending = False, mongo_connected = False, mongo_listeners = []\<rparr>"

fun mongo_event_name :: "mongo_event \<Rightarrow> string" where
  "mongo_event_name MOpen = ''open''"
| "mongo_event_name (MError _) = ''error''"

text \<open>
  The two callbacks of lines 40 and 41: \<open>console.error(err)\<close> writes the error to
  standard error (\<open>undefined\<close> for an event without one), \<open>console.log\<close> the message.
\<close>

fun run_listener :: "mongo_event \<Rightarrow> mongo_action \<Rightarrow> server_state \<Rightarrow> server_state" where
  "run_listener e ConsoleError s =
     s\<lparr>err_log := err_log s @ [case e of MError err \<Rightarrow> err | MOpen \<Rightarrow> ''undefined'']\<rparr>"
| "run_listener e LogConnected s = s\<lparr>log := log s @ [''Connected to mongodb!'']\<rparr>"

text \<open>
  \<open>emit\<close>: the listeners of the event run in the order they were added, the
  \<open>once\<close> ones removed first; an \<open>'error'\<close> without a listener is thrown, an
  uncaught exception that ends the process.
\<close>

definition mongo_emit :: "mongo_event \<Rightarrow> server_state \<Rightarrow> server_state" where
  "mongo_emit e s =
     (let n = mongo_event_name e;
          ls = filter (\<lambda>l. fst l = n) (mongo_listeners s);
          s1 = s\<lparr>mongo_listeners := filter (\<lambda>l. \<not> (fst l = n \<and> fst (snd l))) (mongo_listeners s)\<rparr> in
      if ls = [] \<and> n = ''error'' then s1\<lparr>alive := False\<rparr>
      else fold (\<lambda>l. run_listener e (snd (snd l))) ls s1)"

text \<open>
  \<open>database()\<close>: \<open>mongoose.connect\<close> starts connecting (it settles later,
  \<open>MongoConnectDone\<close>), the \<open>'error'\<close> and \<open>'open'\<close> listeners are added, and
  the MySQL promise pool is assigned to \<open>this.mysqldb\<close>.
\<close>

definition database :: "server_state \<Rightarrow> server_state" where
  "database s =
     s\<lparr>mongo_pending := True,
       mongo_listeners := mongo_listeners s @ [(''error'', False, ConsoleError), (''open'', True, LogConnected)],
       pool_ready := True\<rparr>"

text \<open>\<open>login()\<close>: \<open>auth.login(...)\<close> is called; it settles later (\<open>LoginDone\<close>).\<close>

definition login :: "server_state \<Rightarrow> server_state" where
  "login s = s\<lparr>login_pending := login_pending s + 1\<rparr>"

text \<open>\<open>osuApi()\<close>: start a login, log success at once, register the 24-hour timer.\<close>

definition osu_api :: "server_state \<Rightarrow> server_state" where
  "osu_api s =
     (let s1 = login s in s1\<lparr>log := log s1 @ [''Logged into Application''], login_timer := True\<rparr>)"

definition middlewares :: "server_state \<Rightarrow> server_state" where
  "middlewares s = osu_api (database s)"

definition routes_setup :: "server_state \<Rightarrow> server_state" where
  "routes_setup s = s\<lparr>routes_ready := True\<rparr>"

text \<open>
  \<open>listen()\<close>, called by the entry point: the HTTP server binds \<open>this.port\<close>
  and its callback logs the template string with the port converted by \<open>ToString\<close>.
\<close>

definition listen :: "server_state \<Rightarrow> server_state" where
  "listen s = s\<lparr>listening := True, log := log s @ [''Server running on port '' @ to_string (port s)]\<rparr>"

text \<open>\<open>this.getMedals()\<close> runs until \<open>await fetch(...)\<close>.\<close>

definition start_get_medals :: "server_state \<Rightarrow> server_state" where
  "start_get_medals s = s\<lparr>fetching := fetching s + 1\<rparr>"

definition schedules :: "server_state \<Rightarrow> server_state" where
  "schedules s = (start_get_medals s)\<lparr>medal_job := True\<rparr>"

definition construct :: "jsv \<Rightarrow> medal_table \<Rightarrow> server_state" where
  "construct penv t0 = schedules (routes_setup (middlewares (boot_state penv t0)))"

definition reject :: "rej_mode \<Rightarrow> server_state \<Rightarrow> server_state" where
  "reject mode s = (case mode of RejWarn \<Rightarrow> s | RejThrow \<Rightarrow> s\<lparr>alive := False\<rparr>)"

text \<open>
  One event; \<open>None\<close> when the event cannot happen in the state. When a fetch
  settles, the rest of \<open>getMedals\<close> runs synchronously: its queries join the
  pool's pending set, and an exception rejects the run's promise. When
  \<open>mongoose.connect\<close> settles (\<open>None\<close>: connected, \<open>Some err\<close>: failed), the
  connection emits \<open>'open'\<close> or \<open>'error'\<close>, and a failure also rejects the
  promise nobody awaits. A connected connection may emit any event later
  (errors, reconnections).
\<close>

fun server_step :: "rej_mode \<Rightarrow> int \<Rightarrow> server_state \<Rightarrow> event \<Rightarrow> server_state option" where
  "server_step mode tz s (FetchDone r) =
     (if alive s \<and> 0 < fetching s then
        (case get_medals tz r of (qs, err) \<Rightarrow>
           let s' = s\<lparr>fetching := fetching s - 1, pending := pending s + mset qs\<rparr> in
           Some (case err of None \<Rightarrow> s' | Some _ \<Rightarrow> reject mode s'))
      else None)"
| "server_step mode tz s (QueryDone q) =
     (if alive s \<and> q \<in># pending s then
        let s' = s\<lparr>pending := pending s - {#q#}\<rparr> in
        Some (case exec_query tz (table s) q of Inr t' \<Rightarrow> s'\<lparr>table := t'\<rparr> | Inl _ \<Rightarrow> reject mode s')
      else None)"
| "server_step mode tz s Midnight = (if alive s \<and> medal_job s then Some (start_get_medals s) else None)"
| "server_step mode tz s LoginTick = (if alive s \<and> login_timer s then Some (login s) else None)"
| "server_step mode tz s (LoginDone ok) =
     (if alive s \<and> 0 < login_pending s then
        let s' = s\<lparr>login_pending := login_pending s - 1\<rparr> in
        Some (if ok then s'\<lparr>logged_in := True\<rparr> else reject mode s')
      else None)"
| "server_step mode tz s Listen = (if alive s then Some (listen s) else None)"
| "server_step mode tz s (MongoConnectDone res) =
     (if alive s \<and> mongo_pending s then
        let s' = s\<lparr>mongo_pending := False, mongo_connected := (res = None)\<rparr> in
        Some (case res of None \<Rightarrow> mongo_emit MOpen s' | Some err \<Rightarrow> reject mode (mongo_emit (MError err) s'))
      else None)"
| "server_step mode tz s (MongoEmit e) = (if alive s \<and> mongo_connected s then Some (mongo_emit e s) else None)"

fun run_events :: "rej_mode \<Rightarrow> int \<Rightarrow> server_state \<Rightarrow> event list \<Rightarrow> server_state option" where
  "run_events mode tz s [] = Some s"
| "run_events mode tz s (ev # evs) =
     (case server_step mode tz s ev of None \<Rightarrow> None | Some s' \<Rightarrow> run_events mode tz s' evs)"

text \<open>\<open>GET /\<close> (line 27): the health message, while the process serves.\<close>

definition root_response :: jsv where
  "root_response = VObj [(''msg'', VStr (''Server is running '' @ map char_of [240, 159, 154, 128 :: nat]))]"

definition handle_root :: "server_state \<Rightarrow> jsv option" where
  "handle_root s = (if alive s \<and> routes_ready s then Some root_response else None)"

text \<open>
  The MongoDB listeners of a running server: the \<open>'error'\<close> listener, and the
  \<open>'open'\<close> listener until it has logged the connection.
\<close>

definition mongo_inv :: "server_state \<Rightarrow> bool" where
  "mongo_inv s \<longleftrightarrow>
     (mongo_listeners s = [(''error'', False, ConsoleError), (''open'', True, LogConnected)] \<and>
      count_list (log s) ''Connected to mongodb!'' = 0) \<or>
     (mongo_listeners s = [(''error'', False, ConsoleError)] \<and> count_list (log s) ''Connected to mongodb!'' = 1)"

text \<open>Every stored row sits under its own key.\<close>

definition keys_ok :: "medal_table \<Rightarrow> bool" where
  "keys_ok t \<longleftrightarrow> (\<forall>k row. t k = Some row \<longrightarrow> row_key row = Some k)"

inductive reachable :: "rej_mode \<Rightarrow> int \<Rightarrow> medal_table \<Rightarrow> server_state \<Rightarrow> bool"
  for mode tz t0 where
  start: "keys_ok t0 \<Longrightarrow> reachable mode tz t0 (construct penv t0)"
| step: "reachable mode tz t0 s \<Longrightarrow> server_step mode tz s ev = Some s' \<Longrightarrow> reachable mode tz t0 s'"

text \<open>The stored rows have the column types, and so do the queries in flight.\<close>

definition state_typed :: "server_state \<Rightarrow> bool" where
  "state_typed s \<longleftrightarrow> table_typed (table s) \<and> (\<forall>q \<in># pending s. params_typed q)"

section \<open>Lemmas\<close>

lemma construct_simps [simp]:
  "table (construct penv t0) = t0" "pool_ready (construct penv t0)" "routes_ready (construct penv t0)"
  "login_timer (construct penv t0)" "medal_job (construct penv t0)" "pending (construct penv t0) = {#}"
  "fetching (construct penv t0) = 1" "login_pending (construct penv t0) = 1" "\<not> logged_in (construct penv t0)"
  "alive (construct penv t0)" "log (construct penv t0) = [''Logged into Application'']"
  "port (construct penv t0) = js_or penv (VNum (int_num 5000))" "\<not> listening (construct penv t0)"
  "mongo_listeners (construct penv t0) = [(''error'', False, ConsoleError), (''open'', True, LogConnected)]"
  "err_log (construct penv t0) = []" "mongo_pending (construct penv t0)" "\<not> mongo_connected (construct penv t0)"
  by (simp_all add: construct_def schedules_def start_get_medals_def routes_setup_def middlewares_def
                    osu_api_def login_def database_def boot_state_def)

text \<open>Running the listeners in order appends their output to the two streams.\<close>

lemma fold_run_listener:
  "fold (\<lambda>l. run_listener e (snd (snd l))) ls s =
     s\<lparr>log := log s @ concat (map (\<lambda>l. if snd (snd l) = LogConnected then [''Connected to mongodb!''] else []) ls),
       err_log := err_log s @
         concat (map (\<lambda>l. if snd (snd l) = ConsoleError then [case e of MError err \<Rightarrow> err | MOpen \<Rightarrow> ''undefined''] else []) ls)\<rparr>"
proof (induction ls arbitrary: s)
  case (Cons l ls)
  then show ?case by (cases "snd (snd l)") simp_all
qed simp

lemma mongo_emit_simps [simp]:
  "table (mongo_emit e s) = table s" "pending (mongo_emit e s) = pending s" "routes_ready (mongo_emit e s) = routes_ready s"
  "fetching (mongo_emit e s) = fetching s" "login_pending (mongo_emit e s) = login_pending s"
  "logged_in (mongo_emit e s) = logged_in s" "medal_job (mongo_emit e s) = medal_job s"
  "login_timer (mongo_emit e s) = login_timer s" "pool_ready (mongo_emit e s) = pool_ready s"
  "port (mongo_emit e s) = port s" "listening (mongo_emit e s) = listening s"
  "mongo_pending (mongo_emit e s) = mongo_pending s" "mongo_connected (mongo_emit e s) = mongo_connected s"
  "mongo_listeners (mongo_emit e s) = filter (\<lambda>l. \<not> (fst l = mongo_event_name e \<and> fst (snd l))) (mongo_listeners s)"
  by (simp_all add: mongo_emit_def Let_def fold_run_listener)

text \<open>An emitter with an \<open>'error'\<close> listener never throws.\<close>

lemma mongo_emit_alive:
  "(''error'', False, ConsoleError) \<in> set (mongo_listeners s) \<Longrightarrow> alive (mongo_emit e s) = alive s"
  by (cases e) (auto simp: mongo_emit_def Let_def fold_run_listener filter_empty_conv)

lemma reject_simps [simp]:
  "reject RejWarn s = s" "reject RejThrow s = s\<lparr>alive := False\<rparr>"
  "table (reject mode s) = table s" "routes_ready (reject mode s) = routes_ready s"
  "pending (reject mode s) = pending s" "fetching (reject mode s) = fetching s"
  "log (reject mode s) = log s" "logged_in (reject mode s) = logged_in s"
  "medal_job (reject mode s) = medal_job s" "login_timer (reject mode s) = login_timer s"
  "err_log (reject mode s) = err_log s" "mongo_listeners (reject mode s) = mongo_listeners s"
  by (simp_all add: reject_def split: rej_mode.splits)

lemma server_step_typed:
  "server_step mode tz s ev = Some s' \<Longrightarrow> state_typed s \<Longrightarrow> state_typed s'"
  by (cases ev)
     (auto simp: state_typed_def start_get_medals_def login_def listen_def Let_def
           dest: exec_query_typed get_medals_typed dest!: in_diffD
           split: if_splits prod.splits option.splits sum.splits)

lemma server_step_warn_serves:
  "server_step RejWarn tz s ev = Some s' \<Longrightarrow> (''error'', False, ConsoleError) \<in> set (mongo_listeners s) \<Longrightarrow>
   alive s' \<and> routes_ready s' = routes_ready s"
  by (cases ev)
     (auto simp: start_get_medals_def login_def listen_def Let_def mongo_emit_alive
           split: if_splits prod.splits option.splits sum.splits)

lemma mongo_emit_inv: "mongo_inv s \<Longrightarrow> mongo_inv (mongo_emit e s)"
  by (cases e) (auto simp: mongo_inv_def mongo_emit_def fold_run_listener)

lemma mongo_inv_simps [simp]:
  "mongo_inv (reject mode s) = mongo_inv s"
  "mongo_inv (s\<lparr>mongo_pending := b, mongo_connected := c\<rparr>) = mongo_inv s"
  by (simp_all add: mongo_inv_def)

lemma server_step_mongo_inv:
  "server_step mode tz s ev = Some s' \<Longrightarrow> mongo_inv s \<Longrightarrow> mongo_inv s'"
proof (cases ev)
  case (MongoConnectDone res)
  assume "server_step mode tz s ev = Some s'" "mongo_inv s"
  then show ?thesis using MongoConnectDone by (auto simp: Let_def mongo_emit_inv split: if_splits option.splits)
next
  case (MongoEmit e)
  assume "server_step mode tz s ev = Some s'" "mongo_inv s"
  then show ?thesis using MongoEmit by (auto simp: mongo_emit_inv split: if_splits)
qed (auto simp: mongo_inv_def start_get_medals_def login_def listen_def Let_def
          split: if_splits prod.splits option.splits sum.splits)

lemma mongo_emit_error:
  "mongo_inv s \<Longrightarrow>
   alive (mongo_emit (MError err) s) = alive s \<and> err_log (mongo_emit (MError err) s) = err_log s @ [err] \<and>
   log (mongo_emit (MError err) s) = log s"
  by (auto simp: mongo_inv_def mongo_emit_def fold_run_listener)

lemma reachable_mongo_inv: "reachable mode tz t0 s \<Longrightarrow> mongo_inv s"
proof (induction rule: reachable.induct)
  case start
  then show ?case by (simp add: mongo_inv_def)
next
  case (step s ev s')
  then show ?case by (blast intro: server_step_mongo_inv)
qed

lemma server_step_query:
  "alive s \<Longrightarrow> q \<in># pending s \<Longrightarrow>
   server_step RejWarn tz s (QueryDone q) = Some (s\<lparr>table := apply_query tz (table s) q, pending := pending s - {#q#}\<rparr>)"
  by (simp add: apply_query_def split: sum.splits)

lemma run_events_append:
  "run_events mode tz s (evs @ evs') = (case run_events mode tz s evs of None \<Rightarrow> None | Some s' \<Rightarrow> run_events mode tz s' evs')"
  by (induction evs arbitrary: s) (auto split: option.splits)

lemma run_events_queries:
  "alive s \<Longrightarrow> mset qs \<subseteq># pending s \<Longrightarrow>
   run_events RejWarn tz s (map QueryDone qs) =
     Some (s\<lparr>table := run_queries tz (table s) qs, pending := pending s - mset qs\<rparr>)"
proof (induction qs arbitrary: s)
  case Nil
  then show ?case by (simp add: run_queries_def)
next
  case (Cons q qs)
  then have q: "q \<in># pending s" and rest: "mset qs \<subseteq># pending s - {#q#}"
    by (simp_all add: insert_subset_eq_iff)
  let ?s1 = "s\<lparr>table := apply_query tz (table s) q, pending := pending s - {#q#}\<rparr>"
  have "run_events RejWarn tz ?s1 (map QueryDone qs) =
          Some (?s1\<lparr>table := run_queries tz (table ?s1) qs, pending := pending ?s1 - mset qs\<rparr>)"
    using Cons.IH [of ?s1] Cons.prems(1) rest by simp
  moreover have "server_step RejWarn tz s (QueryDone q) = Some ?s1"
    by (rule server_step_query [OF Cons.prems(1) q])
  ultimately show ?case
    by (simp del: server_step.simps add: run_queries_Cons diff_diff_add)
qed

lemma reachable_run_events:
  "run_events mode tz s evs = Some s' \<Longrightarrow> reachable mode tz t0 s \<Longrightarrow> reachable mode tz t0 s'"
proof (induction evs arbitrary: s)
  case Nil
  then show ?case by simp
next
  case (Cons ev evs)
  then obtain s1 where s1: "server_step mode tz s ev = Some s1" and rest: "run_events mode tz s1 evs = Some s'"
    by (auto split: option.splits)
  from Cons.prems(2) s1 have "reachable mode tz t0 s1" by (rule reachable.step)
  with rest show ?case by (rule Cons.IH)
qed

lemma fetch_twice:
  assumes "alive s" and "fetching s = 2"
  shows "run_events RejWarn tz s [FetchDone r, FetchDone r] =
           Some (s\<lparr>fetching := 0, pending := pending s + mset (fst (get_medals tz r)) + mset (fst (get_medals tz r))\<rparr>)"
  using assms by (simp add: Let_def split: prod.splits option.splits)

lemma default_port_string: "number_to_string (int_num 5000) = ''5000''"
proof -
  have "int_string 5000 = ''5000''" by code_simp
  then show ?thesis by (simp add: number_to_string_int_num)
qed

lemma warn_reachable_alive: "reachable RejWarn tz t0 s \<Longrightarrow> alive s \<and> routes_ready s"
proof (induction rule: reachable.induct)
  case start
  then show ?case by simp
next
  case (step s ev s')
  have "(''error'', False, ConsoleError) \<in> set (mongo_listeners s)"
    using reachable_mongo_inv [OF step.hyps(1)] by (auto simp: mongo_inv_def)
  then show ?case using server_step_warn_serves [OF step.hyps(2)] step.IH by simp
qed

lemma reachable_timers: "reachable mode tz t0 s \<Longrightarrow> medal_job s \<and> login_timer s \<and> routes_ready s"
proof (induction rule: reachable.induct)
  case start
  then show ?case by simp
next
  case (step s ev s')
  then show ?case
    by (cases ev) (auto simp: start_get_medals_def login_def listen_def Let_def
                        split: if_splits prod.splits option.splits sum.splits)
qed

section \<open>Properties of the server\<close>

text \<open>
  C10. Safety under a runtime that only logs unhandled rejections: in every reachable
  state \<open>GET /\<close> answers with the health message, whatever failed in the background
  (fetch, JSON, a record, a query, a login).
\<close>

theorem warn_mode_always_serves:
  assumes "reachable RejWarn tz t0 s"
  shows "handle_root s = Some root_response"
  using warn_reachable_alive [OF assms] by (simp add: handle_root_def)

theorem warn_mode_always_serves_witness:
  "handle_root (the (server_step RejWarn 0 (construct VUndefined Map.empty) (FetchDone FetchError))) = Some root_response"
proof -
  obtain s' where s': "server_step RejWarn 0 (construct VUndefined Map.empty) (FetchDone FetchError) = Some s'"
    by (simp add: get_medals_def)
  have "reachable RejWarn 0 Map.empty (construct VUndefined Map.empty)"
    by (rule reachable.start) (simp add: keys_ok_def)
  from reachable.step [OF this s'] have "reachable RejWarn 0 Map.empty s'" .
  from warn_mode_always_serves [OF this] s' show ?thesis by simp
qed

text \<open>
  C11. Overlapping runs: nothing prevents a second \<open>getMedals\<close> run from starting
  while one is in flight. When both fetch the same catalog with no conflicting
  duplicates, every interleaving in which the pool executes their queries leaves the
  table as one run does.
\<close>

theorem overlapping_runs_converge:
  assumes "alive s" and "fetching s = 2" and "pending s = {#}"
      and "key_consistent (sync_rows tz (fst (get_medals tz r)))"
      and "mset qs' = mset (fst (get_medals tz r)) + mset (fst (get_medals tz r))"
  shows "\<exists>s'. run_events RejWarn tz s ([FetchDone r, FetchDone r] @ map QueryDone qs') = Some s' \<and>
              table s' = table s ++ sync_map tz (fst (get_medals tz r)) \<and> pending s' = {#} \<and> fetching s' = 0"
proof -
  let ?qs = "fst (get_medals tz r)"
  let ?s2 = "s\<lparr>fetching := 0, pending := pending s + mset ?qs + mset ?qs\<rparr>"
  have s2: "run_events RejWarn tz s [FetchDone r, FetchDone r] = Some ?s2"
    using assms(1,2) by (rule fetch_twice)
  have "mset qs' \<subseteq># pending ?s2" using assms(3,5) by simp
  then have q: "run_events RejWarn tz ?s2 (map QueryDone qs') =
                  Some (?s2\<lparr>table := run_queries tz (table s) qs', pending := pending ?s2 - mset qs'\<rparr>)"
    using assms(1) by (simp add: run_events_queries)
  have "run_queries tz (table s) qs' = run_queries tz (table s) (?qs @ ?qs)"
    using key_consistent_twice [OF assms(4)] assms(5) by (simp add: run_queries_perm)
  also have "\<dots> = table s ++ sync_map tz ?qs" by (simp add: run_queries_sync_map)
  finally have tab: "run_queries tz (table s) qs' = table s ++ sync_map tz ?qs" .
  have "run_events RejWarn tz s ([FetchDone r, FetchDone r] @ map QueryDone qs') =
          run_events RejWarn tz ?s2 (map QueryDone qs')"
    by (simp only: run_events_append s2 option.case)
  with q tab assms(3,5) show ?thesis by simp
qed

theorem overlapping_runs_converge_witness:
  "\<exists>s'. run_events RejWarn 0 (start_get_medals (construct VUndefined Map.empty))
          ([FetchDone (Response (JsonBody (VArr [demo_medal ''5'' ''A'', demo_medal ''6'' ''B'']))),
            FetchDone (Response (JsonBody (VArr [demo_medal ''5'' ''A'', demo_medal ''6'' ''B''])))] @
           map QueryDone [record_params 0 (demo_medal ''6'' ''B''), record_params 0 (demo_medal ''5'' ''A''),
                          record_params 0 (demo_medal ''5'' ''A''), record_params 0 (demo_medal ''6'' ''B'')]) = Some s' \<and>
        table s' = Map.empty ++ sync_map 0 (fst (get_medals 0 (Response (JsonBody (VArr [demo_medal ''5'' ''A'', demo_medal ''6'' ''B'']))))) \<and>
        pending s' = {#} \<and> fetching s' = 0"
proof -
  let ?r = "Response (JsonBody (VArr [demo_medal ''5'' ''A'', demo_medal ''6'' ''B'']))"
  let ?s = "start_get_medals (construct VUndefined Map.empty)"
  have n: "\<not> nullish (demo_medal ''5'' ''A'')" "\<not> nullish (demo_medal ''6'' ''B'')"
    by (simp_all add: demo_medal_def nullish_def)
  have qs: "fst (get_medals 0 ?r) = [record_params 0 (demo_medal ''5'' ''A''), record_params 0 (demo_medal ''6'' ''B'')]"
    by (simp add: get_medals_def medals_iter_def medal_values_record_params n)
  have "map fst (sync_rows 0 [record_params 0 (demo_medal ''5'' ''A''), record_params 0 (demo_medal ''6'' ''B'')]) = [5, 6]"
    by code_simp
  then have kc: "key_consistent (sync_rows 0 (fst (get_medals 0 ?r)))"
    unfolding qs by (intro distinct_key_consistent) simp
  have st: "alive ?s" "fetching ?s = 2" "pending ?s = {#}" by (simp_all add: start_get_medals_def)
  have m: "mset [record_params 0 (demo_medal ''6'' ''B''), record_params 0 (demo_medal ''5'' ''A''),
                 record_params 0 (demo_medal ''5'' ''A''), record_params 0 (demo_medal ''6'' ''B'')]
          = mset (fst (get_medals 0 ?r)) + mset (fst (get_medals 0 ?r))"
    unfolding qs by simp
  have tab: "table ?s = Map.empty" by (simp add: start_get_medals_def)
  show ?thesis using overlapping_runs_converge [OF st kc m] by (simp only: tab)
qed

text \<open>
  C14. The port: \<open>process.env.PORT || 5000\<close> keeps the variable when it is a
  non-empty string and falls back to 5000 when it is unset or empty; \<open>listen()\<close>
  then logs that port.
\<close>

theorem listen_reports_port:
  "\<exists>s'. server_step mode tz (construct (env_value e) t0) Listen = Some s' \<and> listening s' \<and>
        last (log s') = ''Server running on port '' @
                         (case e of None \<Rightarrow> ''5000'' | Some p \<Rightarrow> if p = [] then ''5000'' else p)"
  by (cases e) (simp_all add: listen_def js_or_def default_port_string)

text \<open>
  C15. Type invariant: in every reachable state, whatever the order of events and
  the runtime's policy, every row the job has written has the column types of the
  data model (integral \<open>medal_id\<close>, \<open>mode_order\<close>, \<open>ordering\<close>, numeric
  \<open>rarity\<close>, boolean flags, date-time or \<open>NULL\<close> dates), provided the rows
  found at start have them.
\<close>

theorem stored_rows_typed:
  assumes "reachable mode tz t0 s" and "table_typed t0"
  shows "table_typed (table s)"
proof -
  from assms(1) have "state_typed s"
  proof (induction rule: reachable.induct)
    case start
    then show ?case using assms(2) by (simp add: state_typed_def)
  next
    case (step s ev s')
    then show ?case by (blast intro: server_step_typed)
  qed
  then show ?thesis by (simp add: state_typed_def)
qed

theorem stored_rows_typed_witness:
  "table_typed (table (the (run_events RejWarn 0 (construct VUndefined Map.empty)
     [FetchDone (Response (JsonBody (VArr [demo_medal ''5'' ''A'']))), QueryDone (record_params 0 (demo_medal ''5'' ''A''))])))"
proof -
  let ?evs = "[FetchDone (Response (JsonBody (VArr [demo_medal ''5'' ''A'']))), QueryDone (record_params 0 (demo_medal ''5'' ''A''))]"
  have "run_events RejWarn 0 (construct VUndefined Map.empty) ?evs \<noteq> None" by code_simp
  then obtain s' where run: "run_events RejWarn 0 (construct VUndefined Map.empty) ?evs = Some s'" by blast
  have "reachable RejWarn 0 Map.empty (construct VUndefined Map.empty)"
    by (rule reachable.start) (simp add: keys_ok_def)
  with run have "reachable RejWarn 0 Map.empty s'" by (rule reachable_run_events)
  moreover have "table_typed Map.empty" by (simp add: table_typed_def)
  ultimately have "table_typed (table s')" by (rule stored_rows_typed)
  with run show ?thesis by simp
qed

text \<open>
  C20. Safety of \<open>once\<close>: in every reachable state, whatever the connection emits and
  however often it reconnects, \<open>Connected to mongodb!\<close> has been logged at most once.
\<close>

theorem mongo_open_logged_once:
  assumes "reachable mode tz t0 s"
  shows "count_list (log s) ''Connected to mongodb!'' \<le> 1"
  using reachable_mongo_inv [OF assms] by (auto simp: mongo_inv_def)

theorem mongo_open_logged_once_witness:
  "count_list (log (the (run_events RejWarn 0 (construct VUndefined Map.empty)
     [MongoConnectDone None, MongoEmit MOpen, MongoEmit MOpen]))) ''Connected to mongodb!'' \<le> 1"
proof -
  let ?evs = "[MongoConnectDone None, MongoEmit MOpen, MongoEmit MOpen]"
  have "run_events RejWarn 0 (construct VUndefined Map.empty) ?evs \<noteq> None"
    by (simp add: mongo_emit_def)
  then obtain s' where run: "run_events RejWarn 0 (construct VUndefined Map.empty) ?evs = Some s'" by blast
  have "reachable RejWarn 0 Map.empty (construct VUndefined Map.empty)"
    by (rule reachable.start) (simp add: keys_ok_def)
  with run have "reachable RejWarn 0 Map.empty s'" by (rule reachable_run_events)
  from mongo_open_logged_once [OF this] run show ?thesis by simp
qed

text \<open>
  C21. Error path of the connection: once connected, an \<open>'error'\<close> the connection emits
  is written to standard error by the listener of line 40 and the server goes on,
  under either runtime policy: it never throws.
\<close>

theorem mongo_error_not_fatal:
  assumes "reachable mode tz t0 s" and "alive s" and "mongo_connected s"
  shows "\<exists>s'. server_step mode tz s (MongoEmit (MError err)) = Some s' \<and> alive s' \<and>
              err_log s' = err_log s @ [err] \<and> log s' = log s \<and> table s' = table s"
  using mongo_emit_error [OF reachable_mongo_inv [OF assms(1)]] assms(2,3) by simp

theorem mongo_error_not_fatal_witness:
  "\<exists>s'. server_step RejThrow 0 (the (server_step RejThrow 0 (construct VUndefined Map.empty) (MongoConnectDone None)))
          (MongoEmit (MError ''connection reset'')) = Some s' \<and> alive s' \<and>
        err_log s' = err_log (the (server_step RejThrow 0 (construct VUndefined Map.empty) (MongoConnectDone None))) @ [''connection reset''] \<and>
        log s' = log (the (server_step RejThrow 0 (construct VUndefined Map.empty) (MongoConnectDone None))) \<and>
        table s' = table (the (server_step RejThrow 0 (construct VUndefined Map.empty) (MongoConnectDone None)))"
proof -
  let ?s = "the (server_step RejThrow 0 (construct VUndefined Map.empty) (MongoConnectDone None))"
  have st: "server_step RejThrow 0 (construct VUndefined Map.empty) (MongoConnectDone None) = Some ?s"
    by (simp add: mongo_emit_def)
  have "reachable RejThrow 0 Map.empty (construct VUndefined Map.empty)"
    by (rule reachable.start) (simp add: keys_ok_def)
  then have r: "reachable RejThrow 0 Map.empty ?s" using st by (rule reachable.step)
  have "alive ?s" "mongo_connected ?s" by (simp_all add: mongo_emit_def fold_run_listener)
  then show ?thesis by (rule mongo_error_not_fatal [OF r])
qed

text \<open>
  C22. Error path of the initial connection: when \<open>mongoose.connect\<close> fails, the
  \<open>'error'\<close> listener logs the error, and the rejected promise, which nobody awaits,
  decides the fate of the whole process: it goes on under \<open>RejWarn\<close> and ends
  under \<open>RejThrow\<close>, taking \<open>GET /\<close> and the sync job with it, although no
  operation of the class uses MongoDB.
\<close>

theorem mongo_connect_failure:
  assumes "reachable mode tz t0 s" and "alive s" and "mongo_pending s"
  shows "\<exists>s'. server_step mode tz s (MongoConnectDone (Some err)) = Some s' \<and>
              err_log s' = err_log s @ [err] \<and> \<not> mongo_connected s' \<and>
              (alive s' \<longleftrightarrow> mode = RejWarn) \<and> (handle_root s' = None \<longleftrightarrow> mode = RejThrow)"
proof -
  let ?s1 = "s\<lparr>mongo_pending := False, mongo_connected := False\<rparr>"
  have "mongo_inv ?s1" using reachable_mongo_inv [OF assms(1)] by simp
  note e = mongo_emit_error [OF this, of err]
  have "routes_ready s" using reachable_timers [OF assms(1)] by simp
  then show ?thesis using e assms(2,3) by (cases mode) (auto simp: handle_root_def reject_def)
qed

theorem mongo_connect_failure_witness:
  "\<exists>s'. server_step RejThrow 0 (construct VUndefined Map.empty) (MongoConnectDone (Some ''ECONNREFUSED'')) = Some s' \<and>
        err_log s' = err_log (construct VUndefined Map.empty) @ [''ECONNREFUSED''] \<and> \<not> mongo_connected s' \<and>
        (alive s' \<longleftrightarrow> RejThrow = RejWarn) \<and> (handle_root s' = None \<longleftrightarrow> RejThrow = RejThrow)"
proof -
  have "reachable RejThrow 0 Map.empty (construct VUndefined Map.empty)"
    by (rule reachable.start) (simp add: keys_ok_def)
  then show ?thesis by (rule mongo_connect_failure) simp_all
qed

end
