(* ===== verification/Http.thy ===== *)
theory Http
  imports Server
begin

text \<open>
  The HTTP front door of \<open>src/models/Server.js\<close>: \<open>middlewares()\<close> mounts
  \<open>express.json()\<close> (line 20) and then \<open>cors()\<close> (line 21); \<open>routes()\<close> registers
  \<open>GET /\<close> (lines 27 to 29) and then mounts the router of \<open>../routes/index.js\<close> at the
  root (line 31). Express runs the middlewares and routes of a request in the order
  they were mounted; an error passed on by a middleware skips the rest and goes to the
  default error handler. The libraries are modelled from their documented defaults
  (Express 4, body-parser, cors): the JSON parser is strict (the text must start with
  \<open>{\<close> or \<open>[\<close>), reads only bodies whose media type is \<open>application/json\<close>,
  refuses with 415 a charset that does not start with \<open>utf-\<close> and a content coding
  it does not know, and refuses bodies over 100 kB; \<open>cors()\<close> allows every origin and ends a preflight
  \<open>OPTIONS\<close> with 204. The router is not among the sources: a request it would
  handle is the outcome \<open>Routed\<close>, with the headers set so far and \<open>req.body\<close>.
  A request is answered only while the process is alive and listening.
\<close>

record http_request =
  req_method :: string
  req_path :: string
  req_type :: "string option"
  req_body :: "string option"
  req_acrh :: "string option"
  req_encoding :: "string option"

record http_response =
  status :: nat
  headers :: "(string \<times> string) list"
  resp_body :: string

datatype outcome = Reply http_response | Routed "(string \<times> string) list" jsv

definition lower_ascii :: "char \<Rightarrow> char" where
  "lower_ascii c = (let k = of_char c :: nat in if 65 \<le> k \<and> k \<le> 90 then char_of (k + 32) else c)"

definition upper_ascii :: "char \<Rightarrow> char" where
  "upper_ascii c = (let k = of_char c :: nat in if 97 \<le> k \<and> k \<le> 122 then char_of (k - 32) else c)"

definition trim_sp :: "string \<Rightarrow> string" where
  "trim_sp s = rev (dropWhile (\<lambda>c. c = CHR '' '') (rev (dropWhile (\<lambda>c. c = CHR '' '') s)))"

fun split_at_char :: "char \<Rightarrow> string \<Rightarrow> string list" where
  "split_at_char c [] = [[]]"
| "split_at_char c (x # xs) = (let ws = split_at_char c xs in if x = c then [] # ws else (x # hd ws) # tl ws)"

text \<open>The media type of a \<open>Content-Type\<close> header: before its parameters, trimmed, in lower case.\<close>

definition media_type :: "string \<Rightarrow> string" where
  "media_type t = map lower_ascii (trim_sp (takeWhile (\<lambda>c. c \<noteq> CHR '';'') t))"

definition is_json_type :: "string option \<Rightarrow> bool" where
  "is_json_type t = (case t of Some x \<Rightarrow> media_type x = ''application/json'' | None \<Rightarrow> False)"

definition unquote :: "string \<Rightarrow> string" where
  "unquote s = (if 2 \<le> length s \<and> hd s = dq \<and> last s = dq then butlast (tl s) else s)"

text \<open>
  The \<open>charset\<close> parameter of a \<open>Content-Type\<close> (\<open>content-type.parse\<close>: a
  parameter name is case-insensitive, a value may be quoted), in lower case as
  body-parser's \<open>getCharset\<close> returns it.
\<close>

definition charset_param :: "string \<Rightarrow> string option" where
  "charset_param t =
     map_option (\<lambda>p. map lower_ascii (unquote (trim_sp (drop 1 (dropWhile (\<lambda>c. c \<noteq> CHR ''='') p)))))
       (find (\<lambda>p. map lower_ascii (trim_sp (takeWhile (\<lambda>c. c \<noteq> CHR ''='') p)) = ''charset'')
             (tl (split_at_char (CHR '';'') t)))"

text \<open>\<open>getCharset(req) || 'utf-8'\<close>: the declared charset, UTF-8 when there is none.\<close>

definition json_charset :: "string option \<Rightarrow> string" where
  "json_charset t = (case t \<bind> charset_param of Some cs \<Rightarrow> if cs = [] then ''utf-8'' else cs | None \<Rightarrow> ''utf-8'')"

definition body_limit :: nat where
  "body_limit = 102400"

text \<open>Express sets \<open>X-Powered-By\<close> on every response before the first middleware runs.\<close>

definition powered_by :: "(string \<times> string) list" where
  "powered_by = [(''X-Powered-By'', ''Express'')]"

text \<open>The default error handler: the error's status and a small HTML page.\<close>

definition error_response :: "nat \<Rightarrow> string \<Rightarrow> http_response" where
  "error_response st msg =
     \<lparr>status = st,
      headers = powered_by @
        [(''Content-Security-Policy'', ''default-src '' @ [CHR 0x27] @ ''none'' @ [CHR 0x27]),
         (''X-Content-Type-Options'', ''nosniff''), (''Content-Type'', ''text/html; charset=utf-8'')],
      resp_body = ''<!DOCTYPE html><pre>'' @ msg @ ''</pre>''\<rparr>"

text \<open>
  \<open>express.json()\<close> (body-parser's \<open>json\<close>, \<open>read\<close> and raw-body, in their order):
  \<open>Some (Inr v)\<close> the \<open>req.body\<close> it leaves (\<open>{}\<close> when it does not read the body),
  \<open>Some (Inl r)\<close> the error response. A charset must start with \<open>utf-\<close> (415
  otherwise); the content coding must be \<open>identity\<close> (the default), \<open>gzip\<close> or
  \<open>deflate\<close> (415 otherwise); the declared length is checked against the limit
  before the body is decoded. The body is the request's bytes; a body in another
  UTF charset than UTF-8, or compressed, is decoded by iconv or zlib, which the
  model leaves out: \<open>None\<close>.
\<close>

definition json_mw :: "http_request \<Rightarrow> (http_response + jsv) option" where
  "json_mw rq =
     (case req_body rq of
        None \<Rightarrow> Some (Inr (VObj []))
      | Some b \<Rightarrow>
          if \<not> is_json_type (req_type rq) then Some (Inr (VObj []))
          else
            let cs = json_charset (req_type rq);
                enc = (case req_encoding rq of None \<Rightarrow> ''identity'' | Some e \<Rightarrow> map lower_ascii e) in
            if take 4 cs \<noteq> ''utf-'' then
              Some (Inl (error_response 415 (''UnsupportedMediaTypeError: unsupported charset &quot;'' @ map upper_ascii cs @ ''&quot;'')))
            else if enc = ''gzip'' \<or> enc = ''deflate'' then None
            else if enc \<noteq> ''identity'' then
              Some (Inl (error_response 415 (''UnsupportedMediaTypeError: unsupported content encoding &quot;'' @ enc @ ''&quot;'')))
            else if body_limit < length b then Some (Inl (error_response 413 ''PayloadTooLargeError: request entity too large''))
            else if cs \<noteq> ''utf-8'' then None
            else if b = [] then Some (Inr (VObj []))
            else Some (case skip_ws b of
                    c # _ \<Rightarrow>
                      if c = CHR ''{'' \<or> c = CHR ''['' then
                        (case json_parse b of
                           Some v \<Rightarrow> Inr v
                         | None \<Rightarrow> Inl (error_response 400 ''SyntaxError: Unexpected token in JSON''))
                      else Inl (error_response 400 ''SyntaxError: Unexpected token in JSON'')
                  | [] \<Rightarrow> Inl (error_response 400 ''SyntaxError: Unexpected end of JSON input'')))"

definition cors_headers :: "(string \<times> string) list" where
  "cors_headers = [(''Access-Control-Allow-Origin'', ''*'')]"

text \<open>
  \<open>cors()\<close> on a preflight: the origin, the default methods, the requested headers
  reflected, and the end of the response with 204.
\<close>

definition preflight :: "http_request \<Rightarrow> http_response" where
  "preflight rq =
     \<lparr>status = 204,
      headers = powered_by @ cors_headers @ [(''Access-Control-Allow-Methods'', ''GET,HEAD,PUT,PATCH,POST,DELETE''),
                 (''Vary'', ''Access-Control-Request-Headers'')] @
                (case req_acrh rq of Some h \<Rightarrow> if h = [] then [] else [(''Access-Control-Allow-Headers'', h)] | None \<Rightarrow> []) @
                [(''Content-Length'', ''0'')],
      resp_body = []\<rparr>"

text \<open>\<open>res.send(object)\<close>: the JSON text with its type and length; \<open>HEAD\<close> gets no body.\<close>

definition send_json :: "(string \<times> string) list \<Rightarrow> string \<Rightarrow> jsv \<Rightarrow> http_response" where
  "send_json hs m v =
     \<lparr>status = 200,
      headers = hs @ [(''Content-Type'', ''application/json; charset=utf-8''), (''Content-Length'', nat_digits (length (json_print v)))],
      resp_body = (if m = ''HEAD'' then [] else json_print v)\<rparr>"

text \<open>\<open>GET /\<close> (\<open>app.get\<close> answers \<open>HEAD\<close> too); every other request goes on to the router.\<close>

definition route :: "server_state \<Rightarrow> http_request \<Rightarrow> (string \<times> string) list \<Rightarrow> jsv \<Rightarrow> outcome option" where
  "route s rq hs b =
     (if (req_method rq = ''GET'' \<or> req_method rq = ''HEAD'') \<and> req_path rq = ''/'' then
        map_option (\<lambda>v. Reply (send_json hs (req_method rq) v)) (handle_root s)
      else Some (Routed hs b))"

definition handle_request :: "server_state \<Rightarrow> http_request \<Rightarrow> outcome option" where
  "handle_request s rq =
     (if alive s \<and> listening s then
        (case json_mw rq of
           None \<Rightarrow> None
         | Some (Inl err) \<Rightarrow> Some (Reply err)
         | Some (Inr b) \<Rightarrow>
             if req_method rq = ''OPTIONS'' then Some (Reply (preflight rq))
             else route s rq (powered_by @ cors_headers) b)
      else None)"

section \<open>Lemmas\<close>

lemma error_response_headers:
  "map_of (headers (error_response st msg)) ''Access-Control-Allow-Origin'' = None"
  by (simp add: error_response_def powered_by_def)

text \<open>Every error of \<open>express.json()\<close> is a client error, sent before \<open>cors()\<close> ran.\<close>

lemma json_mw_error:
  "json_mw rq = Some (Inl r) \<Longrightarrow> 400 \<le> status r \<and> map_of (headers r) ''Access-Control-Allow-Origin'' = None"
  by (auto simp: json_mw_def Let_def error_response_headers split: option.splits if_splits list.splits)
     (auto simp: error_response_def)



section \<open>Properties of the front door\<close>

text \<open>
  C23. \<open>GET /\<close> on a live, listening server answers 200 with the CORS header, and
  its body is JSON text that reads back as the health message \<open>{msg: "Server is running ..."}\<close>.
\<close>

theorem get_root_served:
  assumes "alive s" and "listening s" and "routes_ready s"
    and "req_method rq = ''GET''" and "req_path rq = ''/''" and "req_body rq = None"
  shows "\<exists>r. handle_request s rq = Some (Reply r) \<and> status r = 200 \<and>
              map_of (headers r) ''Access-Control-Allow-Origin'' = Some ''*'' \<and> json_parse (resp_body r) = Some root_response"
proof -
  have "json_value root_response" by (simp add: root_response_def)
  then have "json_parse (json_print root_response) = Some root_response"
    using json_parse_print_value by (simp add: json_parse_def skip_ws_def del: parse_value.simps json_print.simps)
  then show ?thesis
    using assms by (simp add: handle_request_def json_mw_def route_def handle_root_def send_json_def
                              cors_headers_def powered_by_def del: json_print.simps)
qed

theorem get_root_served_witness:
  "\<exists>r. handle_request (listen (construct VUndefined Map.empty))
          \<lparr>req_method = ''GET'', req_path = ''/'', req_type = None, req_body = None, req_acrh = None, req_encoding = None\<rparr> = Some (Reply r) \<and>
        status r = 200 \<and> map_of (headers r) ''Access-Control-Allow-Origin'' = Some ''*'' \<and> json_parse (resp_body r) = Some root_response"
  by (rule get_root_served) (simp_all add: listen_def)







text \<open>
  C27. Safety of \<open>cors()\<close>: every answer that is not a client error, and every request
  handed to the router, carries \<open>Access-Control-Allow-Origin: *\<close>.
\<close>

theorem success_has_cors:
  assumes "handle_request s rq = Some out"
    and "case out of Reply r \<Rightarrow> status r < 400 | Routed hs b \<Rightarrow> True"
  shows "(case out of Reply r \<Rightarrow> map_of (headers r) ''Access-Control-Allow-Origin'' | Routed hs b \<Rightarrow> map_of hs ''Access-Control-Allow-Origin'') = Some ''*''"
proof (cases "json_mw rq")
  case None
  then show ?thesis using assms by (simp add: handle_request_def split: if_splits)
next
  case (Some res)
  show ?thesis
  proof (cases res)
    case (Inl err)
    then show ?thesis using assms Some json_mw_error [of rq err] by (auto simp: handle_request_def split: if_splits)
  next
    case (Inr b)
    then show ?thesis using assms Some
      by (auto simp: handle_request_def route_def preflight_def send_json_def cors_headers_def powered_by_def
               split: if_splits)
  qed
qed

theorem success_has_cors_witness:
  "(case the (handle_request (listen (construct VUndefined Map.empty))
          \<lparr>req_method = ''GET'', req_path = ''/'', req_type = None, req_body = None, req_acrh = None, req_encoding = None\<rparr>) of
      Reply r \<Rightarrow> map_of (headers r) ''Access-Control-Allow-Origin'' | Routed hs b \<Rightarrow> map_of hs ''Access-Control-Allow-Origin'') = Some ''*''"
proof -
  let ?rq = "\<lparr>req_method = ''GET'', req_path = ''/'', req_type = None, req_body = None, req_acrh = None, req_encoding = None\<rparr>"
  let ?out = "Reply (send_json (powered_by @ cors_headers) ''GET'' root_response)"
  have h: "handle_request (listen (construct VUndefined Map.empty)) ?rq = Some ?out"
    by (simp add: handle_request_def listen_def json_mw_def route_def handle_root_def del: json_print.simps)
  have "status (send_json (powered_by @ cors_headers) ''GET'' root_response) < 400" by (simp add: send_json_def)
  then have "(case ?out of Reply r \<Rightarrow> map_of (headers r) ''Access-Control-Allow-Origin'' | Routed hs b \<Rightarrow> map_of hs ''Access-Control-Allow-Origin'') = Some ''*''"
    by (intro success_has_cors [OF h]) simp
  then show ?thesis using h by simp
qed

text \<open>
  C28. Preflight: an \<open>OPTIONS\<close> request without a body, on any path, is ended by
  \<open>cors()\<close> with 204, the allowed origin and methods and an empty body; it never
  reaches \<open>GET /\<close> or the router.
\<close>

theorem preflight_answered:
  assumes "alive s" and "listening s" and "req_method rq = ''OPTIONS''" and "req_body rq = None"
  shows "\<exists>r. handle_request s rq = Some (Reply r) \<and> status r = 204 \<and> resp_body r = [] \<and>
              map_of (headers r) ''Access-Control-Allow-Origin'' = Some ''*'' \<and>
              map_of (headers r) ''Access-Control-Allow-Methods'' = Some ''GET,HEAD,PUT,PATCH,POST,DELETE''"
  using assms by (simp add: handle_request_def json_mw_def preflight_def powered_by_def cors_headers_def)

theorem preflight_answered_witness:
  "\<exists>r. handle_request (listen (construct VUndefined Map.empty))
          \<lparr>req_method = ''OPTIONS'', req_path = ''/users'', req_type = None, req_body = None,
           req_acrh = Some ''content-type'', req_encoding = None\<rparr> = Some (Reply r) \<and> status r = 204 \<and> resp_body r = [] \<and>
        map_of (headers r) ''Access-Control-Allow-Origin'' = Some ''*'' \<and>
        map_of (headers r) ''Access-Control-Allow-Methods'' = Some ''GET,HEAD,PUT,PATCH,POST,DELETE''"
  by (rule preflight_answered) (simp_all add: listen_def)



end
