(* ===== verification/Spec2Isabelle.thy ===== *)
theory Spec2Isabelle
  imports Http
begin

text \<open>
  \<^bold>\<open>A verification library for the medal synchronisation server\<close>
  (\<open>src/models/Server.js\<close>, class \<open>Server\<close>).

  \<^bold>\<open>The program.\<close> The constructor installs middleware (JSON body parsing, CORS),
  opens the databases (\<open>database()\<close>: a MongoDB connection and a MySQL promise
  pool), logs into the osu! API (\<open>osuApi()\<close>, \<open>login()\<close>, repeated every 24 hours),
  registers the routes (\<open>GET /\<close> answers a fixed health message) and starts the
  schedules (\<open>schedules()\<close>): \<open>getMedals()\<close> runs once at start and every day at
  midnight. \<open>getMedals\<close> fetches the medal catalog, decodes it as JSON, and for
  each record builds 19 parameters and fires a \<open>REPLACE INTO medals\<close> query on the
  pool without awaiting it. No promise of the class is awaited or caught.

  \<^bold>\<open>The theories, bottom up.\<close>
  \<^item> \<open>Prelude\<close>: evaluation-rule collections, \<open>join_with\<close> (\<open>Array.prototype.join\<close>),
    digit values and decimal digit strings (\<open>nat_digits\<close>) with their lemmas.
  \<^item> \<open>JsValue\<close>: JavaScript values \<open>jsv\<close> and numbers \<open>jsnum\<close> (exact decimals in
    canonical form, \<open>dec_norm\<close>), property access \<open>get_prop\<close> (\<open>m.Field\<close>, a
    \<open>TypeError\<close> on \<open>null\<close>), \<open>to_string\<close> (\<open>ToString\<close>), \<open>number_to_string\<close>
    (\<open>Number::toString\<close>), \<open>to_boolean\<close> (\<open>Boolean(v)\<close>); lemmas on the decimal
    notation of integers.
  \<^item> \<open>JsNumber\<close>: \<open>parse_int\<close>/\<open>js_parseInt\<close> (\<open>parseInt\<close>) and
    \<open>parse_float\<close>/\<open>js_parseFloat\<close> (\<open>parseFloat\<close>). Claims C6 (round trip of
    integers below \<open>10^21\<close>), C7 (the bound is exact) and C16 (\<open>parseFloat\<close>
    reads back every number \<open>Number::toString\<close> prints, by one lemma per notation).
  \<^item> \<open>JsDate\<close>: ECMAScript's calendar arithmetic (\<open>make_day\<close>, \<open>make_time\<close>,
    \<open>time_clip\<close>) and the Date Time String Format as a reference grammar
    (\<open>parse_date_string\<close>, \<open>fields_time\<close>); the catalog's two date formats
    (\<open>iso_date\<close>, \<open>local_datetime\<close>, zero-padded fields by \<open>pad_digits\<close>) and
    the lemmas that the grammar reads them back.
  \<^item> \<open>DateParser\<close>: \<open>new_date\<close> (\<open>new Date(v)\<close>, lines 107 and 109) and, for a
    string, V8's parser as V8 writes it: the tokenizer (\<open>tokenize\<close>), the ES5 part
    (\<open>es5\<close>), the legacy loop (\<open>legacy\<close>, \<open>legacy_step\<close>), the day, time and zone
    composers (\<open>day_write\<close>, \<open>time_write\<close>, \<open>tz_write\<close>, the last in 32-bit
    arithmetic), \<open>v8_parse\<close> and the time value (\<open>v8_time\<close>,
    \<open>ParseDateTimeString\<close>). Claims C30 (refinement: on every string of the
    format V8 gives the grammar's time value) and C31 (the legacy parser moves
    two-digit years of the catalog's date-time strings).
  \<^item> \<open>MedalRow\<close>: \<open>medal_values\<close>, the array \<open>val\<close> of one record (lines 94-114).
  \<^item> \<open>SqlSink\<close>: the driver's escaping (\<open>escape_jsv\<close>, \<open>escape_param\<close>,
    \<open>escape_all\<close>, modelled from mysql2's documented behaviour), \<open>replace_into\<close>
    (\<open>REPLACE INTO\<close>, lines 83-92) and one query of the pool (\<open>exec_query\<close>,
    \<open>apply_query\<close>, line 115) on the table, a map from \<open>medal_id\<close> to rows.
    The column types of the data model (\<open>medal_schema\<close>, \<open>has_type\<close>) and the
    lemmas that escaping a well-formed parameter list gives a row of those types.
    Claims C8 (string flags are stored true), C9 (a null date is stored as
    the epoch), C12 (a date-only string is stored shifted by the offset) and C13
    (a local date-time string from the year 100 on is stored as its wall clock).
  \<^item> \<open>Json\<close>: JSON text, as \<open>result.json()\<close> (line 82) and \<open>express.json()\<close>
    (line 20) read it and \<open>res.send\<close> (line 28) writes it: a lexer (\<open>lex_number\<close>,
    \<open>str_body\<close> with \<open>\u\<close> escapes and surrogate pairs into UTF-8 bytes), a
    recursive-descent parser with fuel (\<open>parse_value\<close>, \<open>parse_elts\<close>,
    \<open>parse_members\<close>, \<open>json_parse\<close>) and the printer \<open>json_print\<close>
    (\<open>JSON.stringify\<close>), modelled from ECMA-404 and ECMA-262. Claim C17 (the parser
    reads back what the printer writes, for every JSON value).
  \<^item> \<open>Sync\<close>: the loop (\<open>medals_iter\<close>, \<open>issue_queries\<close>), the job
    (\<open>get_medals\<close>, lines 80-117), sequential execution (\<open>run_queries\<close>,
    \<open>sync_once\<close>) and the abstract specification \<open>sync_map\<close>. Claims C1
    (refinement), C2 (the stored row), C3 (a null record aborts the batch), C4 (a
    NaN key is rejected), C5 (no pruning), and, with the body text decoded by
    \<open>decode_body\<close> (\<open>result.json()\<close>), C18 (a body that is not JSON writes
    nothing) and C19 (the refinement through the JSON text).
  \<^item> \<open>Server\<close>: the constructor (\<open>construct\<close> and its parts, lines 9-78, with
    \<open>this.port\<close> from \<open>process.env.PORT || 5000\<close>), \<open>listen()\<close> (lines 61-65,
    the event \<open>Listen\<close>, called by the entry point), the events of the event loop
    (\<open>server_step\<close>, \<open>run_events\<close>), reachable states (\<open>reachable\<close>, from any
    value of \<open>PORT\<close>) and the health route (\<open>handle_root\<close>). The runtime's
    policy on unhandled rejections is the parameter \<open>rej_mode\<close>. Claims C10 (the
    front door survives every failure when rejections only warn), C11 (overlapping
    runs converge), C14 (the port and its log) and C15 (stored rows keep the column
    types, by rule induction on the invariant \<open>state_typed\<close>, which also covers
    the queries in flight).
    The MongoDB connection (lines 35-41) is an event emitter with the listeners
    of \<open>database()\<close> (\<open>mongo_emit\<close>, \<open>run_listener\<close>; \<open>on\<close> listeners stay,
    \<open>once\<close> listeners go after their first run, an \<open>'error'\<close> without a listener
    is thrown) and two events: \<open>mongoose.connect\<close> settles, the connection emits.
    Claims C20 (the connection is logged at most once, by rule induction on the
    listener invariant \<open>mongo_inv\<close>), C21 (a connection error is logged, never
    fatal) and C22 (a failed initial connection ends the process when unhandled
    rejections throw).
  \<^item> \<open>Http\<close>: the front door (lines 19-31): \<open>express.json()\<close> (\<open>json_mw\<close>:
    strict, \<open>application/json\<close> only, a charset starting with \<open>utf-\<close>
    (\<open>json_charset\<close>, \<open>charset_param\<close>), the content codings body-parser knows,
    100 kB), \<open>cors()\<close> (\<open>cors_headers\<close>,
    \<open>preflight\<close>), \<open>GET /\<close> (\<open>route\<close>, \<open>send_json\<close>) and the dispatch in mounting
    order (\<open>handle_request\<close>), modelled from the libraries' documented defaults.
    A request the router would handle is the outcome \<open>Routed\<close>. Claims C23
    (\<open>GET /\<close> answers the health message as JSON), C24 (a malformed UTF-8 JSON
    body is answered 400 without the CORS header), C25 (the 100 kB limit, checked
    before decoding), C26 (a charset that is not UTF is refused with 415), C27
    (every answer that is not a client error carries the CORS header), C28
    (preflights) and C29 (a UTF-8 JSON body reaches the router as the value sent).

  \<^bold>\<open>How the parts interact.\<close> \<open>Http\<close> answers a request in a state of
  \<open>Server\<close> (only while it is alive and listening) and decodes bodies with
  \<open>Json\<close>. \<open>Server\<close> calls \<open>get_medals\<close> when a fetch
  settles and \<open>exec_query\<close> when the pool completes a query; \<open>get_medals\<close>
  builds each record's parameters with \<open>medal_values\<close>, which uses the coercions
  of \<open>JsNumber\<close>, \<open>DateParser\<close> and \<open>JsValue\<close>; \<open>exec_query\<close> escapes them and
  runs \<open>replace_into\<close>. The refinement lemma \<open>run_queries_sync_map\<close> lets every
  property of a batch be stated on the abstract map \<open>sync_map\<close>.

  \<^bold>\<open>Parameters and bounds.\<close> \<open>tz\<close> is the server's fixed offset from UTC in
  milliseconds (daylight saving time is not modelled). Numbers are exact decimals:
  a JSON literal of at most 15 significant digits is the double it denotes.
  Strings are 8-bit character lists (ASCII white space only; JSON text as UTF-8
  bytes). The only fuel is the JSON parser's: each call of \<open>parse_value\<close>,
  \<open>parse_elts\<close> or \<open>parse_members\<close> spends one unit, and \<open>json_parse\<close>
  gives one more than twice the length of the text. That is always enough:
  \<open>parse_fuel_all\<close> shows that a parse that succeeds with some fuel and consumes
  \<open>k\<close> characters succeeds, with the same result, with any fuel of at least
  \<open>2 * k + 1\<close>, and a value consumes at most the whole text. Every loop of the
  job runs over a finite list, and the event loop is a relation.
  The date claims take years below 10000 (four digits, as the format has them) and,
  for a local date-time, an offset of at most a day: within those bounds no time
  value reaches \<open>TimeClip\<close>'s limit, and V8's refusal of local times more than
  ten days beyond it (before the offset is applied) agrees with \<open>TimeClip\<close> after
  it (C30). The legacy loop is a \<open>function\<close> whose termination measure is the
  number of tokens left: every step consumes its token.

  \<^bold>\<open>Not modelled.\<close> The router \<open>../routes/index.js\<close> (not among the sources);
  the MongoDB driver behind the connection's events, and the connect options; the
  HTTP response bytes beyond status, the modelled headers and the body (no
  \<open>ETag\<close>, no stack trace in the error page), the decoding of a request body
  declared in another UTF charset than UTF-8 or compressed with gzip or deflate
  (iconv and zlib: \<open>json_mw\<close> gives no answer for it, and every claim on a body
  says UTF-8 without a content coding); JSON objects
  with duplicate or array-index keys are printed in member order (the order
  \<open>JSON.stringify\<close> uses for the objects the program sends); the
  socket \<open>app.listen\<close> binds (the model keeps the port value and the log line, not
  what the operating system makes of a non-numeric or zero port); in V8's date
  parser, characters beyond one byte and the runtime's own time zone rules (the
  offset is the fixed \<open>tz\<close>); objects as query parameters (rejected by the model).
\<close>

end
